(* ===== verification/Prelude.thy ===== *)
theory Prelude
  imports Main
begin

text \<open>
  Shared vocabulary of the development.

  \<^item> JSON values as the backend stores them in its \<^verbatim>\<open>JSON\<close> columns, Python dictionaries as
    association lists that keep insertion order, and the dictionary operations the code uses
    (\<^verbatim>\<open>d.get(k)\<close>, \<^verbatim>\<open>d[k] = v\<close>, \<^verbatim>\<open>{**a, **b}\<close>).
  \<^item> Python truthiness, \<^verbatim>\<open>x or y\<close> and Python equality of JSON values.
  \<^item> \<^verbatim>\<open>dict.fromkeys\<close>, updates of table rows, row identifiers.
  \<^item> HTTP errors and the type of a request handler.

  Times are integers counting microseconds; \<open>minutes\<close>, \<open>days\<close> are the \<^verbatim>\<open>timedelta\<close>s the code
  builds. An ISO timestamp written into a JSON value is the constructor \<open>JTime\<close>.
\<close>

named_theorems dict_simps \<open>look-ups in dictionaries after updates and merges\<close>
named_theorems row_simps \<open>reading rows after a conditional update\<close>

section \<open>JSON values and dictionaries\<close>

type_synonym time = int

datatype json =
    JNull
  | JBool bool
  | JInt int
  | JDec int
  | JStr string
  | JTime time
  | JList "json list"
  | JObj "(string \<times> json) list"

type_synonym dict = "(string \<times> json) list"

definition dget :: "dict \<Rightarrow> string \<Rightarrow> json" where
  "dget d k = (case map_of d k of Some v \<Rightarrow> v | None \<Rightarrow> JNull)"

definition has_key :: "dict \<Rightarrow> string \<Rightarrow> bool" where
  "has_key d k \<longleftrightarrow> map_of d k \<noteq> None"

fun dset :: "dict \<Rightarrow> string \<Rightarrow> json \<Rightarrow> dict" where
  "dset [] k v = [(k, v)]"
| "dset ((k', v') # d) k v = (if k' = k then (k, v) # d else (k', v') # dset d k v)"

definition dmerge :: "dict \<Rightarrow> dict \<Rightarrow> dict" where
  "dmerge a b =
     map (\<lambda>(k, v). (k, case map_of b k of Some w \<Rightarrow> w | None \<Rightarrow> v)) a
     @ filter (\<lambda>(k, _). map_of a k = None) b"

lemma map_of_dset [simp]: "map_of (dset d k v) = (map_of d)(k \<mapsto> v)"
  by (induction d k v rule: dset.induct) (auto simp: fun_eq_iff)

lemma map_of_map_value:
  "map_of (map (\<lambda>(k, v). (k, f k v)) a) k = map_option (f k) (map_of a k)"
  by (induction a) auto

lemma map_of_filter_key:
  "map_of (filter (\<lambda>(k, _). P k) b) k = (if P k then map_of b k else None)"
  by (induction b) auto

lemma map_of_dmerge [simp]:
  "map_of (dmerge a b) k = (case map_of b k of Some v \<Rightarrow> Some v | None \<Rightarrow> map_of a k)"
  by (auto simp: dmerge_def map_add_def map_of_map_value map_of_filter_key split: option.splits)

lemma dget_dset [dict_simps, simp]: "dget (dset d k v) k' = (if k' = k then v else dget d k')"
  by (simp add: dget_def)

lemma dget_dmerge [dict_simps]:
  "dget (dmerge a b) k = (if has_key b k then dget b k else dget a k)"
  by (simp add: dget_def has_key_def split: option.splits)

lemma dget_Nil [dict_simps, simp]: "dget [] k = JNull"
  by (simp add: dget_def)

lemma dget_Cons [dict_simps, simp]:
  "dget ((k', v) # d) k = (if k = k' then v else dget d k)"
  by (simp add: dget_def)

lemma has_key_Nil [dict_simps, simp]: "\<not> has_key [] k"
  by (simp add: has_key_def)

lemma has_key_Cons [dict_simps, simp]:
  "has_key ((k', v) # d) k \<longleftrightarrow> k = k' \<or> has_key d k"
  by (simp add: has_key_def)

lemma has_key_dset [dict_simps, simp]:
  "has_key (dset d k v) k' \<longleftrightarrow> k' = k \<or> has_key d k'"
  by (simp add: has_key_def)

lemma has_key_dmerge [dict_simps]:
  "has_key (dmerge a b) k \<longleftrightarrow> has_key a k \<or> has_key b k"
  by (auto simp: has_key_def split: option.splits)

lemma dmerge_Nil [simp]: "dmerge d [] = d"
  by (induction d) (auto simp: dmerge_def)

section \<open>Truthiness and equality\<close>

fun truthy :: "json \<Rightarrow> bool" where
  "truthy JNull = False"
| "truthy (JBool b) = b"
| "truthy (JInt i) = (i \<noteq> 0)"
| "truthy (JDec i) = (i \<noteq> 0)"
| "truthy (JStr s) = (s \<noteq> [])"
| "truthy (JTime t) = True"
| "truthy (JList xs) = (xs \<noteq> [])"
| "truthy (JObj d) = (d \<noteq> [])"

definition py_or :: "json \<Rightarrow> json \<Rightarrow> json" where
  "py_or a b = (if truthy a then a else b)"

fun jlist :: "json \<Rightarrow> json list" where
  "jlist (JList xs) = xs"
| "jlist _ = []"

fun jobj :: "json \<Rightarrow> dict" where
  "jobj (JObj d) = d"
| "jobj _ = []"

lemma truthy_py_or [simp]: "truthy (py_or a b) \<longleftrightarrow> truthy a \<or> truthy b"
  by (simp add: py_or_def)

text \<open>
  Python's \<^verbatim>\<open>==\<close> on JSON values: \<^verbatim>\<open>True == 1\<close>, and dictionaries are compared without their
  order. Keys of a dictionary are distinct.
\<close>

lemma size_zip_fst [termination_simp]:
  "(a, b) \<in> set (zip xs ys) \<Longrightarrow> size a < Suc (size_list size xs)"
  by (auto dest!: set_zip_leftD intro: le_imp_less_Suc size_list_estimation')

fun py_eq :: "json \<Rightarrow> json \<Rightarrow> bool" where
  "py_eq JNull JNull = True"
| "py_eq (JBool a) (JBool b) = (a = b)"
| "py_eq (JBool a) (JInt i) = (i = of_bool a)"
| "py_eq (JInt i) (JBool a) = (i = of_bool a)"
| "py_eq (JInt i) (JInt j) = (i = j)"
| "py_eq (JDec i) (JDec j) = (i = j)"
| "py_eq (JInt i) (JDec j) = (100 * i = j)"
| "py_eq (JDec i) (JInt j) = (i = 100 * j)"
| "py_eq (JBool a) (JDec j) = (100 * of_bool a = j)"
| "py_eq (JDec i) (JBool b) = (i = 100 * of_bool b)"
| "py_eq (JStr s) (JStr t) = (s = t)"
| "py_eq (JTime s) (JTime t) = (s = t)"
| "py_eq (JList xs) (JList ys) =
     (length xs = length ys \<and> (\<forall>(x, y) \<in> set (zip xs ys). py_eq x y))"
| "py_eq (JObj a) (JObj b) =
     (length a = length b \<and>
      (\<forall>(k, v) \<in> set a. case map_of b k of None \<Rightarrow> False | Some w \<Rightarrow> py_eq v w))"
| "py_eq _ _ = False"

lemma py_eq_list: "(\<And>x. x \<in> set xs \<Longrightarrow> py_eq x x) \<Longrightarrow> py_eq (JList xs) (JList xs)"
  by (auto simp: set_zip)

text \<open>Every value whose dictionaries have distinct keys equals itself.\<close>

fun wf_json :: "json \<Rightarrow> bool" where
  "wf_json (JList xs) = (\<forall>x \<in> set xs. wf_json x)"
| "wf_json (JObj d) = (distinct (map fst d) \<and> (\<forall>(k, v) \<in> set d. wf_json v))"
| "wf_json _ = True"

lemma py_eq_refl [simp]: "wf_json j \<Longrightarrow> py_eq j j"
proof (induction j rule: wf_json.induct)
  case (2 d)
  then show ?case by (auto split: option.splits simp: map_of_eq_None_iff dest!: map_of_SomeD)
      (force simp: map_of_eq_Some_iff dest: map_of_is_SomeI eq_key_imp_eq_value)+
qed (auto intro: py_eq_list simp: set_zip)

section \<open>Lists and table rows\<close>

text \<open>\<^verbatim>\<open>list(dict.fromkeys(xs))\<close>: each element once, in the order of first occurrence.\<close>

fun fromkeys :: "'a list \<Rightarrow> 'a list" where
  "fromkeys [] = []"
| "fromkeys (x # xs) = x # filter (\<lambda>y. y \<noteq> x) (fromkeys xs)"

lemma set_fromkeys [simp]: "set (fromkeys xs) = set xs"
  by (induction xs) auto

lemma distinct_fromkeys [simp]: "distinct (fromkeys xs)"
  by (induction xs) auto

lemma fromkeys_distinct: "distinct xs \<Longrightarrow> fromkeys xs = xs"
  by (induction xs) (auto simp: filter_id_conv)

lemma fromkeys_Nil_iff [simp]: "fromkeys xs = [] \<longleftrightarrow> xs = []"
  by (cases xs) auto

text \<open>
  Grouping as the code does it, \<^verbatim>\<open>groups.setdefault(key(x), []).append(x)\<close> in a loop: the groups
  come in the order of their first member, and a group keeps the order of its members.
\<close>

fun add_to_group :: "'k \<Rightarrow> 'a \<Rightarrow> ('k \<times> 'a list) list \<Rightarrow> ('k \<times> 'a list) list" where
  "add_to_group k x [] = [(k, [x])]"
| "add_to_group k x ((k', xs) # gs) =
     (if k' = k then (k', xs @ [x]) # gs else (k', xs) # add_to_group k x gs)"

definition group_by :: "('a \<Rightarrow> 'k) \<Rightarrow> 'a list \<Rightarrow> ('k \<times> 'a list) list" where
  "group_by key xs = foldl (\<lambda>gs x. add_to_group (key x) x gs) [] xs"

lemma fromkeys_snoc:
  "fromkeys (xs @ [x]) = (if x \<in> set xs then fromkeys xs else fromkeys xs @ [x])"
  by (induction xs) auto

lemma add_to_group_map:
  assumes "distinct ks"
  shows "add_to_group k x (map (\<lambda>k. (k, f k)) ks) =
     (if k \<in> set ks then map (\<lambda>k'. (k', if k' = k then f k' @ [x] else f k')) ks
      else map (\<lambda>k. (k, f k)) ks @ [(k, [x])])"
  using assms by (induction ks) auto

lemma group_by_eq:
  "group_by key xs = map (\<lambda>k. (k, filter (\<lambda>x. key x = k) xs)) (fromkeys (map key xs))"
proof (induction xs rule: rev_induct)
  case Nil
  then show ?case by (simp add: group_by_def)
next
  case (snoc x xs)
  have "group_by key (xs @ [x]) = add_to_group (key x) x (group_by key xs)"
    by (simp add: group_by_def)
  also have "\<dots> = map (\<lambda>k. (k, filter (\<lambda>y. key y = k) (xs @ [x]))) (fromkeys (map key (xs @ [x])))"
  proof (cases "key x \<in> key ` set xs")
    case True
    then show ?thesis
      by (auto simp: snoc.IH add_to_group_map fromkeys_snoc)
  next
    case False
    then have "filter (\<lambda>y. key y = key x) xs = []"
      by (metis (mono_tags, lifting) filter_empty_conv imageI)
    with False show ?thesis
      by (auto simp: snoc.IH add_to_group_map fromkeys_snoc)
  qed
  finally show ?case .
qed

lemma fst_group_by [simp]: "map fst (group_by key xs) = fromkeys (map key xs)"
  by (simp add: group_by_eq comp_def)

lemma group_by_filter:
  "(k, ys) \<in> set (group_by key xs) \<Longrightarrow> ys = filter (\<lambda>x. key x = k) xs"
  by (auto simp: group_by_eq)

lemma group_by_nonempty: "(k, ys) \<in> set (group_by key xs) \<Longrightarrow> ys \<noteq> []"
  by (auto simp: group_by_eq filter_empty_conv)

lemma group_by_key: "(k, ys) \<in> set (group_by key xs) \<Longrightarrow> y \<in> set ys \<Longrightarrow> key y = k"
  by (auto simp: group_by_eq)

lemma group_by_distinct:
  "distinct (map key xs) \<Longrightarrow> group_by key xs = map (\<lambda>x. (key x, [x])) xs"
proof -
  assume d: "distinct (map key xs)"
  have "filter (\<lambda>y. key y = key x) xs = [x]" if "x \<in> set xs" for x
    using d that
  proof (induction xs)
    case (Cons y ys)
    then show ?case
      by (cases "y = x") (auto simp: filter_empty_conv, metis imageI)
  qed simp
  with d show ?thesis
    by (simp add: group_by_eq fromkeys_distinct comp_def)
qed

lemma sort_key_sorted: "sorted (map f xs) \<Longrightarrow> sort_key f xs = xs"
  by (induction xs) (auto simp: insort_is_Cons)

text \<open>An SQL \<^verbatim>\<open>UPDATE\<close> of the rows that satisfy a condition.\<close>

definition update_where :: "('a \<Rightarrow> bool) \<Rightarrow> ('a \<Rightarrow> 'a) \<Rightarrow> 'a list \<Rightarrow> 'a list" where
  "update_where P f rows = map (\<lambda>r. if P r then f r else r) rows"

lemma set_update_where [row_simps]:
  "set (update_where P f rows) = {f r |r. r \<in> set rows \<and> P r} \<union> {r \<in> set rows. \<not> P r}"
  by (auto simp: update_where_def)

lemma update_where_memI [intro]:
  "r \<in> set rows \<Longrightarrow> P r \<Longrightarrow> f r \<in> set (update_where P f rows)"
  by (auto simp: update_where_def)

lemma update_where_keepI [intro]:
  "r \<in> set rows \<Longrightarrow> \<not> P r \<Longrightarrow> r \<in> set (update_where P f rows)"
  by (auto simp: update_where_def)

lemma length_update_where [simp]: "length (update_where P f rows) = length rows"
  by (simp add: update_where_def)

lemma map_update_where [row_simps]:
  "(\<And>r. P r \<Longrightarrow> g (f r) = g r) \<Longrightarrow> map g (update_where P f rows) = map g rows"
  by (simp add: update_where_def)

lemma update_where_id [simp]: "(\<And>r. r \<in> set rows \<Longrightarrow> \<not> P r) \<Longrightarrow> update_where P f rows = rows"
  by (induction rows) (auto simp: update_where_def)

lemma update_where_Nil [simp]: "update_where P f [] = []"
  by (simp add: update_where_def)

lemma update_where_Cons [simp]:
  "update_where P f (r # rows) = (if P r then f r else r) # update_where P f rows"
  by (simp add: update_where_def)

lemma ball_update_where [row_simps]:
  "(\<forall>r \<in> set (update_where P f rows). Q r) \<longleftrightarrow>
     (\<forall>r \<in> set rows. if P r then Q (f r) else Q r)"
  by (auto simp: update_where_def)

lemma filter_update_where:
  "(\<And>x. P x \<Longrightarrow> Q (f x)) \<Longrightarrow> (\<And>x. \<not> P x \<Longrightarrow> \<not> Q x) \<Longrightarrow>
   filter Q (update_where P f rows) = map f (filter P rows)"
  by (induction rows) auto

text \<open>The rows that meet \<open>P\<close> are changed as \<open>Q\<close> says, and all others are as they were.\<close>

definition changes_rows :: "('a \<Rightarrow> bool) \<Rightarrow> ('a \<Rightarrow> 'a \<Rightarrow> bool) \<Rightarrow> 'a list \<Rightarrow> 'a list \<Rightarrow> bool" where
  "changes_rows P Q rows rows' \<longleftrightarrow> list_all2 (\<lambda>r r'. if P r then Q r r' else r' = r) rows rows'"

lemma changes_rows_update: "(\<And>r. P r \<Longrightarrow> Q r (f r)) \<Longrightarrow> changes_rows P Q rows (update_where P f rows)"
  by (simp add: changes_rows_def update_where_def list_all2_conv_all_nth)

text \<open>Rows that meet \<open>P\<close> are added, and nothing else happens.\<close>

definition appends :: "('a \<Rightarrow> bool) \<Rightarrow> 'a list \<Rightarrow> 'a list \<Rightarrow> bool" where
  "appends P rows rows' \<longleftrightarrow> (\<exists>new. rows' = rows @ new \<and> list_all P new)"

lemma appends_refl [simp]: "appends P rows rows"
  by (simp add: appends_def)

lemma appends_one [simp]: "P x \<Longrightarrow> appends P rows (rows @ [x])"
  by (simp add: appends_def)

lemma appends_trans: "appends P a b \<Longrightarrow> appends P b c \<Longrightarrow> appends P a c"
  by (force simp: appends_def)

lemma appends_mono: "appends P a b \<Longrightarrow> (\<And>x. P x \<Longrightarrow> Q x) \<Longrightarrow> appends Q a b"
  by (auto simp: appends_def list_all_iff)

lemma image_set_filter: "g ` {r \<in> set rows. P r} = set (map g (filter P rows))"
  by auto

text \<open>The identifier SQLite gives a new row: one more than the largest in the table.\<close>

fun fresh_id :: "int list \<Rightarrow> int" where
  "fresh_id [] = 1"
| "fresh_id (i # is) = max (i + 1) (fresh_id is)"

lemma fresh_id_greater: "i \<in> set is \<Longrightarrow> i < fresh_id is"
  by (induction "is") (auto simp: less_max_iff_disj)

lemma fresh_id_notin [simp]: "fresh_id is \<notin> set is"
  using fresh_id_greater by blast

lemma map_filter_iff: "y \<in> set (List.map_filter f xs) \<longleftrightarrow> (\<exists>x \<in> set xs. f x = Some y)"
  by (induction xs) (auto simp: List.map_filter_simps split: option.splits)

lemma find_unique:
  assumes "x \<in> set xs" and "P x" and "\<And>y. y \<in> set xs \<Longrightarrow> P y \<Longrightarrow> y = x"
  shows "find P xs = Some x"
proof (cases "find P xs")
  case None
  with assms(1,2) show ?thesis by (auto simp: find_None_iff)
next
  case (Some y)
  then have "y \<in> set xs" "P y" by (auto simp: find_Some_iff)
  with Some assms(3) show ?thesis by simp
qed

text \<open>The first row a \<^verbatim>\<open>db.scalar(select(...))\<close> returns, if any.\<close>

definition first_row :: "('a \<Rightarrow> bool) \<Rightarrow> 'a list \<Rightarrow> 'a option" where
  "first_row P rows = find P rows"

lemma first_row_Some: "first_row P rows = Some r \<Longrightarrow> r \<in> set rows \<and> P r"
  by (auto simp: first_row_def find_Some_iff)

lemma first_row_None: "first_row P rows = None \<longleftrightarrow> (\<forall>r \<in> set rows. \<not> P r)"
  by (auto simp: first_row_def find_None_iff)

lemma first_row_key:
  "distinct (map key rows) \<Longrightarrow> r \<in> set rows \<Longrightarrow> first_row (\<lambda>x. key x = key r) rows = Some r"
  by (induction rows) (auto simp: first_row_def)

lemma first_row_update [row_simps]:
  "(\<And>r. P r \<Longrightarrow> key (f r) = key r) \<Longrightarrow>
   first_row (\<lambda>r. key r = k) (update_where P f rows) =
     map_option (\<lambda>r. if P r then f r else r) (first_row (\<lambda>r. key r = k) rows)"
  by (induction rows) (auto simp: first_row_def)

lemma first_row_map:
  "(\<And>x. x \<in> set xs \<Longrightarrow> P (f x) = P x) \<Longrightarrow>
   first_row P (map f xs) = map_option f (first_row P xs)"
  by (induction xs) (auto simp: first_row_def)

lemma first_row_single [simp]: "first_row P [x] = (if P x then Some x else None)"
  by (simp add: first_row_def)

lemma first_row_append:
  "first_row P (xs @ ys) = (case first_row P xs of Some x \<Rightarrow> Some x | None \<Rightarrow> first_row P ys)"
  by (induction xs) (auto simp: first_row_def)

lemma first_row_snoc:
  "first_row P (xs @ [x]) =
     (case first_row P xs of Some y \<Rightarrow> Some y | None \<Rightarrow> if P x then Some x else None)"
  by (simp add: first_row_append split: option.split)

section \<open>Times, optional strings, requests\<close>

definition minutes :: "int \<Rightarrow> time" where
  "minutes n = n * 60000000"

definition days :: "int \<Rightarrow> time" where
  "days n = n * 86400000000"

text \<open>The times SQLite sets itself (\<^verbatim>\<open>server_default=func.now()\<close>, \<^verbatim>\<open>onupdate=func.now()\<close>) have no
  fraction of a second.\<close>

definition whole_second :: "time \<Rightarrow> time" where
  "whole_second t = t - t mod 1000000"

lemma minutes_less_iff [simp]: "minutes a < minutes b \<longleftrightarrow> a < b"
  by (simp add: minutes_def)

lemma minutes_pos_iff [simp]: "0 < minutes a \<longleftrightarrow> 0 < a"
  by (simp add: minutes_def)

text \<open>\<^verbatim>\<open>a or b\<close> where \<open>a\<close> is an optional string: the empty string is false as well.\<close>

definition str_or :: "string option \<Rightarrow> string \<Rightarrow> string" where
  "str_or a b = (case a of Some s \<Rightarrow> if s = [] then b else s | None \<Rightarrow> b)"

definition jopt :: "('a \<Rightarrow> json) \<Rightarrow> 'a option \<Rightarrow> json" where
  "jopt f a = (case a of Some x \<Rightarrow> f x | None \<Rightarrow> JNull)"

text \<open>
  \<^verbatim>\<open>str(x)\<close> of the scalar values the code formats. Texts are UTF-8 byte strings, so the order of
  Python strings (by code point) is the lexicographic order of their bytes; case mapping and
  white space are those of ASCII, which is what vehicle plates, VINs and identifiers use
  (Hangul letters have no case).
\<close>

fun show_nat :: "nat \<Rightarrow> string" where
  "show_nat n = (if n < 10 then [char_of (48 + n)] else show_nat (n div 10) @ [char_of (48 + n mod 10)])"

declare show_nat.simps [simp del]

definition show_int :: "int \<Rightarrow> string" where
  "show_int i = (if i < 0 then ''-'' @ show_nat (nat (- i)) else show_nat (nat i))"

fun py_str :: "json \<Rightarrow> string" where
  "py_str (JStr s) = s"
| "py_str (JInt i) = show_int i"
| "py_str (JBool b) = (if b then ''True'' else ''False'')"
| "py_str JNull = ''None''"
| "py_str _ = []"

definition upper_char :: "char \<Rightarrow> char" where
  "upper_char c = (let n = of_char c :: nat in if 97 \<le> n \<and> n \<le> 122 then char_of (n - 32) else c)"

definition is_space :: "char \<Rightarrow> bool" where
  "is_space c = (let n = of_char c :: nat in n = 32 \<or> (9 \<le> n \<and> n \<le> 13) \<or> (28 \<le> n \<and> n \<le> 31))"

text \<open>\<^verbatim>\<open>"".join(s.upper().split())\<close>.\<close>

definition squeeze_upper :: "string \<Rightarrow> string" where
  "squeeze_upper s = filter (\<lambda>c. \<not> is_space c) (map upper_char s)"

definition strip :: "string \<Rightarrow> string" where
  "strip s = rev (dropWhile is_space (rev (dropWhile is_space s)))"

text \<open>A step that may raise, followed by another; a check that raises \<open>e\<close>.\<close>

definition and_then :: "'e + 'a \<Rightarrow> ('a \<Rightarrow> 'e + 'b) \<Rightarrow> 'e + 'b" where
  "and_then x f = (case x of Inl e \<Rightarrow> Inl e | Inr a \<Rightarrow> f a)"

definition check :: "'e \<Rightarrow> bool \<Rightarrow> 'e + unit" where
  "check e b = (if b then Inr () else Inl e)"

lemma and_then_Inr [simp]: "and_then x f = Inr b \<longleftrightarrow> (\<exists>a. x = Inr a \<and> f a = Inr b)"
  by (simp add: and_then_def split: sum.split)

lemma and_then_simps [simp]: "and_then (Inl e) f = Inl e" "and_then (Inr a) f = f a"
  by (simp_all add: and_then_def)

lemma check_Inr [simp]: "check e b = Inr u \<longleftrightarrow> b"
  by (simp add: check_def)

lemma and_then_Inl: "and_then x f = Inl e \<longleftrightarrow> x = Inl e \<or> (\<exists>a. x = Inr a \<and> f a = Inl e)"
  by (simp add: and_then_def split: sum.split)

lemma check_Inl [simp]: "check e b = Inl e' \<longleftrightarrow> \<not> b \<and> e' = e"
  by (auto simp: check_def)

datatype http_error = HTTPException int string

text \<open>
  A request handler: the answer, or the error it raised, and the state that was committed.
  A handler that raises before its commit leaves the state it was given.
\<close>

type_synonym ('s, 'a) handler = "'s \<Rightarrow> (http_error + 'a) \<times> 's"

end
