(* ===== verification/Schema.thy ===== *)
theory Schema
  imports Prelude
begin

text \<open>
  The tables of \<^verbatim>\<open>backend/app/models.py\<close>: one record per mapped class, one field per column, and
  the record \<open>db\<close> of all tables. A nullable column is an \<open>option\<close>; a JSON column is an optional
  dictionary. Rows keep their insertion order. Columns the database fills by itself and no modelled
  code reads (\<^verbatim>\<open>created_at\<close> and \<^verbatim>\<open>updated_at\<close> of several tables) are left out.

  The statuses of runs and accounts are datatypes with the strings of the code as constructors;
  the status of a car stays a string, because the code moves it between tables and reports.
\<close>

section \<open>Accounts and sessions\<close>

datatype role = USER | ADMIN

datatype user_status = ACTIVE | PENDING_APPROVAL | BLOCKED

record user =
  u_id :: int
  u_username :: string
  u_username_key :: string
  u_password_hash :: string
  u_role :: role
  u_status :: user_status
  u_project_limit :: "int option"
  u_must_change_password :: bool
  u_preferred_locale :: string
  u_last_login_at :: "time option"
  u_last_activity_at :: "time option"
  u_created_at :: time

record auth_session =
  as_id :: int
  as_user_id :: int
  as_token_hash :: string
  as_csrf_hash :: string
  as_expires_at :: time
  as_last_seen_at :: time
  as_revoked_at :: "time option"
  as_ip_hash :: "string option"
  as_user_agent_hash :: "string option"

record auth_attempt =
  aa_username_key :: string
  aa_ip_hash :: "string option"
  aa_success :: bool
  aa_created_at :: time

record audit_log =
  al_actor_user_id :: "int option"
  al_target_user_id :: "int option"
  al_action :: string
  al_entity_type :: "string option"
  al_entity_id :: "json"
  al_outcome :: string
  al_payload :: "dict option"

section \<open>Projects and cars\<close>

record project =
  p_id :: int
  p_owner_id :: int
  p_name :: string
  p_name_key :: string
  p_search_url :: string
  p_telegram_url :: "string option"
  p_scan_mode :: string
  p_search_page_mode :: string
  p_price_filter_mode :: string
  p_price_min_krw :: "int option"
  p_price_max_krw :: "int option"
  p_price_filter_revision :: int
  p_price_filter_baseline_revision :: int
  p_auto_update :: bool
  p_updated_at :: time

record car =
  c_id :: int
  c_canonical_encar_id :: string
  c_url :: string
  c_title :: "string option"
  c_details :: "dict option"
  c_current_price :: "int option"
  c_status :: string
  c_fingerprint :: "string option"
  c_integrity_status :: string
  c_excluded :: bool
  c_updated_at :: time

record project_car =
  pc_project_id :: int
  pc_car_id :: int
  pc_first_seen_at :: "time option"
  pc_last_seen_at :: "time option"
  pc_last_found_at :: "time option"
  pc_consecutive_missing_scans :: int
  pc_search_status :: string
  pc_is_new :: bool
  pc_favorite :: bool
  pc_viewed :: bool
  pc_viewed_at :: "time option"
  pc_tracking_enabled :: bool
  pc_last_observed_snapshot_id :: "int option"
  pc_last_observed_price :: "int option"
  pc_last_observed_fingerprint :: "string option"
  pc_last_observed_status :: "string option"
  pc_last_observed_at :: "time option"

record user_car_state =
  ucs_user_id :: int
  ucs_car_id :: int
  ucs_comment :: "string option"
  ucs_rating :: "int option"
  ucs_excluded :: bool
  ucs_comment_updated_at :: "time option"

record car_alias =
  ca_car_id :: int
  ca_alias_id :: string

text \<open>\<^verbatim>\<open>CarSnapshot\<close>, \<^verbatim>\<open>PriceHistory\<close> and \<^verbatim>\<open>CarImage\<close> share the abstract class \<^verbatim>\<open>CarRecord\<close>.\<close>

record car_record =
  cr_id :: int
  cr_car_id :: int
  cr_kind :: string
  cr_payload :: dict
  cr_integrity_status :: string
  cr_created_at :: time

record car_event = car_record +
  ce_user_id :: "int option"
  ce_project_id :: "int option"

section \<open>Scan runs and the scheduler\<close>

datatype run_status =
    QUEUED | RUNNING | CANCEL_REQUESTED
  | SUCCEEDED | PARTIAL | FAILED | CANCELLED | INTERRUPTED | INTERRUPTED_SLEEP

record scan_run =
  r_id :: int
  r_owner_id :: int
  r_kind :: string
  r_status :: run_status
  r_progress :: int
  r_payload :: "dict option"
  r_error :: "string option"
  r_worker_id :: "string option"
  r_attempt_count :: "int option"
  r_started_at :: "time option"
  r_heartbeat_at :: "time option"
  r_finished_at :: "time option"
  r_created_at :: time

record project_scan_run =
  psr_scan_run_id :: int
  psr_project_id :: int
  psr_status :: run_status
  psr_error_code :: "string option"

record scheduler_setting =
  s_id :: int
  s_user_id :: int
  s_enabled :: bool
  s_paused :: bool
  s_interval_minutes :: int
  s_performance_mode :: string
  s_next_run_at :: "time option"
  s_last_completed_run_at :: "time option"

record scheduled_project =
  sp_scheduler_id :: int
  sp_project_id :: int

section \<open>The database\<close>

record db =
  users :: "user list"
  auth_sessions :: "auth_session list"
  auth_attempts :: "auth_attempt list"
  audit_logs :: "audit_log list"
  projects :: "project list"
  cars :: "car list"
  project_cars :: "project_car list"
  user_car_states :: "user_car_state list"
  car_aliases :: "car_alias list"
  car_snapshots :: "car_record list"
  price_history :: "car_record list"
  car_events :: "car_event list"
  car_images :: "car_record list"
  scan_runs :: "scan_run list"
  project_scan_runs :: "project_scan_run list"
  scheduler_settings :: "scheduler_setting list"
  scheduled_projects :: "scheduled_project list"

definition empty_db :: db where
  "empty_db = \<lparr>users = [], auth_sessions = [], auth_attempts = [], audit_logs = [],
     projects = [], cars = [], project_cars = [], user_car_states = [], car_aliases = [],
     car_snapshots = [], price_history = [], car_events = [], car_images = [],
     scan_runs = [], project_scan_runs = [], scheduler_settings = [], scheduled_projects = []\<rparr>"

text \<open>\<^verbatim>\<open>db.get(User, id)\<close> and its kin.\<close>

definition get_user :: "db \<Rightarrow> int \<Rightarrow> user option" where
  "get_user d i = first_row (\<lambda>u. u_id u = i) (users d)"

definition get_run :: "db \<Rightarrow> int \<Rightarrow> scan_run option" where
  "get_run d i = first_row (\<lambda>r. r_id r = i) (scan_runs d)"

definition get_car :: "db \<Rightarrow> int \<Rightarrow> car option" where
  "get_car d i = first_row (\<lambda>c. c_id c = i) (cars d)"

definition get_project_car :: "db \<Rightarrow> int \<Rightarrow> int \<Rightarrow> project_car option" where
  "get_project_car d p c =
     first_row (\<lambda>l. pc_project_id l = p \<and> pc_car_id l = c) (project_cars d)"

definition payload_of :: "scan_run \<Rightarrow> dict" where
  "payload_of r = (case r_payload r of Some p \<Rightarrow> p | None \<Rightarrow> [])"

definition details_of :: "car \<Rightarrow> dict" where
  "details_of c = (case c_details c of Some p \<Rightarrow> p | None \<Rightarrow> [])"

text \<open>\<^verbatim>\<open>auth.audit\<close> and the defaults of a new event.\<close>

definition audit :: "audit_log \<Rightarrow> db \<Rightarrow> db" where
  "audit a d = d\<lparr>audit_logs := audit_logs d @ [a]\<rparr>"

definition audit_entry :: "string \<Rightarrow> audit_log" where
  "audit_entry action = \<lparr>al_actor_user_id = None, al_target_user_id = None, al_action = action,
     al_entity_type = None, al_entity_id = JNull, al_outcome = ''SUCCESS'', al_payload = None\<rparr>"

definition add_event ::
  "time \<Rightarrow> int \<Rightarrow> string \<Rightarrow> int option \<Rightarrow> int option \<Rightarrow> dict \<Rightarrow> db \<Rightarrow> db" where
  "add_event t c kind usr proj pay d = d\<lparr>car_events := car_events d @
     [\<lparr>cr_id = fresh_id (map cr_id (car_events d)), cr_car_id = c, cr_kind = kind,
       cr_payload = pay, cr_integrity_status = ''VALID'', cr_created_at = whole_second t,
       ce_user_id = usr, ce_project_id = proj\<rparr>]\<rparr>"

end
