(* ===== verification/Samples.thy ===== *)
theory Samples
  imports Schema
begin

text \<open>
  Small concrete rows. The witnesses of the other theories evaluate their properties on databases
  built from them, so that no property holds for want of a state that meets its conditions.
\<close>

definition sample_user :: "int \<Rightarrow> role \<Rightarrow> user_status \<Rightarrow> user" where
  "sample_user i rl st = \<lparr>u_id = i, u_username = ''name'', u_username_key = ''name'',
     u_password_hash = ''hash'', u_role = rl, u_status = st, u_project_limit = Some 1,
     u_must_change_password = False, u_preferred_locale = ''ru'', u_last_login_at = None,
     u_last_activity_at = None, u_created_at = 0\<rparr>"

definition sample_run :: "int \<Rightarrow> int \<Rightarrow> run_status \<Rightarrow> time \<Rightarrow> dict \<Rightarrow> scan_run" where
  "sample_run i owner st t p = \<lparr>r_id = i, r_owner_id = owner, r_kind = ''PROJECTS'', r_status = st,
     r_progress = 0, r_payload = Some p, r_error = None, r_worker_id = None,
     r_attempt_count = None, r_started_at = None, r_heartbeat_at = None, r_finished_at = None,
     r_created_at = t\<rparr>"

definition sample_project :: "int \<Rightarrow> int \<Rightarrow> project" where
  "sample_project i owner = \<lparr>p_id = i, p_owner_id = owner, p_name = ''project'',
     p_name_key = ''project'', p_search_url = ''url'', p_telegram_url = None,
     p_scan_mode = ''FAST'', p_search_page_mode = ''ALL_PAGES'',
     p_price_filter_mode = ''LINK'', p_price_min_krw = None, p_price_max_krw = None,
     p_price_filter_revision = 1, p_price_filter_baseline_revision = 0,
     p_auto_update = True, p_updated_at = 0\<rparr>"

definition sample_car :: "int \<Rightarrow> string \<Rightarrow> string \<Rightarrow> car" where
  "sample_car i encar st = \<lparr>c_id = i, c_canonical_encar_id = encar, c_url = ''url'',
     c_title = None, c_details = None, c_current_price = Some 100, c_status = st,
     c_fingerprint = None, c_integrity_status = ''VALID'', c_excluded = False,
     c_updated_at = 0\<rparr>"

definition sample_link :: "int \<Rightarrow> int \<Rightarrow> string \<Rightarrow> project_car" where
  "sample_link p c st = \<lparr>pc_project_id = p, pc_car_id = c, pc_first_seen_at = None,
     pc_last_seen_at = None, pc_last_found_at = None, pc_consecutive_missing_scans = 0,
     pc_search_status = st, pc_is_new = False, pc_favorite = False, pc_viewed = False,
     pc_viewed_at = None, pc_tracking_enabled = True, pc_last_observed_snapshot_id = None,
     pc_last_observed_price = None, pc_last_observed_fingerprint = None,
     pc_last_observed_status = None, pc_last_observed_at = None\<rparr>"

definition sample_setting :: "int \<Rightarrow> int \<Rightarrow> time option \<Rightarrow> scheduler_setting" where
  "sample_setting i usr nxt = \<lparr>s_id = i, s_user_id = usr, s_enabled = True, s_paused = False,
     s_interval_minutes = 180, s_performance_mode = ''FAST'', s_next_run_at = nxt,
     s_last_completed_run_at = None\<rparr>"

lemmas sample_defs = sample_user_def sample_run_def sample_project_def sample_car_def
  sample_link_def sample_setting_def

text \<open>One active account; run 1 waits, run 2 waits longer, or run 2 is running.\<close>

definition sample_queue :: "run_status \<Rightarrow> db" where
  "sample_queue st = empty_db\<lparr>users := [sample_user 7 USER ACTIVE],
     scan_runs := [sample_run 1 7 QUEUED 20 [(''project_ids'', JList [JInt 4, JInt 5])],
                   sample_run 2 7 st 10 [(''project_ids'', JList [JInt 4])]],
     project_scan_runs := [\<lparr>psr_scan_run_id = 2, psr_project_id = 4, psr_status = RUNNING,
                             psr_error_code = None\<rparr>]\<rparr>"

text \<open>One active account with one automatic project and a timer set to time 5.\<close>

definition sample_timer :: db where
  "sample_timer = empty_db\<lparr>users := [sample_user 7 USER ACTIVE],
     projects := [sample_project 4 7],
     scheduler_settings := [sample_setting 1 7 (Some 5)],
     scheduled_projects := [\<lparr>sp_scheduler_id = 1, sp_project_id = 4\<rparr>]\<rparr>"

end
