(* ===== verification/PyStd.thy ===== *)
theory PyStd
  imports Complex_Main Prelude "HOL-Library.Word" "HOL-Library.Char_ord" "HOL-Library.List_Lexorder"
begin

unbundle bit_operations_syntax

text \<open>
  The parts of Python's standard library the backend computes with: \<^verbatim>\<open>sorted\<close> on strings,
  \<^verbatim>\<open>json.dumps(..., ensure_ascii=False, sort_keys=True)\<close>, \<^verbatim>\<open>hashlib.sha256(...).hexdigest()\<close>,
  \<^verbatim>\<open>datetime.isoformat()\<close> of a UTC time, and \<^verbatim>\<open>round(a / b * 100, 2)\<close> on integers, computed with the
  53-bit floating point rounding of the language. All of them are executable.
\<close>

section \<open>Sorted keys\<close>

definition sorted_strings :: "string list \<Rightarrow> string list" where
  "sorted_strings xs = sort (fromkeys xs)"

lemma set_sorted_strings [simp]: "set (sorted_strings xs) = set xs"
  by (simp add: sorted_strings_def)

lemma distinct_sorted_strings [simp]: "distinct (sorted_strings xs)"
  by (simp add: sorted_strings_def)

lemma sorted_strings_cong: "set xs = set ys \<Longrightarrow> sorted_strings xs = sorted_strings ys"
  by (rule sorted_distinct_set_unique) (simp_all add: sorted_strings_def)

section \<open>ISO times\<close>

fun pad_left :: "nat \<Rightarrow> string \<Rightarrow> string" where
  "pad_left n s = replicate (n - length s) CHR ''0'' @ s"

definition show_pad :: "nat \<Rightarrow> int \<Rightarrow> string" where
  "show_pad n i = pad_left n (show_nat (nat i))"

text \<open>Year, month and day of a number of days since 1970-01-01 (proleptic Gregorian calendar).\<close>

definition civil_from_days :: "int \<Rightarrow> int \<times> int \<times> int" where
  "civil_from_days z0 =
     (let z = z0 + 719468;
          era = z div 146097;
          doe = z - era * 146097;
          yoe = (doe - doe div 1460 + doe div 36524 - doe div 146096) div 365;
          doy = doe - (365 * yoe + yoe div 4 - yoe div 100);
          mp = (5 * doy + 2) div 153;
          d = doy - (153 * mp + 2) div 5 + 1;
          m = (if mp < 10 then mp + 3 else mp - 9);
          y = yoe + era * 400 + (if m \<le> 2 then 1 else 0)
      in (y, m, d))"

definition isoformat :: "time \<Rightarrow> string" where
  "isoformat t =
     (let secs = t div 1000000; us = t mod 1000000;
          (y, m, d) = civil_from_days (secs div 86400);
          s = secs mod 86400
      in show_pad 4 y @ ''-'' @ show_pad 2 m @ ''-'' @ show_pad 2 d @ ''T'' @
         show_pad 2 (s div 3600) @ '':'' @ show_pad 2 (s div 60 mod 60) @ '':'' @ show_pad 2 (s mod 60) @
         (if us = 0 then [] else ''.'' @ show_pad 6 us) @ ''+00:00'')"

section \<open>\<open>json.dumps\<close>\<close>

definition hex_digit :: "nat \<Rightarrow> char" where
  "hex_digit n = ''0123456789abcdef'' ! (n mod 16)"

definition json_escape :: "char \<Rightarrow> string" where
  "json_escape c =
     (let n = of_char c :: nat
      in if n = 34 then [char_of (92 :: nat), char_of (34 :: nat)]
         else if n = 92 then [char_of (92 :: nat), char_of (92 :: nat)]
         else if n = 10 then [char_of (92 :: nat), CHR ''n'']
         else if n = 13 then [char_of (92 :: nat), CHR ''r'']
         else if n = 9 then [char_of (92 :: nat), CHR ''t'']
         else if n = 12 then [char_of (92 :: nat), CHR ''f'']
         else if n = 8 then [char_of (92 :: nat), CHR ''b'']
         else if n < 32 then char_of (92 :: nat) # ''u00'' @ [hex_digit (n div 16), hex_digit n]
         else [c])"

definition json_string :: "string \<Rightarrow> string" where
  "json_string s = char_of (34 :: nat) # concat (map json_escape s) @ [char_of (34 :: nat)]"

text \<open>A number with two decimals, as \<^verbatim>\<open>repr\<close> of the float prints it.\<close>

definition show_dec :: "int \<Rightarrow> string" where
  "show_dec i =
     (let a = \<bar>i\<bar>; f = a mod 100
      in (if i < 0 then ''-'' else []) @ show_nat (nat (a div 100)) @ ''.'' @
         (if f mod 10 = 0 then show_nat (nat (f div 10)) else show_pad 2 f))"

fun join :: "string \<Rightarrow> string list \<Rightarrow> string" where
  "join sep [] = []"
| "join sep [s] = s"
| "join sep (s # ss) = s @ sep @ join sep ss"

lemma json_size_list: "x \<in> set xs \<Longrightarrow> size x < Suc (size_list size xs)"
  by (simp add: less_Suc_eq_le size_list_estimation')

lemma json_size_obj:
  "(k, v) \<in> set d \<Longrightarrow> size v < Suc (size_list (size_prod (\<lambda>_. 0) size) d)"
  by (induction d) auto

function json_dumps :: "json \<Rightarrow> string" where
  "json_dumps JNull = ''null''"
| "json_dumps (JBool b) = (if b then ''true'' else ''false'')"
| "json_dumps (JInt i) = show_int i"
| "json_dumps (JDec i) = show_dec i"
| "json_dumps (JStr s) = json_string s"
| "json_dumps (JTime t) = json_string (isoformat t)"
| "json_dumps (JList xs) = ''['' @ join '', '' (map json_dumps xs) @ '']''"
| "json_dumps (JObj d) =
     ''{'' @ join '', '' (map (\<lambda>(k, v). json_string k @ '': '' @ json_dumps v) (sort_key fst d)) @ ''}''"
  by pat_completeness auto

termination
  by (relation "measure size") (auto simp: json_size_list dest: json_size_obj)

section \<open>SHA-256\<close>

text \<open>
  The constants of the algorithm: the first 32 bits of the fractional parts of the cube roots of the
  first 64 primes, and of the square roots of the first 8. \<open>root_bits e b n r\<close> searches the integer \<open>e\<close>-th
  root of \<open>n\<close> bit by bit, from bit \<open>b\<close> down.
\<close>

fun root_bits :: "nat \<Rightarrow> nat \<Rightarrow> int \<Rightarrow> int \<Rightarrow> int" where
  "root_bits e 0 n r = r"
| "root_bits e (Suc b) n r = root_bits e b n (if (r + 2 ^ b) ^ e \<le> n then r + 2 ^ b else r)"

definition first_primes :: "int list" where
  "first_primes = filter (\<lambda>n. \<forall>m \<in> set [2..18]. m < n \<longrightarrow> n mod m \<noteq> 0) [2..311]"

definition sha256_k :: "32 word list" where
  "sha256_k = map (\<lambda>p. word_of_int (root_bits 3 35 (p * 2 ^ 96) 0)) first_primes"

definition sha256_h0 :: "32 word list" where
  "sha256_h0 = map (\<lambda>p. word_of_int (root_bits 2 35 (p * 2 ^ 64) 0)) (take 8 first_primes)"

definition rotr :: "nat \<Rightarrow> 32 word \<Rightarrow> 32 word" where
  "rotr n w = (drop_bit n w) OR (push_bit (32 - n) w)"

fun sha256_round :: "32 word list \<Rightarrow> 32 word \<times> 32 word \<Rightarrow> 32 word list" where
  "sha256_round [a, b, c, d, e, f, g, h] (k, w) =
     (let s1 = rotr 6 e XOR rotr 11 e XOR rotr 25 e;
          ch = (e AND f) XOR ((NOT e) AND g);
          t1 = h + s1 + ch + k + w;
          s0 = rotr 2 a XOR rotr 13 a XOR rotr 22 a;
          maj = (a AND b) XOR (a AND c) XOR (b AND c)
      in [t1 + (s0 + maj), a, b, c, d + t1, e, f, g])"
| "sha256_round st _ = st"

text \<open>The message schedule; the newest word first.\<close>

fun sha256_schedule :: "nat \<Rightarrow> 32 word list \<Rightarrow> 32 word list" where
  "sha256_schedule 0 ws = rev ws"
| "sha256_schedule (Suc n) ws =
     (let w15 = ws ! 14; w2 = ws ! 1;
          s0 = rotr 7 w15 XOR rotr 18 w15 XOR drop_bit 3 w15;
          s1 = rotr 17 w2 XOR rotr 19 w2 XOR drop_bit 10 w2
      in sha256_schedule n ((ws ! 15 + s0 + ws ! 6 + s1) # ws))"

definition sha256_block :: "32 word list \<Rightarrow> 32 word list \<Rightarrow> 32 word list" where
  "sha256_block h block =
     map2 (+) h (foldl sha256_round h (zip sha256_k (sha256_schedule 48 (rev block))))"

fun be_words :: "nat list \<Rightarrow> 32 word list" where
  "be_words (a # b # c # d # bs) =
     word_of_nat (((a * 256 + b) * 256 + c) * 256 + d) # be_words bs"
| "be_words _ = []"

fun be_bytes :: "nat \<Rightarrow> nat \<Rightarrow> nat list" where
  "be_bytes 0 n = []"
| "be_bytes (Suc k) n = be_bytes k (n div 256) @ [n mod 256]"

definition sha256_pad :: "nat list \<Rightarrow> nat list" where
  "sha256_pad m =
     (let l = length m; z = (119 - l mod 64) mod 64
      in m @ 128 # replicate z 0 @ be_bytes 8 (8 * l))"

function sha256_blocks :: "32 word list \<Rightarrow> 32 word list \<Rightarrow> 32 word list" where
  "sha256_blocks h ws = (if ws = [] then h else sha256_blocks (sha256_block h (take 16 ws)) (drop 16 ws))"
  by pat_completeness auto
termination by (relation "measure (\<lambda>(_, ws). length ws)") (auto simp: neq_Nil_conv)

declare sha256_blocks.simps [simp del]

definition sha256_words :: "nat list \<Rightarrow> 32 word list" where
  "sha256_words m = sha256_blocks sha256_h0 (be_words (sha256_pad m))"

definition hex_word :: "32 word \<Rightarrow> string" where
  "hex_word w = map (\<lambda>i. hex_digit (unat (drop_bit (4 * (7 - i)) w))) [0..<8]"

text \<open>\<^verbatim>\<open>hashlib.sha256(s.encode()).hexdigest()\<close> of a string, that is, of its bytes.\<close>

definition sha256_hex :: "string \<Rightarrow> string" where
  "sha256_hex s = concat (map hex_word (sha256_words (map of_char s)))"

section \<open>Percentages\<close>

text \<open>The nearest integer to \<open>p / q\<close>, ties to even (\<open>q > 0\<close>).\<close>

definition round_half_even :: "int \<Rightarrow> int \<Rightarrow> int" where
  "round_half_even p q =
     (let n = p div q; r = 2 * (p mod q)
      in if r < q then n else if q < r then n + 1 else if even n then n else n + 1)"

function bit_length :: "int \<Rightarrow> nat" where
  "bit_length n = (if n \<le> 0 then 0 else Suc (bit_length (n div 2)))"
  by pat_completeness auto
termination by (relation "measure nat") auto

declare bit_length.simps [simp del]

definition scale2 :: "int \<Rightarrow> int \<times> int \<Rightarrow> int \<times> int" where
  "scale2 e x = (if 0 \<le> e then (fst x * 2 ^ nat e, snd x) else (fst x, snd x * 2 ^ nat (- e)))"

text \<open>The double closest to \<open>p / q\<close> (\<open>p \<ge> 0\<close>, \<open>q > 0\<close>, within the normal range), as a fraction.\<close>

definition fl :: "int \<times> int \<Rightarrow> int \<times> int" where
  "fl x =
     (if fst x = 0 then (0, 1)
      else let e0 = int (bit_length (fst x)) - int (bit_length (snd x)) - 53;
               y = scale2 (- e0) x;
               e = (if fst y < 2 ^ 53 * snd y then e0 else e0 + 1);
               z = scale2 (- e) x
           in scale2 e (round_half_even (fst z) (snd z), 1))"

text \<open>\<^verbatim>\<open>round(a / b * 100, 2)\<close> in hundredths, for \<open>a \<ge> 0\<close> and \<open>b > 0\<close>.\<close>

definition percent2 :: "int \<Rightarrow> int \<Rightarrow> int" where
  "percent2 a b =
     (let q = fl (a, b); r = fl (fst q * 100, snd q)
      in round_half_even (fst r * 100) (snd r))"

section \<open>How exact the percentage is\<close>

definition frac_of :: "int \<times> int \<Rightarrow> real" where
  "frac_of x = of_int (fst x) / of_int (snd x)"

lemma round_half_even_error:
  assumes "0 < q"
  shows "\<bar>of_int (round_half_even p q) - of_int p / (of_int q :: real)\<bar> \<le> 1 / 2"
proof -
  have p: "p = p div q * q + p mod q" by simp
  have m: "0 \<le> p mod q" "p mod q < q" using assms by simp_all
  have "(of_int p :: real) = of_int (p div q) * of_int q + of_int (p mod q)"
    by (metis p of_int_add of_int_mult)
  then have "of_int p / (of_int q :: real) = of_int (p div q) + of_int (p mod q) / of_int q"
    using assms by (simp add: add_divide_distrib)
  moreover have "of_int (p mod q) / (of_int q :: real) \<le> 1 / 2" if "2 * (p mod q) \<le> q"
    using that assms by (simp add: field_simps flip: of_int_mult)
  moreover have "of_int (p mod q) / (of_int q :: real) \<ge> 1 / 2" if "q \<le> 2 * (p mod q)"
    using that assms by (simp add: field_simps)
  moreover have "0 \<le> of_int (p mod q) / (of_int q :: real)" "of_int (p mod q) / (of_int q :: real) < 1"
    using m assms by simp_all
  ultimately show ?thesis
    unfolding round_half_even_def Let_def by (auto simp: abs_le_iff split: if_splits)
qed

lemma bit_length_bounds:
  "0 < n \<Longrightarrow> 2 ^ (bit_length n - 1) \<le> n \<and> n < 2 ^ bit_length n \<and> 0 < bit_length n"
proof (induction n rule: bit_length.induct)
  case (1 n)
  show ?case
  proof (cases "n div 2 = 0")
    case True
    then have "n = 1" using 1(2) by simp
    then show ?thesis by (simp add: bit_length.simps)
  next
    case False
    then have pos: "0 < n div 2" using 1(2) by linarith
    have IH: "2 ^ (bit_length (n div 2) - 1) \<le> n div 2" "n div 2 < 2 ^ bit_length (n div 2)"
      "0 < bit_length (n div 2)" using 1 pos by auto
    have bl: "bit_length n = Suc (bit_length (n div 2))" using 1(2) by (subst bit_length.simps) simp
    have "(2 :: int) ^ bit_length (n div 2) = 2 * 2 ^ (bit_length (n div 2) - 1)"
      using IH(3) by (metis Suc_diff_1 power_Suc)
    moreover have "2 * (n div 2) \<le> n" "n < 2 * (n div 2) + 2" by simp_all
    ultimately show ?thesis using IH bl by auto
  qed
qed

lemma frac_scale2:
  assumes "0 < snd x"
  shows "frac_of (scale2 e x) = frac_of x * 2 powi e" and "0 < snd (scale2 e x)"
  using assms by (auto simp: frac_of_def scale2_def power_int_def field_simps)

lemma fl_error:
  assumes "0 \<le> fst x" and "0 < snd x"
  shows "\<bar>frac_of (fl x) - frac_of x\<bar> \<le> frac_of x / 2 ^ 53" and "0 < snd (fl x)" and "0 \<le> frac_of (fl x)"
proof -
  have all: "\<bar>frac_of (fl x) - frac_of x\<bar> \<le> frac_of x / 2 ^ 53 \<and> 0 < snd (fl x)"
  proof (cases "fst x = 0")
    case True
    then show ?thesis by (simp add: fl_def frac_of_def)
  next
    case False
    let ?p = "fst x" and ?q = "snd x"
    define e0 where "e0 = int (bit_length ?p) - int (bit_length ?q) - 53"
    define e where "e = (if fst (scale2 (- e0) x) < 2 ^ 53 * snd (scale2 (- e0) x) then e0 else e0 + 1)"
    define z where "z = scale2 (- e) x"
    have p: "0 < ?p" using False assms(1) by simp
    note bp = bit_length_bounds [OF p] and bq = bit_length_bounds [OF assms(2)]
    have fx: "frac_of x > 0" using p assms(2) by (simp add: frac_of_def)
    have eq: "fl x = scale2 e (round_half_even (fst z) (snd z), 1)"
      using False by (simp add: fl_def Let_def e_def e0_def z_def)
    have zq: "0 < snd z" and fz: "frac_of z = frac_of x * 2 powi (- e)"
      using frac_scale2 [OF assms(2)] by (simp_all add: z_def)
    have lo: "2 ^ 52 < frac_of x * 2 powi (- e0)"
    proof -
      have "of_int ?q < (2 :: real) ^ bit_length ?q"
        using bq by (metis of_int_less_iff of_int_numeral of_int_power)
      moreover have "(2 :: real) ^ (bit_length ?p - 1) \<le> of_int ?p"
        using bp by (metis of_int_le_iff of_int_numeral of_int_power)
      ultimately have "(2 :: real) ^ (bit_length ?p - 1) / 2 ^ bit_length ?q < frac_of x"
        unfolding frac_of_def using assms(2) p by (intro frac_less2) simp_all
      moreover have "(2 :: real) ^ (bit_length ?p - 1) / 2 ^ bit_length ?q * 2 powi (- e0) = 2 ^ 52"
      proof -
        have "(2 :: real) ^ (bit_length ?p - 1) / 2 ^ bit_length ?q =
            2 powi int (bit_length ?p - 1) / 2 powi int (bit_length ?q)"
          by simp
        also have "\<dots> = 2 powi (int (bit_length ?p) - 1 - int (bit_length ?q))"
          using bp by (simp add: power_int_diff of_nat_diff)
        finally have "(2 :: real) ^ (bit_length ?p - 1) / 2 ^ bit_length ?q =
            2 powi (int (bit_length ?p) - 1 - int (bit_length ?q))" .
        then show ?thesis
          by (simp add: e0_def flip: power_int_add)
      qed
      ultimately show ?thesis
        using mult_strict_right_mono [of _ "frac_of x" "2 powi (- e0)"] by fastforce
    qed
    have y: "frac_of (scale2 (- e0) x) = frac_of x * 2 powi (- e0)" "0 < snd (scale2 (- e0) x)"
      using frac_scale2 [OF assms(2)] by simp_all
    have "2 ^ 52 \<le> frac_of z"
    proof (cases "e = e0")
      case True
      then show ?thesis using lo fz by simp
    next
      case False
      then have e: "e = e0 + 1" and "2 ^ 53 * snd (scale2 (- e0) x) \<le> fst (scale2 (- e0) x)"
        by (auto simp: e_def split: if_splits)
      then have "2 ^ 53 \<le> frac_of (scale2 (- e0) x)"
        using y(2) unfolding frac_of_def
        by (simp add: pos_le_divide_eq)
      moreover have "frac_of z = frac_of (scale2 (- e0) x) / 2"
        unfolding fz y(1) e by (simp add: power_int_diff power_int_minus field_simps power_int_add)
      ultimately show ?thesis by simp
    qed
    then have err: "\<bar>of_int (round_half_even (fst z) (snd z)) - frac_of z\<bar> \<le> frac_of z / 2 ^ 53"
      using round_half_even_error [OF zq, of "fst z"] by (simp add: frac_of_def)
    have "frac_of (fl x) = of_int (round_half_even (fst z) (snd z)) * 2 powi e"
      unfolding eq using frac_scale2(1) [of "(round_half_even (fst z) (snd z), 1)" e]
      by (simp add: frac_of_def)
    moreover have "frac_of x = frac_of z * 2 powi e"
      unfolding fz by (simp add: power_int_minus)
    ultimately have "\<bar>frac_of (fl x) - frac_of x\<bar> =
        \<bar>of_int (round_half_even (fst z) (snd z)) - frac_of z\<bar> * 2 powi e"
      by (simp add: abs_mult flip: left_diff_distrib)
    also have "\<dots> \<le> frac_of z / 2 ^ 53 * 2 powi e"
      by (rule mult_right_mono [OF err]) simp
    also have "\<dots> = frac_of x / 2 ^ 53"
      unfolding \<open>frac_of x = frac_of z * 2 powi e\<close> by simp
    finally show ?thesis
      unfolding eq using frac_scale2(2) [of "(round_half_even (fst z) (snd z), 1)" e] by simp
  qed
  then show "\<bar>frac_of (fl x) - frac_of x\<bar> \<le> frac_of x / 2 ^ 53" and "0 < snd (fl x)" by auto
  have "0 \<le> frac_of x" using assms by (simp add: frac_of_def)
  then have "frac_of x / 2 ^ 53 \<le> frac_of x" by (simp add: field_simps)
  with all show "0 \<le> frac_of (fl x)" by linarith
qed

lemma two_roundings:
  fixes x q r :: real
  assumes "0 \<le> x" and "\<bar>q - x\<bar> \<le> x / 2 ^ 53" and "\<bar>r - 100 * q\<bar> \<le> 100 * q / 2 ^ 53"
  shows "\<bar>100 * r - 10000 * x\<bar> \<le> 10000 * x / 2 ^ 51"
proof -
  have "q - x \<le> x / 9007199254740992" "x - q \<le> x / 9007199254740992"
    "r - 100 * q \<le> 100 * q / 9007199254740992" "100 * q - r \<le> 100 * q / 9007199254740992"
    using assms(2,3) unfolding abs_le_iff by auto
  then have "100 * r - 10000 * x \<le> 10000 * x / 2251799813685248"
    "10000 * x - 100 * r \<le> 10000 * x / 2251799813685248"
    using assms(1) by linarith+
  then have "\<bar>100 * r - 10000 * x\<bar> \<le> 10000 * x / 2251799813685248" by linarith
  then show ?thesis by simp
qed

lemma percent2_error:
  assumes "0 \<le> a" and "0 < b"
  shows "\<bar>of_int (percent2 a b) - 10000 * (of_int a / of_int b)\<bar> \<le>
    1 / 2 + 10000 * (of_int a / of_int b) / (2 :: real) ^ 51"
proof -
  let ?x = "of_int a / (of_int b :: real)"
  let ?q = "fl (a, b)"
  let ?y = "(fst ?q * 100, snd ?q)"
  let ?r = "fl ?y"
  have x: "frac_of (a, b) = ?x" by (simp add: frac_of_def)
  have x0: "0 \<le> ?x" using assms by simp
  have q: "\<bar>frac_of ?q - ?x\<bar> \<le> ?x / 2 ^ 53" "0 < snd ?q" "0 \<le> frac_of ?q"
    using fl_error [of "(a, b)"] assms x by auto
  then have "0 \<le> fst ?q" by (simp add: frac_of_def zero_le_divide_iff)
  then have y: "0 \<le> fst ?y" "0 < snd ?y" using q(2) by simp_all
  have fy: "frac_of ?y = 100 * frac_of ?q" by (simp add: frac_of_def)
  have r: "\<bar>frac_of ?r - 100 * frac_of ?q\<bar> \<le> 100 * frac_of ?q / 2 ^ 53" "0 < snd ?r"
    using fl_error [OF y] fy by auto
  have "percent2 a b = round_half_even (fst ?r * 100) (snd ?r)"
    by (simp add: percent2_def Let_def)
  then have n: "\<bar>of_int (percent2 a b) - 100 * frac_of ?r\<bar> \<le> 1 / 2"
    using round_half_even_error [OF r(2), of "fst ?r * 100"] by (simp add: frac_of_def mult.commute)
  have "\<bar>100 * frac_of ?r - 10000 * ?x\<bar> \<le> 10000 * ?x / 2 ^ 51"
    by (rule two_roundings [OF x0 q(1) r(1)])
  then show ?thesis using n by (simp only: abs_le_iff) linarith
qed

end
