(* ===== verification/ListingDiff.thy ===== *)
theory ListingDiff
  imports PyStd
begin

text \<open>
  How two readings of one listing are compared, the last part of \<^verbatim>\<open>backend/app/parser.py\<close>: the material
  changes between two detail dictionaries, the signatures of a vehicle's condition and accidents,
  the fingerprint of a listing, the price change, and the decisions what to read and what a search
  miss means. A detail dictionary is a \<open>dict\<close>; \<^verbatim>\<open>d.get(key)\<close> is \<open>dget\<close>.
\<close>

section \<open>Material changes\<close>

definition TRACKED_DETAIL_FIELDS :: "string list" where
  "TRACKED_DETAIL_FIELDS = [''title'', ''trim'', ''year_month'', ''mileage_km'', ''fuel'',
     ''fuel_name_ko'', ''drivetrain'', ''transmission'', ''engine_displacement_cc'', ''seat_count'',
     ''body_type'', ''exterior_color'', ''interior_color'', ''option_codes'', ''registration_number'',
     ''condition_summary'', ''new_car_price_percent'', ''under_contract'', ''offer_type'',
     ''rental_monthly_payment_krw'', ''rental_term_months'', ''rental_acquisition_price_krw'',
     ''vehicle_price_krw'', ''lease_monthly_payment_krw'', ''lease_term_months'']"

definition NEW_SPEC_FIELDS :: "string list" where
  "NEW_SPEC_FIELDS = [''fuel_name_ko'', ''seat_count'', ''option_codes'', ''body_type'',
     ''engine_displacement_cc'', ''exterior_color'']"

text \<open>\<^verbatim>\<open>d.get("offer_type") or "SALE"\<close>, also used by the services and the worker.\<close>

definition offer_type :: "dict \<Rightarrow> json" where
  "offer_type d = py_or (dget d ''offer_type'') (JStr ''SALE'')"

definition get_obj :: "dict \<Rightarrow> string \<Rightarrow> dict" where
  "get_obj d k = jobj (py_or (dget d k) (JObj []))"

definition condition_value :: "json \<Rightarrow> json" where
  "condition_value v =
     (case v of
        JObj d \<Rightarrow> JObj (List.map_filter
          (\<lambda>k. if has_key d k then Some (k, dget d k) else None) [''status'', ''value''])
      | _ \<Rightarrow> v)"

definition field_change :: "string \<Rightarrow> json \<Rightarrow> json \<Rightarrow> json" where
  "field_change field old new = JObj [(''field'', JStr field), (''old'', old), (''new'', new)]"

definition tracked_changes :: "dict \<Rightarrow> dict \<Rightarrow> json list" where
  "tracked_changes old new =
     map (\<lambda>k. field_change k (dget old k) (dget new k))
       (filter (\<lambda>k. \<not> py_eq (dget old k) (dget new k) \<and>
            \<not> (k \<in> set NEW_SPEC_FIELDS \<and> dget old k = JNull))
          TRACKED_DETAIL_FIELDS)"

definition both_keys :: "dict \<Rightarrow> dict \<Rightarrow> string list" where
  "both_keys a b = sorted_strings (map fst a @ map fst b)"

definition changed_keys :: "(json \<Rightarrow> json) \<Rightarrow> dict \<Rightarrow> dict \<Rightarrow> string list" where
  "changed_keys view a b =
     filter (\<lambda>k. \<not> py_eq (view (dget a k)) (view (dget b k))) (both_keys a b)"

definition group_change :: "string \<Rightarrow> string list \<Rightarrow> json list" where
  "group_change field keys =
     (if keys = [] then []
      else [field_change field JNull (JList (map JStr (take 12 keys)))])"

definition material_changes :: "dict \<Rightarrow> dict \<Rightarrow> json list" where
  "material_changes old0 new0 =
     (let old = dset old0 ''offer_type'' (offer_type old0);
          new = dset new0 ''offer_type'' (offer_type new0)
      in take 12
        (tracked_changes old new
         @ group_change ''options'' (changed_keys (\<lambda>v. v) (get_obj old ''options'') (get_obj new ''options''))
         @ group_change ''condition''
             (changed_keys condition_value (get_obj old ''condition'') (get_obj new ''condition''))))"

section \<open>Signatures and fingerprint\<close>

definition condition_signature :: "dict \<Rightarrow> dict" where
  "condition_signature condition = map (\<lambda>(k, v). (k, condition_value v)) condition"

definition accident_signature :: "json \<Rightarrow> dict" where
  "accident_signature accident =
     (let v = jobj (py_or accident (JObj []))
      in [(''status'', dget v ''status''), (''summary'', dget v ''summary''),
          (''condition'', JObj (condition_signature (get_obj v ''condition'')))])"

definition FINGERPRINT_KEYS :: "string list" where
  "FINGERPRINT_KEYS = [''canonical_car_id'', ''title'', ''year_month'', ''mileage_km'', ''price_krw'',
     ''fuel'', ''fuel_name_ko'', ''drivetrain'', ''transmission'', ''engine_displacement_cc'',
     ''seat_count'', ''body_type'', ''exterior_color'', ''options'', ''option_codes'', ''condition'',
     ''offer_type'', ''rental_monthly_payment_krw'', ''rental_term_months'',
     ''rental_acquisition_price_krw'', ''vehicle_price_krw'', ''lease_monthly_payment_krw'',
     ''lease_term_months'']"

definition comparable :: "dict \<Rightarrow> dict" where
  "comparable item =
     dset (dset (map (\<lambda>k. (k, dget item k)) FINGERPRINT_KEYS) ''offer_type'' (offer_type item))
       ''condition'' (JObj (condition_signature (get_obj item ''condition'')))"

definition fingerprint_listing :: "dict \<Rightarrow> string" where
  "fingerprint_listing item = sha256_hex (json_dumps (JObj (comparable item)))"

section \<open>Prices, reads and search misses\<close>

record price_delta =
  pch_type :: string
  pch_old :: int
  pch_new :: int
  pch_difference :: int
  pch_percent :: int

text \<open>Prices are positive or absent; \<open>pch_percent\<close> is in hundredths of a percent.\<close>

definition price_change :: "int option \<Rightarrow> int option \<Rightarrow> price_delta option" where
  "price_change old new =
     (case (old, new) of
        (Some o', Some n) \<Rightarrow>
          if o' = 0 \<or> n = 0 \<or> o' = n then None
          else Some \<lparr>pch_type = (if n < o' then ''PRICE_DROP'' else ''PRICE_INCREASE''),
                     pch_old = o', pch_new = n, pch_difference = \<bar>n - o'\<bar>,
                     pch_percent = percent2 \<bar>n - o'\<bar> o'\<rparr>
      | _ \<Rightarrow> None)"

definition price_change_json :: "price_delta \<Rightarrow> dict" where
  "price_change_json c = [(''type'', JStr (pch_type c)), (''old'', JInt (pch_old c)),
     (''new'', JInt (pch_new c)), (''difference'', JInt (pch_difference c)),
     (''percent'', JDec (pch_percent c))]"

definition should_read_detail :: "string \<Rightarrow> bool \<Rightarrow> bool \<Rightarrow> bool \<Rightarrow> bool \<Rightarrow> bool" where
  "should_read_detail mode is_new list_changed incomplete manual \<longleftrightarrow>
     mode = ''ACCURATE'' \<or> is_new \<or> list_changed \<or> incomplete \<or> manual"

datatype read_kind = FULL | PRICE_STATUS

definition detail_read_kind ::
  "string \<Rightarrow> bool \<Rightarrow> bool \<Rightarrow> bool \<Rightarrow> bool \<Rightarrow> bool \<Rightarrow> read_kind option" where
  "detail_read_kind mode is_new price_changed price_missing missing manual =
     (if mode = ''ACCURATE'' \<or> is_new \<or> manual then Some FULL
      else if price_changed \<or> price_missing \<or> missing then Some PRICE_STATUS
      else None)"

definition apply_missing :: "bool \<Rightarrow> bool \<Rightarrow> int \<Rightarrow> string \<Rightarrow> int \<times> string" where
  "apply_missing success found count status =
     (if \<not> success then (count, status)
      else if found then
        (0, if status = ''NOT_FOUND_IN_SEARCH'' then ''RELISTED'' else ''FOUND'')
      else (count + 1, ''NOT_FOUND_IN_SEARCH''))"

text \<open>Text helpers of the parser that need no pattern matching.\<close>

definition condition_entry :: "string \<Rightarrow> string list \<Rightarrow> json option \<Rightarrow> json" where
  "condition_entry status evidence value =
     JObj ([(''status'', JStr status), (''original_evidence'', JList (map JStr evidence))] @
        (case value of None \<Rightarrow> [] | Some v \<Rightarrow> [(''value'', v)]))"

section \<open>What counts as a change\<close>

text \<open>C21: a price change is reported exactly when both prices are known, not zero and different. A
  reported change names these two prices, its direction and its exact difference; its percentage, in
  hundredths of a percent, is within half a hundredth of the exact one, up to the relative error
  (one part in 2 to the 51) of the floating point operations.\<close>

theorem price_change_correct:
  assumes "\<forall>q \<in> set_option old \<union> set_option new. 0 \<le> q"
  shows "(price_change old new = None \<longleftrightarrow>
      old = None \<or> new = None \<or> old = Some 0 \<or> new = Some 0 \<or> old = new) \<and>
    (\<forall>c. price_change old new = Some c \<longrightarrow>
      old = Some (pch_old c) \<and> new = Some (pch_new c) \<and>
      pch_type c = (if pch_new c < pch_old c then ''PRICE_DROP'' else ''PRICE_INCREASE'') \<and>
      pch_difference c = \<bar>pch_new c - pch_old c\<bar> \<and>
      \<bar>of_int (pch_percent c) - 10000 * (of_int (pch_difference c) / of_int (pch_old c))\<bar> \<le>
        1 / 2 + 10000 * (of_int (pch_difference c) / of_int (pch_old c)) / (2 :: real) ^ 51)"
proof (cases "old = None \<or> new = None \<or> old = Some 0 \<or> new = Some 0 \<or> old = new")
  case True
  then show ?thesis by (auto simp: price_change_def split: option.split)
next
  case False
  then obtain o' n where on [simp]: "old = Some o'" "new = Some n" by auto
  then have "0 < o'" "0 < n" "o' \<noteq> n" using assms False by auto
  with percent2_error [of "\<bar>n - o'\<bar>" o'] show ?thesis
    by (auto simp: price_change_def)
qed

lemma tracked_changes_Nil:
  "tracked_changes a b = [] \<longleftrightarrow> (\<forall>k \<in> set TRACKED_DETAIL_FIELDS.
     py_eq (dget a k) (dget b k) \<or> (k \<in> set NEW_SPEC_FIELDS \<and> dget a k = JNull))"
  by (auto simp: tracked_changes_def filter_empty_conv)

lemma group_change_Nil [simp]: "group_change f ks = [] \<longleftrightarrow> ks = []"
  by (simp add: group_change_def)

lemma wf_dget: "wf_json (JObj d) \<Longrightarrow> wf_json (dget d k)"
  by (auto simp: dget_def split: option.splits dest!: map_of_SomeD)

lemma wf_condition_value: "wf_json v \<Longrightarrow> wf_json (condition_value v)"
  by (cases v) (auto simp: condition_value_def List.map_filter_simps wf_dget)

lemma wf_get_obj: "wf_json (JObj d) \<Longrightarrow> wf_json (JObj (get_obj d k))"
  using wf_dget [of d k] by (cases "dget d k") (auto simp: get_obj_def py_or_def)

lemma changed_keys_refl:
  assumes "wf_json (JObj d)" and "\<And>v. wf_json v \<Longrightarrow> wf_json (view v)"
  shows "changed_keys view d d = []"
  using assms by (simp add: changed_keys_def filter_empty_conv wf_dget)

lemma wf_offer_type: "wf_json (JObj d) \<Longrightarrow> wf_json (offer_type d)"
  using wf_dget [of d "''offer_type''"] by (simp add: offer_type_def py_or_def)

lemma fst_dset: "fst ` set (dset d k v) = insert k (fst ` set d)"
  by (induction d k v rule: dset.induct) auto

lemma wf_dset: "wf_json (JObj d) \<Longrightarrow> wf_json v \<Longrightarrow> wf_json (JObj (dset d k v))"
  by (induction d k v rule: dset.induct) (auto simp: fst_dset)

lemma material_changes_Nil:
  "material_changes old new = [] \<longleftrightarrow>
     (let a = dset old ''offer_type'' (offer_type old); b = dset new ''offer_type'' (offer_type new)
      in tracked_changes a b = [] \<and>
         changed_keys (\<lambda>v. v) (get_obj a ''options'') (get_obj b ''options'') = [] \<and>
         changed_keys condition_value (get_obj a ''condition'') (get_obj b ''condition'') = [])"
  by (simp add: material_changes_def Let_def del: take_append)

lemma get_obj_dset: "get_obj (dset d k v) k' = (if k' = k then jobj (py_or v (JObj [])) else get_obj d k')"
  by (simp add: get_obj_def)

text \<open>The fields of a page reading (\<^verbatim>\<open>scanner.py\<close>, \<open>read_detail\<close>, and the run id the worker adds) that
  say how and when the page was read.\<close>

definition VOLATILE_FIELDS :: "string list" where
  "VOLATILE_FIELDS = [''checked_at'', ''scan_run_id'', ''source'', ''source_url'', ''price_source'',
     ''raw_korean_lines'', ''raw_text_excerpt'', ''loaded_sections'', ''parse_quality'',
     ''screenshot_path'', ''screenshot_checksum'', ''main_image_path'', ''main_image_checksum'',
     ''main_image_source_url'', ''fingerprint'']"

lemma volatile_not:
  assumes "k \<in> set VOLATILE_FIELDS"
  shows "k \<noteq> ''offer_type''" "k \<noteq> ''options''" "k \<noteq> ''condition''"
    "k \<notin> set TRACKED_DETAIL_FIELDS" "k \<notin> set FINGERPRINT_KEYS"
  using assms by (auto simp: VOLATILE_FIELDS_def TRACKED_DETAIL_FIELDS_def FINGERPRINT_KEYS_def)

text \<open>Conditions with one signature have the same changed entries.\<close>

lemma map_of_signature:
  "map_of (condition_signature c) k = map_option condition_value (map_of c k)"
  by (induction c) (auto simp: condition_signature_def)

lemma condition_value_dget:
  assumes "condition_signature c = condition_signature c'"
  shows "condition_value (dget c k) = condition_value (dget c' k)"
proof -
  have view: "condition_value (dget x k) =
      (case map_of (condition_signature x) k of None \<Rightarrow> condition_value JNull | Some v \<Rightarrow> v)" for x
    unfolding map_of_signature by (cases "map_of x k") (simp_all add: dget_def)
  show ?thesis unfolding view assms ..
qed

lemma changed_condition_Nil:
  assumes "condition_signature c = condition_signature c'" and "wf_json (JObj c)"
  shows "changed_keys condition_value c c' = []"
  using condition_value_dget [OF assms(1)] wf_condition_value [OF wf_dget [OF assms(2)]]
  by (simp add: changed_keys_def filter_empty_conv)

lemma comparable_dset_volatile:
  assumes "k \<in> set VOLATILE_FIELDS"
  shows "comparable (dset d k v) = comparable d"
proof -
  have "map (\<lambda>f. (f, dget (dset d k v) f)) FINGERPRINT_KEYS = map (\<lambda>f. (f, dget d f)) FINGERPRINT_KEYS"
    using volatile_not [OF assms] by (intro map_cong) auto
  moreover have "offer_type (dset d k v) = offer_type d"
    "get_obj (dset d k v) ''condition'' = get_obj d ''condition''"
    using volatile_not [OF assms] by (auto simp: offer_type_def get_obj_dset)
  ultimately show ?thesis by (simp only: comparable_def)
qed

lemma comparable_quotes:
  assumes "condition_signature c1 = condition_signature c2"
  shows "comparable (dset d ''condition'' (JObj c1)) = comparable (dset d ''condition'' (JObj c2))"
proof -
  have "map (\<lambda>f. (f, dget (dset d ''condition'' (JObj c1)) f)) FINGERPRINT_KEYS = xs1 \<Longrightarrow>
      map (\<lambda>f. (f, dget (dset d ''condition'' (JObj c2)) f)) FINGERPRINT_KEYS = xs2 \<Longrightarrow>
      dset (dset xs1 ''offer_type'' u) ''condition'' w = dset (dset xs2 ''offer_type'' u) ''condition'' w" for xs1 xs2 u w
    by (auto simp: FINGERPRINT_KEYS_def)
  moreover have "py_or (JObj c) (JObj []) = JObj c" for c by (simp add: py_or_def)
  ultimately show ?thesis
    using assms by (simp add: comparable_def get_obj_dset offer_type_def)
qed

lemma no_changes_volatile:
  assumes "wf_json (JObj d)" and "k \<in> set VOLATILE_FIELDS"
  shows "material_changes d (dset d k v) = []"
proof -
  note k = volatile_not [OF assms(2)]
  have offer: "offer_type (dset d k v) = offer_type d" using k by (simp add: offer_type_def)
  have "tracked_changes (dset d ''offer_type'' (offer_type d)) (dset (dset d k v) ''offer_type'' (offer_type d)) = []"
    unfolding tracked_changes_Nil using assms(1) k by (auto simp: wf_dget wf_offer_type)
  then show ?thesis
    unfolding material_changes_Nil Let_def offer using k
    by (simp add: get_obj_dset changed_keys_refl [OF wf_get_obj [OF assms(1)]] wf_condition_value)
qed

lemma no_changes_quotes:
  assumes "wf_json (JObj d)" and "wf_json (JObj c1)" and "condition_signature c1 = condition_signature c2"
  shows "material_changes (dset d ''condition'' (JObj c1)) (dset d ''condition'' (JObj c2)) = []"
proof -
  let ?a = "dset d ''condition'' (JObj c1)" and ?b = "dset d ''condition'' (JObj c2)"
  have offer: "offer_type ?a = offer_type d" "offer_type ?b = offer_type d" by (simp_all add: offer_type_def)
  have untracked: "''condition'' \<notin> set TRACKED_DETAIL_FIELDS" by (simp add: TRACKED_DETAIL_FIELDS_def)
  have "tracked_changes (dset ?a ''offer_type'' (offer_type d)) (dset ?b ''offer_type'' (offer_type d)) = []"
    unfolding tracked_changes_Nil using assms(1) untracked by (auto simp: wf_dget wf_offer_type)
  moreover have "py_or (JObj c) (JObj []) = JObj c" for c by (simp add: py_or_def)
  ultimately show ?thesis
    unfolding material_changes_Nil Let_def offer
    by (simp add: get_obj_dset changed_keys_refl [OF wf_get_obj [OF assms(1)]] changed_condition_Nil [OF assms(3,2)])
qed


section \<open>Witnesses\<close>

lemma price_change_correct_witness:
  "price_change None (Some 2900) = None \<and>
   (\<exists>c. price_change (Some 3000) (Some 2900) = Some c \<and> pch_type c = ''PRICE_DROP'' \<and> pch_difference c = 100)"
proof
  show "price_change None (Some 2900) = None"
    using price_change_correct [of None "Some 2900"] by simp
  have ok: "\<forall>q \<in> set_option (Some 3000) \<union> set_option (Some 2900). 0 \<le> (q :: int)" by simp
  note drop = price_change_correct [OF ok]
  obtain c where c: "price_change (Some 3000) (Some 2900) = Some c"
    using conjunct1 [OF drop] by (cases "price_change (Some 3000) (Some 2900)") simp_all
  have old: "pch_old c = 3000" and new: "pch_new c = 2900"
    using mp [OF spec [OF conjunct2 [OF drop]] c] by simp_all
  have "pch_type c = ''PRICE_DROP''" "pch_difference c = 100"
    using mp [OF spec [OF conjunct2 [OF drop]] c] unfolding old new by simp_all
  with c show "\<exists>c. price_change (Some 3000) (Some 2900) = Some c \<and> pch_type c = ''PRICE_DROP'' \<and> pch_difference c = 100"
    by blast
qed

definition quoted_condition :: "string \<Rightarrow> dict" where
  "quoted_condition text = [(''accident'', condition_entry ''CONFIRMED'' [text] None)]"


end
