(* ===== verification/StoragePaths.thy ===== *)
theory StoragePaths
  imports Prelude
begin

text \<open>
  \<^verbatim>\<open>backend/app/storage_paths.py\<close>: the storage-relative form in which the database keeps the path of a
  screenshot or image, and the way back. What needs the file system, \<^verbatim>\<open>path.resolve()\<close> relative to
  the storage root of an absolute path (or one that starts at a home directory), is the parameter
  \<open>below\<close>; it returns \<open>None\<close> for a path outside the root. Paths are those of a POSIX system; a joined
  path that would be rooted is refused.
\<close>

fun split_on :: "char \<Rightarrow> string \<Rightarrow> string list" where
  "split_on c [] = [[]]"
| "split_on c (x # s) =
     (if x = c then [] # split_on c s
      else case split_on c s of [] \<Rightarrow> [[x]] | w # ws \<Rightarrow> (x # w) # ws)"

fun join_with :: "string \<Rightarrow> string list \<Rightarrow> string" where
  "join_with sep [] = []"
| "join_with sep [s] = s"
| "join_with sep (s # ss) = s @ sep @ join_with sep ss"

definition starts_with :: "string \<Rightarrow> string \<Rightarrow> bool" where
  "starts_with p s \<longleftrightarrow> take (length p) s = p"

text \<open>The components of a \<^verbatim>\<open>PurePosixPath\<close> below its root.\<close>

definition path_parts :: "string \<Rightarrow> string list" where
  "path_parts s = filter (\<lambda>p. p \<noteq> [] \<and> p \<noteq> ''.'') (split_on (CHR ''/'') s)"

definition path_root :: "string \<Rightarrow> string" where
  "path_root s =
     (if starts_with ''//'' s \<and> \<not> starts_with ''///'' s then ''//''
      else if starts_with ''/'' s then ''/'' else [])"

definition as_posix :: "string \<Rightarrow> string" where
  "as_posix s =
     (let p = path_root s @ join_with ''/'' (path_parts s) in if p = [] then ''.'' else p)"

text \<open>\<^verbatim>\<open>str(value).strip().replace("\\", "/")\<close>.\<close>

definition posix_text :: "string \<Rightarrow> string" where
  "posix_text v = map (\<lambda>c. if c = char_of (92 :: nat) then CHR ''/'' else c) (strip v)"

definition portable_storage_path :: "(string \<Rightarrow> string option) \<Rightarrow> string option \<Rightarrow> string option" where
  "portable_storage_path below value =
     (case value of None \<Rightarrow> None
      | Some v \<Rightarrow>
          if strip v = [] then None
          else
            let raw = posix_text v
            in if starts_with ''/storage/'' raw then Some (as_posix (drop 9 raw))
               else if starts_with ''/'' v \<or> starts_with ''~'' v then below v
               else
                 let relative = dropWhile (\<lambda>c. c = CHR ''/'') raw
                 in if ''..'' \<in> set (path_parts relative) then None
                    else Some (as_posix relative))"

text \<open>The path below the root that \<open>resolve_storage_path\<close> builds, as the list of its components.\<close>

definition resolve_storage_path :: "(string \<Rightarrow> string option) \<Rightarrow> string option \<Rightarrow> string list option" where
  "resolve_storage_path below value =
     (case portable_storage_path below value of None \<Rightarrow> None
      | Some p \<Rightarrow> if path_root p \<noteq> [] then None else Some (path_parts p))"

section \<open>Round trip\<close>

lemma split_on_nonempty [simp]: "split_on c s \<noteq> []"
  by (induction s) (auto split: list.splits)

lemma split_on_no_sep: "\<forall>p \<in> set (split_on c s). c \<notin> set p"
proof (induction s)
  case (Cons a s)
  then show ?case by (cases "split_on c s") auto
qed simp

lemma split_on_append:
  "c \<notin> set p \<Longrightarrow> split_on c (p @ c # s) = p # split_on c s"
  by (induction p) auto

lemma split_on_none: "c \<notin> set p \<Longrightarrow> split_on c p = [p]"
  by (induction p) auto

lemma split_join:
  "ps \<noteq> [] \<Longrightarrow> \<forall>p \<in> set ps. c \<notin> set p \<Longrightarrow> split_on c (join_with [c] ps) = ps"
  by (induction "[c]" ps rule: join_with.induct) (auto simp: split_on_append split_on_none)

definition good_parts :: "string list \<Rightarrow> bool" where
  "good_parts ps \<longleftrightarrow> (\<forall>p \<in> set ps. p \<noteq> [] \<and> p \<noteq> ''.'' \<and> CHR ''/'' \<notin> set p)"

lemma good_path_parts: "good_parts (path_parts s)"
  by (use split_on_no_sep in \<open>auto simp: good_parts_def path_parts_def\<close>)

lemma path_parts_join: "good_parts ps \<Longrightarrow> path_parts (join_with ''/'' ps) = ps"
  by (cases "ps = []") (auto simp: path_parts_def good_parts_def split_join path_parts_def filter_id_conv)

lemma path_root_join: "good_parts ps \<Longrightarrow> path_root (join_with ''/'' ps) = []"
proof (cases ps)
  case (Cons p ps')
  assume "good_parts ps"
  with Cons obtain x p' where "p = x # p'" "x \<noteq> CHR ''/''" "hd (join_with ''/'' ps) = x"
    by (cases p; cases ps') (auto simp: good_parts_def)
  then show ?thesis
    using Cons by (cases ps'; cases p) (auto simp: path_root_def starts_with_def)
qed (simp add: path_root_def starts_with_def)

lemma as_posix_relative:
  assumes "path_root s = []" and "path_parts s \<noteq> []"
  shows "path_root (as_posix s) = []" "path_parts (as_posix s) = path_parts s"
proof -
  have "join_with ''/'' (path_parts s) \<noteq> []"
    using path_parts_join [OF good_path_parts [of s]] assms(2) by (auto simp: path_parts_def)
  then have "as_posix s = join_with ''/'' (path_parts s)"
    using assms(1) by (simp add: as_posix_def Let_def)
  then show "path_root (as_posix s) = []" "path_parts (as_posix s) = path_parts s"
    by (simp_all add: path_root_join path_parts_join good_path_parts)
qed

lemma path_root_dropWhile: "path_root (dropWhile (\<lambda>c. c = CHR ''/'') s) = []"
proof (cases "dropWhile (\<lambda>c. c = CHR ''/'') s")
  case Nil
  then show ?thesis by (simp only:) (simp add: path_root_def starts_with_def)
next
  case (Cons x xs)
  then have "x \<noteq> CHR ''/''" by (simp add: dropWhile_eq_Cons_conv)
  with Cons show ?thesis by (simp add: path_root_def starts_with_def)
qed

text \<open>C23: a relative path read from the database stays below the storage root: its components contain no
  parent directory, no empty and no current directory, and the components are exactly those of the
  form the database stores.\<close>

theorem relative_path_stays_below:
  assumes "resolve_storage_path below (Some v) = Some ps"
    and "\<not> starts_with ''/'' v" and "\<not> starts_with ''~'' v" and "\<not> starts_with ''/storage/'' (posix_text v)"
  shows "good_parts ps \<and> ''..'' \<notin> set ps \<and>
    ps = path_parts (dropWhile (\<lambda>c. c = CHR ''/'') (posix_text v))"
proof -
  let ?r = "dropWhile (\<lambda>c. c = CHR ''/'') (posix_text v)"
  have portable: "portable_storage_path below (Some v) = Some (as_posix ?r)" and dd: "''..'' \<notin> set (path_parts ?r)"
    using assms by (auto simp: resolve_storage_path_def portable_storage_path_def Let_def split: if_splits)
  have ps: "ps = path_parts (as_posix ?r)"
    using assms(1) portable by (auto simp: resolve_storage_path_def split: if_splits)
  have "path_parts (as_posix ?r) = path_parts ?r"
  proof (cases "path_parts ?r = []")
    case True
    then show ?thesis
      using path_root_dropWhile [of "posix_text v"] by (simp add: as_posix_def) (simp add: path_parts_def)
  next
    case False
    then show ?thesis by (rule as_posix_relative(2) [OF path_root_dropWhile])
  qed
  with ps dd good_path_parts show ?thesis by simp
qed

text \<open>The branch for paths of older installations does not check for parent directories.\<close>

lemma legacy_prefix_escapes:
  "resolve_storage_path (\<lambda>_. None) (Some ''/storage/../x'') = Some [''..'', ''x'']"
  by code_simp

lemma relative_path_stays_below_witness:
  "resolve_storage_path (\<lambda>_. None) (Some ''cars/4/a.png'') = Some [''cars'', ''4'', ''a.png''] \<and>
     ''..'' \<notin> set [''cars'', ''4'', ''a.png'']"
proof -
  have r: "resolve_storage_path (\<lambda>_. None) (Some ''cars/4/a.png'') = Some [''cars'', ''4'', ''a.png'']"
    by code_simp
  have "\<not> starts_with ''/'' ''cars/4/a.png''" "\<not> starts_with ''~'' ''cars/4/a.png''"
    "\<not> starts_with ''/storage/'' (posix_text ''cars/4/a.png'')"
    by code_simp+
  from relative_path_stays_below [OF r this] r show ?thesis by blast
qed

end
