(* ===== verification/Tracking.thy ===== *)
theory Tracking
  imports Samples ListingDiff StoragePaths
begin

text \<open>
  \<^verbatim>\<open>backend/app/services.py\<close>: how one reading of a listing changes the database. A detail dictionary is
  merged with what is already known (\<open>merge_reliable_detail\<close>), the car, its project link, its price
  history, its events, snapshots and images are written (\<open>upsert_detail\<close>), and a search that did or
  did not show a car updates the project's link (\<open>mark_found_without_detail\<close>, \<open>mark_absent\<close>).

  \<open>t\<close> is the time of the call (the code reads the clock for each column it sets) and \<open>below\<close> the path
  resolution of \<open>StoragePaths\<close>.
\<close>

section \<open>Reading JSON values\<close>

fun int_opt :: "json \<Rightarrow> int option" where
  "int_opt (JInt i) = Some i"
| "int_opt _ = None"

fun str_opt :: "json \<Rightarrow> string option" where
  "str_opt (JStr s) = Some s"
| "str_opt _ = None"

definition jint :: "int option \<Rightarrow> json" where
  "jint = jopt JInt"

definition jstr :: "string option \<Rightarrow> json" where
  "jstr = jopt JStr"

definition sold_detail :: "dict \<Rightarrow> bool" where
  "sold_detail d = truthy (dget d ''sold'')"

section \<open>Merging a reading with what is known\<close>

definition SOLD_PAGE_FIELDS :: "string list" where
  "SOLD_PAGE_FIELDS = [''canonical_car_id'', ''source_car_id'', ''displayed_car_id'', ''source'',
     ''source_url'', ''url'', ''checked_at'', ''scan_run_id'', ''parse_quality'', ''sold'',
     ''unavailable'', ''screenshot_path'', ''screenshot_checksum'']"

definition STABLE_FIELDS :: "string list" where
  "STABLE_FIELDS = [''trim'', ''year_month'', ''production_date'', ''registration_date'',
     ''registration_number'', ''vin'', ''mileage_km'', ''fuel'', ''fuel_name_ko'', ''drivetrain'',
     ''transmission'', ''engine_displacement_cc'', ''seat_count'', ''body_type'', ''exterior_color'',
     ''interior_color'', ''new_car_price_percent'', ''option_codes'']"

definition missing_value :: "json \<Rightarrow> bool" where
  "missing_value v \<longleftrightarrow> v \<in> {JNull, JStr [], JStr ''UNVERIFIED''}"

definition copy_fields :: "string list \<Rightarrow> dict \<Rightarrow> dict \<Rightarrow> dict" where
  "copy_fields fs current merged =
     foldl (\<lambda>m f. if has_key current f then dset m f (dget current f) else m) merged fs"

definition keep_stable :: "string list \<Rightarrow> dict \<Rightarrow> dict \<Rightarrow> dict \<Rightarrow> dict" where
  "keep_stable fs previous current merged =
     foldl (\<lambda>m f. if missing_value (dget current f) \<and> \<not> missing_value (dget previous f)
                   then dset m f (dget previous f) else m) merged fs"

definition entry_status :: "json \<Rightarrow> json" where
  "entry_status v = (case v of JObj d \<Rightarrow> dget d ''status'' | _ \<Rightarrow> JNull)"

definition keep_old_entry :: "json \<Rightarrow> json \<Rightarrow> bool" where
  "keep_old_entry old new \<longleftrightarrow> entry_status new = JStr ''UNVERIFIED'' \<and>
     entry_status old \<in> {JStr ''CONFIRMED'', JStr ''NOT_FOUND''}"

definition merge_condition :: "dict \<Rightarrow> dict \<Rightarrow> dict" where
  "merge_condition old new =
     foldl (\<lambda>m (k, v). if keep_old_entry (dget old k) v then m else dset m k v) old new"

definition merge_sold_page :: "dict \<Rightarrow> dict \<Rightarrow> dict" where
  "merge_sold_page previous current =
     (let m = copy_fields SOLD_PAGE_FIELDS current previous;
          m = dset (dset (dset m ''sold'' (JBool True)) ''unavailable'' (JBool False))
                ''parse_quality'' (JStr ''SOLD_PAGE'')
      in dset m ''fingerprint'' (JStr (fingerprint_listing m)))"

definition merge_live_page :: "dict \<Rightarrow> dict \<Rightarrow> dict" where
  "merge_live_page previous current =
     (let m = keep_stable STABLE_FIELDS previous current (dmerge previous current);
          m = dset m ''options''
                (JObj (dmerge (get_obj previous ''options'') (get_obj current ''options'')));
          m = dset m ''condition''
                (JObj (merge_condition (get_obj previous ''condition'') (get_obj current ''condition'')));
          m = (if dget current ''condition_summary'' = JStr ''UNVERIFIED'' \<and>
                  \<not> missing_value (dget previous ''condition_summary'')
               then dset m ''condition_summary'' (dget previous ''condition_summary'') else m)
      in dset m ''fingerprint'' (JStr (fingerprint_listing m)))"

definition merge_reliable_detail :: "dict \<Rightarrow> dict \<Rightarrow> dict" where
  "merge_reliable_detail previous current =
     (if sold_detail current \<and> previous \<noteq> [] then merge_sold_page previous current
      else merge_live_page previous current)"

section \<open>Rows\<close>

definition car_by_encar :: "db \<Rightarrow> string \<Rightarrow> car option" where
  "car_by_encar d s = first_row (\<lambda>c. c_canonical_encar_id c = s) (cars d)"

definition update_car :: "int \<Rightarrow> (car \<Rightarrow> car) \<Rightarrow> db \<Rightarrow> db" where
  "update_car i f d = d\<lparr>cars := update_where (\<lambda>c. c_id c = i) f (cars d)\<rparr>"

definition update_link :: "int \<Rightarrow> int \<Rightarrow> (project_car \<Rightarrow> project_car) \<Rightarrow> db \<Rightarrow> db" where
  "update_link p c f d = d\<lparr>project_cars :=
     update_where (\<lambda>l. pc_project_id l = p \<and> pc_car_id l = c) f (project_cars d)\<rparr>"

definition new_record :: "car_record list \<Rightarrow> int \<Rightarrow> string \<Rightarrow> dict \<Rightarrow> time \<Rightarrow> car_record" where
  "new_record rows c kind payload t = \<lparr>cr_id = fresh_id (map cr_id rows), cr_car_id = c,
     cr_kind = kind, cr_payload = payload, cr_integrity_status = ''VALID'', cr_created_at = whole_second t\<rparr>"

definition add_price :: "time \<Rightarrow> int \<Rightarrow> dict \<Rightarrow> db \<Rightarrow> db" where
  "add_price t c payload d =
     d\<lparr>price_history := price_history d @ [new_record (price_history d) c ''PRICE'' payload t]\<rparr>"

definition add_snapshot :: "time \<Rightarrow> int \<Rightarrow> dict \<Rightarrow> db \<Rightarrow> db" where
  "add_snapshot t c payload d =
     d\<lparr>car_snapshots := car_snapshots d @ [new_record (car_snapshots d) c ''DATA_CHANGE'' payload t]\<rparr>"

definition image_record ::
  "(string \<Rightarrow> string option) \<Rightarrow> time \<Rightarrow> int \<Rightarrow> string \<Rightarrow> json \<Rightarrow> json \<Rightarrow> db \<Rightarrow> db" where
  "image_record below t c kind path checksum d =
     (case portable_storage_path below (str_opt path) of
        None \<Rightarrow> d
      | Some p \<Rightarrow>
          if p = [] then d
          else
            let payload = [(''path'', JStr p), (''checksum'', checksum), (''updated_at'', JTime t)];
                same = (\<lambda>r. cr_car_id r = c \<and> cr_kind r = kind)
            in case first_row same (car_images d) of
                 Some r \<Rightarrow> d\<lparr>car_images := update_where (\<lambda>x. cr_id x = cr_id r)
                                (\<lambda>x. x\<lparr>cr_payload := payload\<rparr>) (car_images d)\<rparr>
               | None \<Rightarrow> d\<lparr>car_images := car_images d @ [new_record (car_images d) c kind payload t]\<rparr>)"

definition new_link :: "int \<Rightarrow> int \<Rightarrow> time \<Rightarrow> project_car" where
  "new_link p c t = \<lparr>pc_project_id = p, pc_car_id = c, pc_first_seen_at = Some t,
     pc_last_seen_at = None, pc_last_found_at = None, pc_consecutive_missing_scans = 0,
     pc_search_status = ''FOUND'', pc_is_new = True, pc_favorite = False, pc_viewed = False,
     pc_viewed_at = None, pc_tracking_enabled = True, pc_last_observed_snapshot_id = None,
     pc_last_observed_price = None, pc_last_observed_fingerprint = None,
     pc_last_observed_status = None, pc_last_observed_at = None\<rparr>"

definition new_car :: "db \<Rightarrow> string \<Rightarrow> dict \<Rightarrow> time \<Rightarrow> car" where
  "new_car d canonical detail t = \<lparr>c_id = fresh_id (map c_id (cars d)),
     c_canonical_encar_id = canonical,
     c_url = (if truthy (dget detail ''url'') then py_str (dget detail ''url'')
              else ''https://fem.encar.com/cars/detail/'' @ canonical),
     c_title = str_opt (dget detail ''title''), c_details = None, c_current_price = None,
     c_status = ''NEW'', c_fingerprint = None, c_integrity_status = ''VALID'', c_excluded = False,
     c_updated_at = t\<rparr>"

section \<open>Writing one reading\<close>

datatype track_error = KeyError | ValueError | TrackingDisabledError

definition authoritative_price :: "dict \<Rightarrow> int option" where
  "authoritative_price detail =
     (if dget detail ''price_source'' \<in> {JStr ''DETAIL_PRIMARY'', JStr ''DETAIL_RENTAL_MONTHLY'',
          JStr ''DETAIL_LEASE_MONTHLY''}
      then int_opt (dget detail ''price_krw'') else None)"

definition provenance :: "string \<Rightarrow> dict \<Rightarrow> dict" where
  "provenance source_id detail =
     [(''source_car_id'', JStr source_id), (''price_source'', dget detail ''price_source''),
      (''scan_run_id'', dget detail ''scan_run_id''), (''checked_at'', dget detail ''checked_at'')]"

definition price_payload :: "string \<Rightarrow> dict \<Rightarrow> int \<Rightarrow> dict" where
  "price_payload source_id detail price =
     [(''price_krw'', JInt price), (''price_source'', dget detail ''price_source''),
      (''offer_type'', offer_type detail), (''source_car_id'', JStr source_id),
      (''scan_run_id'', dget detail ''scan_run_id''), (''checked_at'', dget detail ''checked_at'')]"

definition record_price :: "time \<Rightarrow> int \<Rightarrow> string \<Rightarrow> dict \<Rightarrow> int option \<Rightarrow> db \<Rightarrow> db" where
  "record_price t c source_id detail old_price d =
     (case authoritative_price detail of
        None \<Rightarrow> d
      | Some p \<Rightarrow> if p \<noteq> 0 \<and> Some p \<noteq> old_price
          then add_price t c (price_payload source_id detail p) d else d)"

text \<open>What the reading means for the status of a car with status \<open>st\<close>: the new status and the
  event to record.\<close>

definition status_step ::
  "string \<Rightarrow> dict \<Rightarrow> dict \<Rightarrow> price_delta option \<Rightarrow> string option \<Rightarrow> json list \<Rightarrow> string \<times> (string \<times> dict) option" where
  "status_step st detail prov change old_fingerprint diff =
     (if sold_detail detail then
        (''SOLD'', if st \<noteq> ''SOLD'' then Some (''SOLD'', [(''reason'', JStr ''encar_sold_or_deleted_page'')]) else None)
      else case change of
        Some ch \<Rightarrow> (pch_type ch, Some (pch_type ch, dmerge (price_change_json ch) prov))
      | None \<Rightarrow>
          if st = ''SOLD'' then
            (''UPDATED'', Some (''MATERIAL_UPDATE'', dmerge [(''availability'', JStr ''active'')] prov))
          else if (case old_fingerprint of None \<Rightarrow> False | Some f \<Rightarrow> JStr f \<noteq> dget detail ''fingerprint'') \<and> diff \<noteq> []
          then (''UPDATED'', Some (''MATERIAL_UPDATE'', dmerge [(''changes'', JList diff)] prov))
          else (st, None))"

definition add_event_opt :: "time \<Rightarrow> int \<Rightarrow> (string \<times> dict) option \<Rightarrow> db \<Rightarrow> db" where
  "add_event_opt t c e d =
     (case e of None \<Rightarrow> d | Some (kind, payload) \<Rightarrow> add_event t c kind None None payload d)"

definition mileage_event :: "dict \<Rightarrow> dict \<Rightarrow> dict \<Rightarrow> (string \<times> dict) option" where
  "mileage_event old detail prov =
     (let a = dget old ''mileage_km''; b = dget detail ''mileage_km''
      in if truthy a \<and> truthy b \<and> \<not> py_eq b a
         then Some (''MILEAGE_CHANGED'', dmerge [(''old'', a), (''new'', b)] prov) else None)"

definition accident_event :: "dict \<Rightarrow> dict \<Rightarrow> dict \<Rightarrow> (string \<times> dict) option" where
  "accident_event old detail prov =
     (if truthy (dget old ''accident'') \<and>
         \<not> py_eq (JObj (accident_signature (dget detail ''accident'')))
                 (JObj (accident_signature (dget old ''accident'')))
      then Some (''ACCIDENT_INFO_CHANGED'', dmerge [(''accident'', dget detail ''accident'')] prov)
      else None)"

definition write_car :: "time \<Rightarrow> dict \<Rightarrow> string \<Rightarrow> car \<Rightarrow> car" where
  "write_car t detail st c = c\<lparr>
     c_status := st,
     c_url := (if truthy (dget detail ''url'') then py_str (dget detail ''url'') else c_url c),
     c_title := (if truthy (dget detail ''title'') then str_opt (dget detail ''title'') else c_title c),
     c_current_price := (case authoritative_price detail of Some p \<Rightarrow> Some p | None \<Rightarrow> c_current_price c),
     c_fingerprint := str_opt (dget detail ''fingerprint''),
     c_details := Some detail,
     c_updated_at := t\<rparr>"

definition touch_link :: "bool \<Rightarrow> time \<Rightarrow> project_car \<Rightarrow> project_car" where
  "touch_link mark t l =
     (if mark then l\<lparr>pc_search_status := ''FOUND'', pc_last_seen_at := Some t,
         pc_last_found_at := Some t, pc_consecutive_missing_scans := 0\<rparr>
      else l\<lparr>pc_last_seen_at := Some t\<rparr>)"

definition relisted_payload :: "int \<Rightarrow> dict" where
  "relisted_payload p = [(''project_id'', JInt p), (''reason'', JStr ''found_again_in_same_project'')]"

definition ensure_link :: "int \<Rightarrow> int \<Rightarrow> time \<Rightarrow> db \<Rightarrow> db" where
  "ensure_link p c t d =
     (case get_project_car d p c of
        Some l \<Rightarrow> d
      | None \<Rightarrow> d\<lparr>project_cars := project_cars d @ [new_link p c t]\<rparr>)"

definition search_status_of :: "db \<Rightarrow> int \<Rightarrow> int \<Rightarrow> string" where
  "search_status_of d p c =
     (case get_project_car d p c of Some l \<Rightarrow> pc_search_status l | None \<Rightarrow> [])"

definition see_link :: "bool \<Rightarrow> time \<Rightarrow> int \<Rightarrow> int \<Rightarrow> db \<Rightarrow> db" where
  "see_link mark t p c d0 =
     (let d = ensure_link p c t d0;
          old = search_status_of d p c;
          d' = update_link p c (touch_link mark t) d
      in if mark \<and> old = ''NOT_FOUND_IN_SEARCH''
         then add_event t c ''RELISTED'' None (Some p) (relisted_payload p) d'
         else d')"

text \<open>The part of \<open>upsert_detail\<close> after the checks: the car exists in \<open>d\<close> with the values \<open>car\<close> it had
  before this reading; \<open>raw\<close> is the reading.\<close>

definition old_details_of :: "car option \<Rightarrow> dict" where
  "old_details_of car = (case car of Some c \<Rightarrow> details_of c | None \<Rightarrow> [])"

definition old_fingerprint_of :: "dict \<Rightarrow> string option" where
  "old_fingerprint_of old = (if old = [] then None else Some (fingerprint_listing old))"

definition record_observation ::
  "time \<Rightarrow> int \<Rightarrow> string \<Rightarrow> dict \<Rightarrow> dict \<Rightarrow> int option \<Rightarrow> (string \<times> dict) option \<Rightarrow> db \<Rightarrow> db" where
  "record_observation t c source_id old detail old_price ev d =
     add_event_opt t c (accident_event old detail (provenance source_id detail))
       (add_event_opt t c (mileage_event old detail (provenance source_id detail))
         (add_event_opt t c ev (record_price t c source_id detail old_price d)))"

definition store_images :: "(string \<Rightarrow> string option) \<Rightarrow> time \<Rightarrow> int \<Rightarrow> dict \<Rightarrow> db \<Rightarrow> db" where
  "store_images below t c detail d =
     image_record below t c ''MAIN'' (dget detail ''main_image_path'') (dget detail ''main_image_checksum'')
       (image_record below t c ''SCREENSHOT'' (dget detail ''screenshot_path'')
         (dget detail ''screenshot_checksum'') d)"

definition old_price_of :: "car option \<Rightarrow> int option" where
  "old_price_of before = (case before of Some b \<Rightarrow> c_current_price b | None \<Rightarrow> None)"

text \<open>The price change and the status a reading produces for a car that was \<open>before\<close>.\<close>

definition observed_change :: "car option \<Rightarrow> dict \<Rightarrow> price_delta option" where
  "observed_change before detail =
     (let old = old_details_of before
      in if old \<noteq> [] \<and> \<not> py_eq (offer_type old) (offer_type detail) then None
         else price_change (old_price_of before) (authoritative_price detail))"

definition observed_diff :: "car option \<Rightarrow> dict \<Rightarrow> json list" where
  "observed_diff before detail =
     (if old_details_of before = [] then [] else material_changes (old_details_of before) detail)"

definition observed_step :: "car option \<Rightarrow> string \<Rightarrow> string \<Rightarrow> dict \<Rightarrow> string \<times> (string \<times> dict) option" where
  "observed_step before st source_id detail =
     status_step st detail (provenance source_id detail) (observed_change before detail)
       (old_fingerprint_of (old_details_of before)) (observed_diff before detail)"

definition write_detail ::
  "(string \<Rightarrow> string option) \<Rightarrow> time \<Rightarrow> bool \<Rightarrow> int \<Rightarrow> string \<Rightarrow> car option \<Rightarrow> car \<Rightarrow> dict \<Rightarrow> db \<Rightarrow> db" where
  "write_detail below t mark p source_id before car detail d0 =
     (let c = c_id car;
          step = observed_step before (c_status car) source_id detail;
          d1 = record_observation t c source_id (old_details_of before) detail (old_price_of before)
                 (snd step) d0;
          d2 = see_link mark t p c (update_car c (write_car t detail (fst step)) d1);
          d3 = (if old_details_of before = [] \<or> observed_change before detail \<noteq> None \<or>
                   observed_diff before detail \<noteq> [] \<or> (sold_detail detail \<and> c_status car \<noteq> ''SOLD'')
                then add_snapshot t c detail d2 else d2)
      in store_images below t c detail d3)"

text \<open>\<^verbatim>\<open>str(detail.get("source_car_id") or canonical)\<close>.\<close>

definition source_id_of :: "dict \<Rightarrow> string" where
  "source_id_of raw =
     (if truthy (dget raw ''source_car_id'') then py_str (dget raw ''source_car_id'')
      else py_str (dget raw ''canonical_car_id''))"

definition upsert_detail ::
  "(string \<Rightarrow> string option) \<Rightarrow> time \<Rightarrow> bool \<Rightarrow> int \<Rightarrow> dict \<Rightarrow> db \<Rightarrow> (track_error + int) \<times> db" where
  "upsert_detail below t mark p raw d =
     (let canonical = py_str (dget raw ''canonical_car_id'');
          source_id = source_id_of raw;
          before = car_by_encar d canonical
      in if \<not> has_key raw ''canonical_car_id'' then (Inl KeyError, d)
         else if \<not> sold_detail raw \<and> source_id \<noteq> canonical then (Inl ValueError, d)
         else if (case before of
                    None \<Rightarrow> False
                  | Some c \<Rightarrow> c_excluded c \<or>
                      (case get_project_car d p (c_id c) of
                         None \<Rightarrow> False | Some l \<Rightarrow> \<not> pc_tracking_enabled l))
         then (Inl TrackingDisabledError, d)
         else
           let detail = merge_reliable_detail (old_details_of before) raw
           in case before of
                Some c \<Rightarrow> (Inr (c_id c), write_detail below t mark p source_id before c detail d)
              | None \<Rightarrow>
                  let c = new_car d canonical detail t;
                      d1 = add_event t (c_id c) ''NEW'' None None detail (d\<lparr>cars := cars d @ [c]\<rparr>)
                  in (Inr (c_id c), write_detail below t mark p source_id before c detail d1))"

definition price_status_detail :: "dict \<Rightarrow> dict" where
  "price_status_detail s =
     (let sold = sold_detail s
      in [(''canonical_car_id'', dget s ''canonical_car_id''),
          (''source_car_id'', dget s ''source_car_id''),
          (''displayed_car_id'', dget s ''displayed_car_id''),
          (''url'', dget s ''url''),
          (''price_krw'', if sold then JNull else dget s ''price_krw''),
          (''price_source'', if sold then JNull
             else if has_key s ''price_source'' then dget s ''price_source'' else JStr ''DETAIL_PRIMARY''),
          (''offer_type'', if has_key s ''offer_type'' then dget s ''offer_type'' else JStr ''SALE''),
          (''rental_monthly_payment_krw'', dget s ''rental_monthly_payment_krw''),
          (''rental_term_months'', dget s ''rental_term_months''),
          (''rental_acquisition_price_krw'', dget s ''rental_acquisition_price_krw''),
          (''vehicle_price_krw'', dget s ''vehicle_price_krw''),
          (''lease_monthly_payment_krw'', dget s ''lease_monthly_payment_krw''),
          (''lease_term_months'', dget s ''lease_term_months''),
          (''checked_at'', dget s ''checked_at''),
          (''parse_quality'', JStr (if sold then ''SOLD_PAGE'' else ''PRICE_STATUS'')),
          (''sold'', JBool sold),
          (''unavailable'', JBool False)])"

definition upsert_price_status ::
  "(string \<Rightarrow> string option) \<Rightarrow> time \<Rightarrow> bool \<Rightarrow> int \<Rightarrow> dict \<Rightarrow> db \<Rightarrow> (track_error + int) \<times> db" where
  "upsert_price_status below t mark p status d =
     (if has_key status ''canonical_car_id'' then upsert_detail below t mark p (price_status_detail status) d
      else (Inl KeyError, d))"

section \<open>Seen or not seen in a search\<close>

definition mark_found_without_detail :: "time \<Rightarrow> int \<Rightarrow> car \<Rightarrow> db \<Rightarrow> string option \<times> db" where
  "mark_found_without_detail t p car d0 =
     (let d = ensure_link p (c_id car) t d0
      in case get_project_car d p (c_id car) of
           None \<Rightarrow> (None, d)
         | Some l \<Rightarrow>
             if \<not> pc_tracking_enabled l \<or> c_excluded car then (None, d)
             else (if pc_search_status l = ''NOT_FOUND_IN_SEARCH'' then Some ''RELISTED'' else None,
                   see_link True t p (c_id car) d))"

definition tracked_links :: "db \<Rightarrow> int \<Rightarrow> (project_car \<times> car) list" where
  "tracked_links d p =
     List.map_filter (\<lambda>l. case get_car d (pc_car_id l) of
          None \<Rightarrow> None
        | Some c \<Rightarrow> if pc_project_id l = p \<and> pc_tracking_enabled l then Some (l, c) else None)
       (project_cars d)"

definition set_link :: "int \<Rightarrow> int \<Rightarrow> int \<Rightarrow> string \<Rightarrow> db \<Rightarrow> db" where
  "set_link p c n status = update_link p c
     (\<lambda>l. l\<lparr>pc_consecutive_missing_scans := n, pc_search_status := status\<rparr>)"

definition confirmed_absent ::
  "time \<Rightarrow> int \<Rightarrow> project_car \<Rightarrow> car \<Rightarrow> (int \<times> string) list \<times> db \<Rightarrow> (int \<times> string) list \<times> db" where
  "confirmed_absent t p l c st =
     (let cid = c_id c;
          d = set_link p cid (pc_consecutive_missing_scans l + 1) ''NOT_FOUND_IN_SEARCH'' (snd st)
      in if c_status c \<noteq> ''SOLD''
         then (fst st @ [(cid, ''SOLD'')],
               add_event t cid ''SOLD'' None (Some p)
                 [(''project_id'', JInt p), (''reason'', JStr ''encar_sold_or_deleted_page'')]
                 (update_car cid (\<lambda>c. c\<lparr>c_status := ''SOLD'', c_updated_at := whole_second t\<rparr>) d))
         else (fst st, d))"

definition searched_absent ::
  "time \<Rightarrow> int \<Rightarrow> bool \<Rightarrow> bool \<Rightarrow> project_car \<Rightarrow> car \<Rightarrow> (int \<times> string) list \<times> db \<Rightarrow> (int \<times> string) list \<times> db" where
  "searched_absent t p success found l c st =
     (let cid = c_id c;
          step = apply_missing success found (pc_consecutive_missing_scans l) (pc_search_status l);
          stored = (if snd step = ''RELISTED'' then ''FOUND'' else snd step);
          save = set_link p cid (fst step) stored
      in if snd step = ''RELISTED''
         then (fst st @ [(cid, ''RELISTED'')],
               save (add_event t cid ''RELISTED'' None (Some p) (relisted_payload p) (snd st)))
         else if stored \<noteq> pc_search_status l
         then (fst st @ [(cid, stored)],
               save (add_event t cid stored None (Some p)
                 [(''project_id'', JInt p), (''missing_scans'', JInt (fst step))] (snd st)))
         else (fst st, save (snd st)))"

definition absent_link ::
  "time \<Rightarrow> int \<Rightarrow> string set \<Rightarrow> bool \<Rightarrow> string set \<Rightarrow> project_car \<times> car \<Rightarrow>
   (int \<times> string) list \<times> db \<Rightarrow> (int \<times> string) list \<times> db" where
  "absent_link t p found success confirmed lc st =
     (if c_canonical_encar_id (snd lc) \<in> confirmed
      then confirmed_absent t p (fst lc) (snd lc) st
      else searched_absent t p success (c_canonical_encar_id (snd lc) \<in> found) (fst lc) (snd lc) st)"

definition mark_absent ::
  "time \<Rightarrow> int \<Rightarrow> string set \<Rightarrow> bool \<Rightarrow> string set \<Rightarrow> db \<Rightarrow> (int \<times> string) list \<times> db" where
  "mark_absent t p found success confirmed d =
     foldl (\<lambda>st lc. absent_link t p found success confirmed lc st) ([], d)
       (filter (\<lambda>(l, c). \<not> c_excluded c) (tracked_links d p))"

section \<open>What each step touches\<close>

text \<open>The tables the tracking of cars never touches.\<close>

definition rest :: "db \<Rightarrow> db" where
  "rest d = d\<lparr>cars := [], project_cars := [], price_history := [], car_snapshots := [],
     car_events := [], car_images := []\<rparr>"

lemma rest_eqD:
  assumes "rest d' = rest d"
  shows "users d' = users d" "auth_sessions d' = auth_sessions d" "auth_attempts d' = auth_attempts d"
    "audit_logs d' = audit_logs d" "projects d' = projects d"
    "user_car_states d' = user_car_states d" "car_aliases d' = car_aliases d"
    "scan_runs d' = scan_runs d" "project_scan_runs d' = project_scan_runs d"
    "scheduler_settings d' = scheduler_settings d" "scheduled_projects d' = scheduled_projects d"
  using assms by (cases d; cases d'; simp add: rest_def)+

lemma rest_update:
  assumes "rest d' = rest d"
  shows "d' = d\<lparr>cars := cars d', project_cars := project_cars d', price_history := price_history d',
    car_snapshots := car_snapshots d', car_events := car_events d', car_images := car_images d'\<rparr>"
  using assms by (cases d; cases d') (simp add: rest_def)

lemma rest_steps [simp]:
  "rest (add_event t c k u pr pl d) = rest d"
  "rest (add_event_opt t c e d) = rest d"
  "rest (add_price t c pl d) = rest d"
  "rest (record_price t c s det op d) = rest d"
  "rest (add_snapshot t c pl d) = rest d"
  "rest (image_record below t c k j1 j2 d) = rest d"
  "rest (update_car c f d) = rest d"
  "rest (update_link p c g d) = rest d"
  "rest (ensure_link p c t d) = rest d"
  "rest (see_link m t p c d) = rest d"
  by (auto simp: rest_def add_event_def add_event_opt_def add_price_def record_price_def
      add_snapshot_def image_record_def update_car_def update_link_def ensure_link_def see_link_def
      Let_def split: option.splits prod.splits)

lemma cars_steps [simp]:
  "cars (add_event t c k u pr pl d) = cars d"
  "cars (add_event_opt t c e d) = cars d"
  "cars (add_price t c pl d) = cars d"
  "cars (record_price t c s det op d) = cars d"
  "cars (add_snapshot t c pl d) = cars d"
  "cars (image_record below t c k j1 j2 d) = cars d"
  "cars (update_car c f d) = update_where (\<lambda>x. c_id x = c) f (cars d)"
  "cars (update_link p c g d) = cars d"
  "cars (ensure_link p c t d) = cars d"
  "cars (see_link m t p c d) = cars d"
  by (auto simp: add_event_def add_event_opt_def add_price_def record_price_def
      add_snapshot_def image_record_def update_car_def update_link_def ensure_link_def see_link_def
      Let_def split: option.splits prod.splits)

lemma links_steps [simp]:
  "project_cars (add_event t c k u pr pl d) = project_cars d"
  "project_cars (add_event_opt t c e d) = project_cars d"
  "project_cars (add_price t c pl d) = project_cars d"
  "project_cars (record_price t c s det op d) = project_cars d"
  "project_cars (add_snapshot t c pl d) = project_cars d"
  "project_cars (image_record below t c k j1 j2 d) = project_cars d"
  "project_cars (update_car c f d) = project_cars d"
  "project_cars (update_link p c g d) =
     update_where (\<lambda>l. pc_project_id l = p \<and> pc_car_id l = c) g (project_cars d)"
  by (auto simp: add_event_def add_event_opt_def add_price_def record_price_def
      add_snapshot_def image_record_def update_car_def update_link_def
      Let_def split: option.splits prod.splits)

lemma prices_steps [simp]:
  "price_history (add_event t c k u pr pl d) = price_history d"
  "price_history (add_event_opt t c e d) = price_history d"
  "price_history (add_snapshot t c pl d) = price_history d"
  "price_history (image_record below t c k j1 j2 d) = price_history d"
  "price_history (update_car c f d) = price_history d"
  "price_history (update_link p c g d) = price_history d"
  "price_history (ensure_link p c t d) = price_history d"
  "price_history (see_link m t p c d) = price_history d"
  by (auto simp: add_event_def add_event_opt_def
      add_snapshot_def image_record_def update_car_def update_link_def ensure_link_def see_link_def
      Let_def split: option.splits prod.splits)

lemma get_links_eq: "project_cars d' = project_cars d \<Longrightarrow> get_project_car d' p c = get_project_car d p c"
  by (simp add: get_project_car_def)

lemma get_project_car_keys:
  "get_project_car d p c = Some l \<Longrightarrow> l \<in> set (project_cars d) \<and> pc_project_id l = p \<and> pc_car_id l = c"
  by (auto simp: get_project_car_def dest: first_row_Some)

lemma get_project_car_update:
  assumes "\<And>l. pc_project_id (g l) = pc_project_id l \<and> pc_car_id (g l) = pc_car_id l"
  shows "get_project_car (update_link p c g d) q e =
    map_option (\<lambda>l. if q = p \<and> e = c then g l else l) (get_project_car d q e)"
proof -
  have "get_project_car (update_link p c g d) q e = map_option
      (\<lambda>l. if pc_project_id l = p \<and> pc_car_id l = c then g l else l) (get_project_car d q e)"
    unfolding get_project_car_def links_steps update_where_def
    by (rule first_row_map) (simp add: assms)
  then show ?thesis
    by (cases "get_project_car d q e") (auto dest: get_project_car_keys)
qed

lemma get_ensure_link:
  "get_project_car (ensure_link p c t d) q e =
     (if q = p \<and> e = c \<and> get_project_car d p c = None then Some (new_link p c t)
      else get_project_car d q e)"
proof (cases "get_project_car d p c")
  case (Some l)
  then show ?thesis by (simp add: ensure_link_def)
next
  case None
  let ?P = "\<lambda>l. pc_project_id l = q \<and> pc_car_id l = e"
  have "project_cars (ensure_link p c t d) = project_cars d @ [new_link p c t]"
    by (simp add: ensure_link_def None)
  then have "get_project_car (ensure_link p c t d) q e =
      (case first_row ?P (project_cars d) of Some l \<Rightarrow> Some l | None \<Rightarrow> first_row ?P [new_link p c t])"
    by (simp only: get_project_car_def first_row_append)
  also have "first_row ?P [new_link p c t] = (if q = p \<and> e = c then Some (new_link p c t) else None)"
    by (simp add: new_link_def)
  finally show ?thesis
    using None by (cases "q = p \<and> e = c") (auto simp: get_project_car_def split: option.splits)
qed

lemma touch_link_keys [simp]:
  "pc_project_id (touch_link m t l) = pc_project_id l"
  "pc_car_id (touch_link m t l) = pc_car_id l"
  "pc_tracking_enabled (touch_link m t l) = pc_tracking_enabled l"
  by (auto simp: touch_link_def)

lemma get_see_link:
  "get_project_car (see_link m t p c d) q e =
     (if q = p \<and> e = c
      then Some (touch_link m t (case get_project_car d p c of Some l \<Rightarrow> l | None \<Rightarrow> new_link p c t))
      else get_project_car d q e)"
proof -
  have "get_project_car (see_link m t p c d) q e =
      get_project_car (update_link p c (touch_link m t) (ensure_link p c t d)) q e"
    by (rule get_links_eq) (simp add: see_link_def Let_def)
  also have "\<dots> = (if q = p \<and> e = c
      then Some (touch_link m t (case get_project_car d p c of Some l \<Rightarrow> l | None \<Rightarrow> new_link p c t))
      else get_project_car d q e)"
    by (auto simp: get_project_car_update get_ensure_link option.map_ident split: option.splits)
  finally show ?thesis .
qed

section \<open>The contract of a tracking operation\<close>

definition link_key :: "project_car \<Rightarrow> int \<times> int" where
  "link_key l = (pc_project_id l, pc_car_id l)"

definition catalog_ok :: "db \<Rightarrow> bool" where
  "catalog_ok d \<longleftrightarrow> distinct (map c_id (cars d)) \<and> distinct (map c_canonical_encar_id (cars d)) \<and>
     distinct (map link_key (project_cars d))"

locale car_operation =
  fixes op :: "db \<Rightarrow> db"
  assumes rest_kept: "rest (op d) = rest d"
    and catalog_kept: "catalog_ok d \<Longrightarrow> catalog_ok (op d)"
begin

lemmas tables_kept = rest_eqD [OF rest_kept]

lemma listing_unique:
  assumes "catalog_ok d" and "x \<in> set (cars (op d))" and "y \<in> set (cars (op d))"
    and "c_canonical_encar_id x = c_canonical_encar_id y"
  shows "x = y"
  using catalog_kept [OF assms(1)] assms(2-4) by (auto simp: catalog_ok_def distinct_map inj_on_def)

end

lemma catalog_update_car:
  assumes "catalog_ok d" and "cars d' = update_where P f (cars d)" and "project_cars d' = project_cars d"
    and "\<And>c. c_id (f c) = c_id c \<and> c_canonical_encar_id (f c) = c_canonical_encar_id c"
  shows "catalog_ok d'"
  using assms by (simp add: catalog_ok_def map_update_where)

lemma catalog_update_link:
  assumes "catalog_ok d" and "\<And>l. link_key (g l) = link_key l"
  shows "catalog_ok (update_link p c g d)"
  using assms by (simp add: catalog_ok_def map_update_where)

lemma catalog_ensure_link:
  assumes "catalog_ok d"
  shows "catalog_ok (ensure_link p c t d)"
proof (cases "get_project_car d p c")
  case None
  then have "(p, c) \<notin> link_key ` set (project_cars d)"
    by (auto simp: get_project_car_def first_row_None link_key_def)
  with assms None show ?thesis
    by (simp add: catalog_ok_def ensure_link_def link_key_def [of "new_link p c t"])
      (simp add: new_link_def)
qed (simp add: assms ensure_link_def)

lemma catalog_same: "cars d' = cars d \<Longrightarrow> project_cars d' = project_cars d \<Longrightarrow> catalog_ok d' = catalog_ok d"
  by (simp add: catalog_ok_def)

lemma links_see_link:
  "project_cars (see_link m t p c d) =
     project_cars (update_link p c (touch_link m t) (ensure_link p c t d))"
  by (simp add: see_link_def Let_def)

lemma catalog_see_link:
  assumes "catalog_ok d"
  shows "catalog_ok (see_link m t p c d)"
proof -
  have "catalog_ok (update_link p c (touch_link m t) (ensure_link p c t d))"
    by (intro catalog_update_link catalog_ensure_link assms) (simp add: link_key_def)
  moreover have "catalog_ok (see_link m t p c d) =
      catalog_ok (update_link p c (touch_link m t) (ensure_link p c t d))"
    by (rule catalog_same) (simp_all only: links_see_link cars_steps)
  ultimately show ?thesis by simp
qed

lemma write_car_keys [simp]:
  "c_id (write_car t det st c) = c_id c"
  "c_canonical_encar_id (write_car t det st c) = c_canonical_encar_id c"
  "c_excluded (write_car t det st c) = c_excluded c"
  "c_status (write_car t det st c) = st"
  "c_details (write_car t det st c) = Some det"
  by (auto simp: write_car_def)

lemma rest_write_detail [simp]: "rest (write_detail below t m p s before car det d) = rest d"
  by (simp add: write_detail_def record_observation_def store_images_def Let_def)

lemma cars_write_detail:
  "cars (write_detail below t m p s before car det d) =
     update_where (\<lambda>x. c_id x = c_id car)
       (write_car t det (fst (observed_step before (c_status car) s det))) (cars d)"
  by (simp add: write_detail_def record_observation_def store_images_def Let_def)

lemma links_write_detail:
  "project_cars (write_detail below t m p s before car det d) =
     project_cars (see_link m t p (c_id car) d)"
  by (simp add: write_detail_def record_observation_def store_images_def Let_def links_see_link
      ensure_link_def get_project_car_def split: option.split)

lemma catalog_write_detail:
  assumes "catalog_ok d"
  shows "catalog_ok (write_detail below t m p s before car det d)"
  using catalog_see_link [OF assms, of m t p "c_id car"]
  by (simp add: catalog_ok_def cars_write_detail links_write_detail map_update_where)

lemma rest_cars [simp]: "rest (d\<lparr>cars := cs\<rparr>) = rest d"
  by (simp add: rest_def)

lemma upsert_detail_cases:
  obtains (refused) e where "upsert_detail below t m p raw d = (Inl e, d)"
  | (known) x where "sold_detail raw \<or> source_id_of raw = py_str (dget raw ''canonical_car_id'')" "car_by_encar d (py_str (dget raw ''canonical_car_id'')) = Some x"
      "\<not> c_excluded x"
      "\<forall>l. get_project_car d p (c_id x) = Some l \<longrightarrow> pc_tracking_enabled l"
      "upsert_detail below t m p raw d = (Inr (c_id x), write_detail below t m p (source_id_of raw) (Some x) x
         (merge_reliable_detail (details_of x) raw) d)"
  | (new) x det where "sold_detail raw \<or> source_id_of raw = py_str (dget raw ''canonical_car_id'')" "car_by_encar d (py_str (dget raw ''canonical_car_id'')) = None"
      "det = merge_reliable_detail [] raw"
      "x = new_car d (py_str (dget raw ''canonical_car_id'')) det t"
      "upsert_detail below t m p raw d = (Inr (c_id x), write_detail below t m p (source_id_of raw) None x det
         (add_event t (c_id x) ''NEW'' None None det (d\<lparr>cars := cars d @ [x]\<rparr>)))"
proof (cases "fst (upsert_detail below t m p raw d)")
  case (Inl e)
  then have "upsert_detail below t m p raw d = (Inl e, d)"
    by (auto simp: upsert_detail_def Let_def split: if_splits option.splits)
  then show ?thesis by (rule refused)
next
  case (Inr c)
  show ?thesis
  proof (cases "car_by_encar d (py_str (dget raw ''canonical_car_id''))")
    case None
    with Inr show ?thesis
      by (intro new [OF _ None refl refl])
        (auto simp: upsert_detail_def Let_def old_details_of_def split: if_splits)
  next
    case (Some x)
    with Inr show ?thesis
      by (intro known [OF _ Some])
        (auto simp: upsert_detail_def Let_def old_details_of_def split: if_splits option.splits)
  qed
qed

lemma new_car_keys [simp]:
  "c_id (new_car d can det t) = fresh_id (map c_id (cars d))"
  "c_canonical_encar_id (new_car d can det t) = can"
  "c_excluded (new_car d can det t) = False"
  "c_status (new_car d can det t) = ''NEW''"
  "c_current_price (new_car d can det t) = None"
  by (auto simp: new_car_def)

lemma catalog_add_car:
  assumes "catalog_ok d" and "car_by_encar d (c_canonical_encar_id x) = None"
    and "c_id x = fresh_id (map c_id (cars d))"
  shows "catalog_ok (d\<lparr>cars := cars d @ [x]\<rparr>)"
  using assms fresh_id_notin [of "map c_id (cars d)"]
  by (auto simp: catalog_ok_def car_by_encar_def first_row_None)

interpretation upsert: car_operation "\<lambda>d. snd (upsert_detail below t m p raw d)"
proof
  fix d
  show "rest (snd (upsert_detail below t m p raw d)) = rest d"
    by (rule upsert_detail_cases [of below t m p raw d]) simp_all
  assume ok: "catalog_ok d"
  show "catalog_ok (snd (upsert_detail below t m p raw d))"
  proof (rule upsert_detail_cases [of below t m p raw d], goal_cases)
    case (1 e)
    then show ?case using ok by simp
  next
    case (2 x)
    then show ?case by (simp add: catalog_write_detail ok)
  next
    case (3 x det)
    have "catalog_ok (d\<lparr>cars := cars d @ [x]\<rparr>)"
      using 3 by (intro catalog_add_car ok) simp_all
    then have "catalog_ok (add_event t (c_id x) ''NEW'' None None det (d\<lparr>cars := cars d @ [x]\<rparr>))"
      by (simp add: catalog_ok_def)
    then show ?case using 3(5) by (simp add: catalog_write_detail)
  qed
qed

lemma absent_link_rest: "rest (snd (absent_link t p found su conf lc st)) = rest (snd st)"
  by (simp add: absent_link_def confirmed_absent_def searched_absent_def set_link_def Let_def)

lemma absent_link_rows:
  "\<exists>n s. project_cars (snd (absent_link t p found su conf lc st)) =
     project_cars (set_link p (c_id (snd lc)) n s (snd st))"
  by (simp add: absent_link_def confirmed_absent_def searched_absent_def set_link_def Let_def) blast

lemma absent_link_cars:
  "cars (snd (absent_link t p found su conf lc st)) =
     (if c_canonical_encar_id (snd lc) \<in> conf \<and> c_status (snd lc) \<noteq> ''SOLD''
      then update_where (\<lambda>c. c_id c = c_id (snd lc)) (\<lambda>c. c\<lparr>c_status := ''SOLD'', c_updated_at := whole_second t\<rparr>) (cars (snd st))
      else cars (snd st))"
  by (simp add: absent_link_def confirmed_absent_def searched_absent_def set_link_def Let_def)

lemma absent_link_catalog:
  assumes "catalog_ok (snd st)"
  shows "catalog_ok (snd (absent_link t p found su conf lc st))"
proof -
  obtain n s where "project_cars (snd (absent_link t p found su conf lc st)) =
     project_cars (set_link p (c_id (snd lc)) n s (snd st))"
    using absent_link_rows by blast
  then have "map link_key (project_cars (snd (absent_link t p found su conf lc st))) =
      map link_key (project_cars (snd st))"
    by (simp add: set_link_def map_update_where link_key_def)
  with assms show ?thesis
    by (simp add: catalog_ok_def absent_link_cars map_update_where)
qed

lemma absent_fold:
  "rest (snd (foldl (\<lambda>st lc. absent_link t p found su conf lc st) st ls)) = rest (snd st)"
  "catalog_ok (snd st) \<Longrightarrow>
   catalog_ok (snd (foldl (\<lambda>st lc. absent_link t p found su conf lc st) st ls))"
  by (induction ls arbitrary: st) (auto simp: absent_link_rest absent_link_catalog)

interpretation absent: car_operation "\<lambda>d. snd (mark_absent t p found su conf d)"
  by unfold_locales (simp_all add: mark_absent_def absent_fold)

interpretation found: car_operation "\<lambda>d. snd (mark_found_without_detail t p car d)"
  by unfold_locales
    (auto simp: mark_found_without_detail_def Let_def catalog_see_link catalog_ensure_link
      split: option.split)

section \<open>What a merge keeps\<close>

lemma dget_copy_fields:
  "dget (copy_fields fs cur m) k = (if k \<in> set fs \<and> has_key cur k then dget cur k else dget m k)"
proof -
  have "dget (foldl (\<lambda>m f. if has_key cur f then dset m f (dget cur f) else m) m fs) k =
      (if k \<in> set fs \<and> has_key cur k then dget cur k else dget m k)"
    by (induction fs arbitrary: m) auto
  then show ?thesis by (simp add: copy_fields_def)
qed

lemma dget_keep_stable:
  "dget (keep_stable fs prev cur m) k =
     (if k \<in> set fs \<and> missing_value (dget cur k) \<and> \<not> missing_value (dget prev k)
      then dget prev k else dget m k)"
proof -
  have "dget (foldl (\<lambda>m f. if missing_value (dget cur f) \<and> \<not> missing_value (dget prev f)
        then dset m f (dget prev f) else m) m fs) k =
      (if k \<in> set fs \<and> missing_value (dget cur k) \<and> \<not> missing_value (dget prev k)
       then dget prev k else dget m k)"
    by (induction fs arbitrary: m) auto
  then show ?thesis by (simp add: keep_stable_def)
qed

lemma merge_condition_verified:
  assumes "entry_status (dget old k) \<in> {JStr ''CONFIRMED'', JStr ''NOT_FOUND''}"
  shows "entry_status (dget (merge_condition old new) k) \<noteq> JStr ''UNVERIFIED''"
proof -
  have "entry_status (dget m k) \<noteq> JStr ''UNVERIFIED'' \<Longrightarrow>
      entry_status (dget (foldl (\<lambda>m (k, v). if keep_old_entry (dget old k) v then m else dset m k v) m new) k)
        \<noteq> JStr ''UNVERIFIED''" for m
  proof (induction new arbitrary: m)
    case (Cons kv new)
    obtain k' v where kv: "kv = (k', v)" by (cases kv)
    have "entry_status (dget (if keep_old_entry (dget old k') v then m else dset m k' v) k)
        \<noteq> JStr ''UNVERIFIED''"
      using assms Cons.prems by (auto simp: keep_old_entry_def)
    from Cons.IH [OF this] show ?case by (simp add: kv)
  qed simp
  then show ?thesis using assms by (auto simp: merge_condition_def)
qed

lemma merge_condition_kept:
  assumes "entry_status (dget old k) \<in> {JStr ''CONFIRMED'', JStr ''NOT_FOUND''}"
    and "\<And>v. (k, v) \<in> set new \<Longrightarrow> entry_status v = JStr ''UNVERIFIED''"
  shows "dget (merge_condition old new) k = dget old k"
proof -
  have "dget (foldl (\<lambda>m (k, v). if keep_old_entry (dget old k) v then m else dset m k v) m new) k = dget m k" for m
    using assms(2)
  proof (induction new arbitrary: m)
    case (Cons kv new)
    obtain k' v where kv: "kv = (k', v)" by (cases kv)
    let ?m = "if keep_old_entry (dget old k') v then m else dset m k' v"
    have "dget ?m k = dget m k"
      using assms(1) Cons.prems [of v] kv by (auto simp: keep_old_entry_def)
    moreover have "dget (foldl (\<lambda>m (k, v). if keep_old_entry (dget old k) v then m else dset m k v) ?m new) k = dget ?m k"
      by (rule Cons.IH) (use Cons.prems in auto)
    ultimately show ?case by (simp only: kv foldl_Cons prod.case)
  qed simp
  then show ?thesis by (simp add: merge_condition_def)
qed

lemma get_obj_JObj [simp]: "dget d k = JObj x \<Longrightarrow> get_obj d k = x"
  by (simp add: get_obj_def py_or_def)

lemma missing_JNull [simp]: "missing_value JNull"
  by (simp add: missing_value_def)

lemma not_missing_has_key: "\<not> missing_value (dget d k) \<Longrightarrow> has_key d k"
  by (auto simp: dget_def has_key_def split: option.splits)

lemma merge_live_stable:
  assumes "k \<in> set STABLE_FIELDS" and "\<not> missing_value (dget prev k)"
  shows "dget (merge_live_page prev cur) k =
    (if missing_value (dget cur k) then dget prev k else dget cur k)"
proof -
  have "k \<notin> {''options'', ''condition'', ''condition_summary'', ''fingerprint''}"
    using assms(1) by (auto simp: STABLE_FIELDS_def)
  then have "dget (merge_live_page prev cur) k =
      dget (keep_stable STABLE_FIELDS prev cur (dmerge prev cur)) k"
    by (simp add: merge_live_page_def Let_def)
  then show ?thesis
    using assms not_missing_has_key [of cur k] by (auto simp: dget_keep_stable dget_dmerge)
qed

lemma merge_live_condition:
  "get_obj (merge_live_page prev cur) ''condition'' =
     merge_condition (get_obj prev ''condition'') (get_obj cur ''condition'')"
  by (rule get_obj_JObj) (simp add: merge_live_page_def Let_def)

text \<open>C18: the page of a sold listing carries no vehicle data, and none of what was known is lost to it: every
  field except the few availability and provenance fields keeps its value, and the listing is
  marked as sold.\<close>

theorem sold_page_keeps_profile:
  assumes "sold_detail current" and "previous \<noteq> []"
    and "k \<notin> set SOLD_PAGE_FIELDS" and "k \<noteq> ''fingerprint''"
  shows "dget (merge_reliable_detail previous current) k = dget previous k \<and>
    sold_detail (merge_reliable_detail previous current)"
proof -
  have "k \<notin> {''sold'', ''unavailable'', ''parse_quality''}"
    using assms(3) by (auto simp: SOLD_PAGE_FIELDS_def)
  then show ?thesis
    using assms by (simp add: merge_reliable_detail_def merge_sold_page_def Let_def dget_copy_fields
        sold_detail_def [of "dset _ _ _"])
qed

text \<open>C19: a live reading never erases verified facts. Every known vehicle specification keeps its value when the
  page shows none and takes the page's value otherwise; every condition that was confirmed or ruled
  out is kept as it is when the page leaves it unverified, and never becomes unverified.\<close>

theorem live_page_keeps_verified:
  assumes "\<not> sold_detail current"
  shows "(\<forall>k \<in> set STABLE_FIELDS. \<not> missing_value (dget previous k) \<longrightarrow>
      dget (merge_reliable_detail previous current) k =
        (if missing_value (dget current k) then dget previous k else dget current k)) \<and>
    (\<forall>e. entry_status (dget (get_obj previous ''condition'') e) \<in> {JStr ''CONFIRMED'', JStr ''NOT_FOUND''} \<longrightarrow>
      entry_status (dget (get_obj (merge_reliable_detail previous current) ''condition'') e) \<noteq> JStr ''UNVERIFIED'' \<and>
      ((\<forall>v. (e, v) \<in> set (get_obj current ''condition'') \<longrightarrow> entry_status v = JStr ''UNVERIFIED'') \<longrightarrow>
        dget (get_obj (merge_reliable_detail previous current) ''condition'') e =
          dget (get_obj previous ''condition'') e))"
  using assms merge_live_stable merge_condition_verified merge_condition_kept
  by (auto simp: merge_reliable_detail_def merge_live_condition)

section \<open>What an upsert writes\<close>

lemma get_car_update:
  assumes "cars d' = update_where (\<lambda>x. c_id x = c) f (cars d)" and "\<And>x. c_id (f x) = c_id x"
  shows "get_car d' i = map_option (\<lambda>x. if i = c then f x else x) (get_car d i)"
proof -
  have "get_car d' i = map_option (\<lambda>x. if c_id x = c then f x else x) (get_car d i)"
    unfolding get_car_def assms(1) by (rule first_row_update) (simp add: assms(2))
  then show ?thesis
    by (cases "get_car d i") (auto simp: get_car_def dest: first_row_Some)
qed

lemma get_car_append:
  "get_car (d\<lparr>cars := cars d @ [x]\<rparr>) i =
     (case get_car d i of Some y \<Rightarrow> Some y | None \<Rightarrow> if c_id x = i then Some x else None)"
  by (simp add: get_car_def first_row_snoc)

lemma get_car_fresh: "get_car d (fresh_id (map c_id (cars d))) = None"
  unfolding get_car_def first_row_None
  using fresh_id_notin [of "map c_id (cars d)"] by (metis image_eqI list.set_map)

lemma get_link_write_detail:
  "get_project_car (write_detail below t m p s before car det d) q e =
     (if q = p \<and> e = c_id car
      then Some (touch_link m t (case get_project_car d p (c_id car) of Some l \<Rightarrow> l | None \<Rightarrow> new_link p (c_id car) t))
      else get_project_car d q e)"
  by (simp add: get_links_eq [OF links_write_detail] get_see_link)

lemma get_car_write_detail:
  "get_car (write_detail below t m p s before car det d) i =
     map_option (\<lambda>x. if i = c_id car
        then write_car t det (fst (observed_step before (c_status car) s det)) x else x) (get_car d i)"
  by (rule get_car_update [OF cars_write_detail]) simp

text \<open>What a successful upsert leaves for the listing itself. The status: a reading of a sold page; else a
change between two known prices of one kind of offer; else a sold listing that is back, or a material
change; else as before.\<close>

definition known_change :: "car option \<Rightarrow> dict \<Rightarrow> (int \<times> int) option" where
  "known_change before detail =
     (case (old_price_of before, authoritative_price detail) of
        (Some a, Some b) \<Rightarrow>
          if a \<noteq> 0 \<and> b \<noteq> 0 \<and> a \<noteq> b \<and>
             (old_details_of before = [] \<or> py_eq (offer_type (old_details_of before)) (offer_type detail))
          then Some (a, b) else None
      | _ \<Rightarrow> None)"

definition status_after :: "car option \<Rightarrow> dict \<Rightarrow> string" where
  "status_after before detail =
     (let old = old_details_of before;
          st = (case before of Some c \<Rightarrow> c_status c | None \<Rightarrow> ''NEW'')
      in if sold_detail detail then ''SOLD''
         else case known_change before detail of
           Some (a, b) \<Rightarrow> if b < a then ''PRICE_DROP'' else ''PRICE_INCREASE''
         | None \<Rightarrow>
             if st = ''SOLD'' \<or> (old \<noteq> [] \<and> material_changes old detail \<noteq> [] \<and>
                  dget detail ''fingerprint'' \<noteq> JStr (fingerprint_listing old))
             then ''UPDATED'' else st)"

definition written_car :: "time \<Rightarrow> dict \<Rightarrow> car option \<Rightarrow> car \<Rightarrow> bool" where
  "written_car t raw before x \<longleftrightarrow>
     (let detail = merge_reliable_detail (old_details_of before) raw
      in c_canonical_encar_id x = py_str (dget raw ''canonical_car_id'') \<and>
         c_details x = Some detail \<and>
         c_status x = status_after before detail \<and>
         c_current_price x = (case authoritative_price detail of
            Some pr \<Rightarrow> Some pr | None \<Rightarrow> old_price_of before) \<and>
         c_fingerprint x = str_opt (dget detail ''fingerprint'') \<and>
         c_updated_at x = t \<and> \<not> c_excluded x)"

text \<open>The link afterwards: the one there was, or a new one, seen now and after a search hit found.\<close>

definition seen_link :: "bool \<Rightarrow> time \<Rightarrow> project_car \<Rightarrow> project_car \<Rightarrow> bool" where
  "seen_link mark t l0 l \<longleftrightarrow> pc_tracking_enabled l \<and>
     l = (if mark then l0\<lparr>pc_last_seen_at := Some t, pc_last_found_at := Some t,
            pc_search_status := ''FOUND'', pc_consecutive_missing_scans := 0\<rparr>
          else l0\<lparr>pc_last_seen_at := Some t\<rparr>)"

lemma observed_change_known:
  "map_option (\<lambda>c. (pch_old c, pch_new c)) (observed_change before detail) = known_change before detail"
  by (auto simp: observed_change_def known_change_def price_change_def Let_def split: option.split)

lemma observed_change_shape:
  "observed_change before detail = Some c \<Longrightarrow>
     known_change before detail = Some (pch_old c, pch_new c) \<and>
     pch_type c = (if pch_new c < pch_old c then ''PRICE_DROP'' else ''PRICE_INCREASE'')"
  using observed_change_known [of before detail]
  by (auto simp: observed_change_def price_change_def Let_def split: option.splits if_splits)

lemma observed_status:
  "fst (observed_step before (case before of Some c \<Rightarrow> c_status c | None \<Rightarrow> ''NEW'') s detail) = status_after before detail"
proof (cases "observed_change before detail")
  case None
  then have "known_change before detail = None"
    using observed_change_known [of before detail] by simp
  then show ?thesis
    using None by (auto simp: observed_step_def status_step_def status_after_def Let_def observed_diff_def
        old_fingerprint_of_def)
next
  case (Some c)
  then show ?thesis
    using observed_change_shape [OF Some]
    by (simp add: observed_step_def status_step_def status_after_def Let_def)
qed

lemma write_car_written:
  assumes "c_canonical_encar_id x = py_str (dget raw ''canonical_car_id'')"
    and "c_current_price x = old_price_of before" "\<not> c_excluded x"
    and "c_status x = (case before of Some c \<Rightarrow> c_status c | None \<Rightarrow> ''NEW'')"
  shows "written_car t raw before
    (write_car t (merge_reliable_detail (old_details_of before) raw)
      (fst (observed_step before (c_status x) s (merge_reliable_detail (old_details_of before) raw))) x)"
  unfolding assms(4) observed_status using assms(1-3)
  by (simp add: written_car_def Let_def) (simp add: write_car_def split: option.split)

lemma touch_link_seen: "pc_tracking_enabled l \<Longrightarrow> seen_link m t l (touch_link m t l)"
  by (auto simp: seen_link_def touch_link_def)

lemma new_link_tracking [simp]: "pc_tracking_enabled (new_link p c t)"
  by (simp add: new_link_def)

lemma car_by_encar_Some:
  "car_by_encar d s = Some x \<Longrightarrow> x \<in> set (cars d) \<and> c_canonical_encar_id x = s"
  by (auto simp: car_by_encar_def dest: first_row_Some)

lemma get_car_member: "catalog_ok d \<Longrightarrow> x \<in> set (cars d) \<Longrightarrow> get_car d (c_id x) = Some x"
  by (simp add: get_car_def catalog_ok_def first_row_key)

definition no_dangling :: "db \<Rightarrow> bool" where
  "no_dangling d \<longleftrightarrow> (\<forall>l \<in> set (project_cars d). \<exists>x \<in> set (cars d). c_id x = pc_car_id l)"

text \<open>The records of other cars stay; only records of the car \<open>c\<close> are added or replaced.\<close>

definition records_of_others :: "int \<Rightarrow> db \<Rightarrow> db \<Rightarrow> bool" where
  "records_of_others c d d' \<longleftrightarrow>
     appends (\<lambda>r. cr_car_id r = c) (price_history d) (price_history d') \<and>
     appends (\<lambda>r. cr_car_id r = c) (car_snapshots d) (car_snapshots d') \<and>
     appends (\<lambda>r. cr_car_id r = c) (car_events d) (car_events d') \<and>
     filter (\<lambda>r. cr_car_id r \<noteq> c) (car_images d') = filter (\<lambda>r. cr_car_id r \<noteq> c) (car_images d)"

definition image_ids_distinct :: "db \<Rightarrow> bool" where
  "image_ids_distinct d \<longleftrightarrow> distinct (map cr_id (car_images d))"

lemma records_refl [simp]: "records_of_others c d d"
  by (simp add: records_of_others_def)

lemma records_trans: "records_of_others c d d1 \<Longrightarrow> records_of_others c d1 d2 \<Longrightarrow> records_of_others c d d2"
  by (auto simp: records_of_others_def intro: appends_trans)

lemma records_steps [simp]:
  "records_of_others c d (add_event t c k u pr pl d)"
  "records_of_others c d (add_event_opt t c e d)"
  "records_of_others c d (add_price t c pl d)"
  "records_of_others c d (record_price t c s det op d)"
  "records_of_others c d (add_snapshot t c pl d)"
  "records_of_others c d (update_car c f d)"
  "records_of_others c d (update_link p c g d)"
  "records_of_others c d (ensure_link p c t d)"
  by (auto simp: records_of_others_def add_event_def add_event_opt_def add_price_def record_price_def add_snapshot_def
      new_record_def update_car_def update_link_def ensure_link_def split: option.split)

lemma records_see_link [simp]: "records_of_others c d (see_link m t p c d)"
proof -
  have "records_of_others c d (update_link p c (touch_link m t) (ensure_link p c t d))"
    by (rule records_trans [OF records_steps(8) records_steps(7)])
  then show ?thesis
    using records_trans [OF _ records_steps(1)] by (auto simp: see_link_def Let_def)
qed

lemma image_ids_steps [simp]:
  "car_images (add_event t c k u pr pl d) = car_images d"
  "car_images (add_event_opt t c e d) = car_images d"
  "car_images (record_price t c s det op d) = car_images d"
  "car_images (add_snapshot t c pl d) = car_images d"
  "car_images (update_car c f d) = car_images d"
  "car_images (see_link m t p c d) = car_images d"
  by (auto simp: add_event_def add_event_opt_def add_price_def record_price_def add_snapshot_def
      update_car_def update_link_def ensure_link_def see_link_def Let_def split: option.split prod.split)

lemma records_image:
  assumes "image_ids_distinct d"
  shows "records_of_others c d (image_record below t c k j1 j2 d) \<and> image_ids_distinct (image_record below t c k j1 j2 d)"
proof (cases "portable_storage_path below (str_opt j1)")
  case (Some path)
  let ?P = "\<lambda>r. cr_car_id r = c \<and> cr_kind r = k"
  show ?thesis
  proof (cases "path = [] \<or> first_row ?P (car_images d) = None")
    case True
    then show ?thesis
      using Some assms fresh_id_notin [of "map cr_id (car_images d)"]
      by (auto simp: image_record_def Let_def records_of_others_def image_ids_distinct_def new_record_def)
  next
    case False
    then obtain r where r: "first_row ?P (car_images d) = Some r" by auto
    then have "r \<in> set (car_images d)" "cr_car_id r = c" by (auto dest: first_row_Some)
    then have "cr_car_id x = c" if "x \<in> set (car_images d)" "cr_id x = cr_id r" for x
      using assms that by (auto simp: image_ids_distinct_def distinct_map inj_on_def)
    then have "filter (\<lambda>x. cr_car_id x \<noteq> c) (update_where (\<lambda>x. cr_id x = cr_id r) f rows) = filter (\<lambda>x. cr_car_id x \<noteq> c) rows"
      if "set rows \<subseteq> set (car_images d)" "\<And>x. cr_car_id (f x) = cr_car_id x" for rows f
      using that by (induction rows) auto
    then show ?thesis
      using Some False r assms
      by (simp add: image_record_def Let_def records_of_others_def image_ids_distinct_def map_update_where)
  qed
qed (simp add: image_record_def assms)

lemma records_write_detail:
  assumes "image_ids_distinct d"
  shows "records_of_others (c_id car) d (write_detail below t m p s before car det d)"
proof -
  let ?c = "c_id car"
  let ?d1 = "record_observation t ?c s (old_details_of before) det (old_price_of before)
      (snd (observed_step before (c_status car) s det)) d"
  let ?d2 = "see_link m t p ?c (update_car ?c (write_car t det (fst (observed_step before (c_status car) s det))) ?d1)"
  let ?d3 = "if old_details_of before = [] \<or> observed_change before det \<noteq> None \<or>
      observed_diff before det \<noteq> [] \<or> (sold_detail det \<and> c_status car \<noteq> ''SOLD'') then add_snapshot t ?c det ?d2 else ?d2"
  have "records_of_others ?c d ?d1"
    unfolding record_observation_def
    by (rule records_trans [OF records_trans [OF records_trans]]; rule records_steps)
  then have "records_of_others ?c d ?d2"
    by (rule records_trans [OF records_trans [OF _ records_steps(6)] records_see_link])
  then have rec: "records_of_others ?c d ?d3"
    by (cases "old_details_of before = [] \<or> observed_change before det \<noteq> None \<or>
      observed_diff before det \<noteq> [] \<or> (sold_detail det \<and> c_status car \<noteq> ''SOLD'')")
      (simp_all only: if_True if_False, rule records_trans [OF _ records_steps(5)])
  have "car_images ?d3 = car_images d"
    by (simp add: record_observation_def)
  then have "image_ids_distinct ?d3" using assms by (simp only: image_ids_distinct_def)
  note one = records_image [OF this]
  note two = records_image [OF conjunct2 [OF one]]
  from rec have "records_of_others ?c d (store_images below t ?c det ?d3)"
    unfolding store_images_def
    by (rule records_trans [OF _ records_trans [OF conjunct1 [OF one] conjunct1 [OF two]]])
  then show ?thesis unfolding write_detail_def Let_def .
qed

definition upsert_result :: "bool \<Rightarrow> time \<Rightarrow> int \<Rightarrow> dict \<Rightarrow> int \<Rightarrow> db \<Rightarrow> db \<Rightarrow> bool" where
  "upsert_result m t p raw c d d' \<longleftrightarrow>
     (\<exists>x. get_car d' c = Some x \<and> written_car t raw (car_by_encar d (py_str (dget raw ''canonical_car_id''))) x) \<and>
     (\<exists>l. get_project_car d' p c = Some l \<and>
        seen_link m t (case get_project_car d p c of Some l0 \<Rightarrow> l0 | None \<Rightarrow> new_link p c t) l) \<and>
     (\<forall>i. i \<noteq> c \<longrightarrow> get_car d' i = get_car d i) \<and>
     (\<forall>q e. (q, e) \<noteq> (p, c) \<longrightarrow> get_project_car d' q e = get_project_car d q e) \<and>
     records_of_others c d d'"

lemma upsert_resultI:
  assumes "before = car_by_encar d (py_str (dget raw ''canonical_car_id''))"
    and "c_canonical_encar_id x = py_str (dget raw ''canonical_car_id'')"
    and "c_current_price x = old_price_of before" "\<not> c_excluded x"
    and "c_status x = (case before of Some c \<Rightarrow> c_status c | None \<Rightarrow> ''NEW'')"
    and d': "d' = write_detail below t m p s before x (merge_reliable_detail (old_details_of before) raw) d1"
    and "get_car d1 (c_id x) = Some x"
    and "\<And>i. i \<noteq> c_id x \<Longrightarrow> get_car d1 i = get_car d i"
    and "\<And>q e. get_project_car d1 q e = get_project_car d q e"
    and "\<And>l. get_project_car d p (c_id x) = Some l \<Longrightarrow> pc_tracking_enabled l"
    and "image_ids_distinct d1" "records_of_others (c_id x) d d1"
  shows "upsert_result m t p raw (c_id x) d d'"
  unfolding upsert_result_def assms(1) [symmetric]
proof (intro conjI allI impI)
  show "\<exists>y. get_car d' (c_id x) = Some y \<and> written_car t raw before y"
    unfolding d' get_car_write_detail using assms(7) write_car_written [OF assms(2-5)] by fastforce
  show "\<exists>l. get_project_car d' p (c_id x) = Some l \<and>
      seen_link m t (case get_project_car d p (c_id x) of Some l0 \<Rightarrow> l0 | None \<Rightarrow> new_link p (c_id x) t) l"
    unfolding d' get_link_write_detail using assms(9,10)
    by (auto intro!: touch_link_seen split: option.split)
  show "get_car d' i = get_car d i" if "i \<noteq> c_id x" for i
    unfolding d' get_car_write_detail using that assms(8) by (simp add: option.map_ident)
  show "get_project_car d' q e = get_project_car d q e" if "(q, e) \<noteq> (p, c_id x)" for q e
    unfolding d' get_link_write_detail using that assms(9) by auto
  show "records_of_others (c_id x) d d'"
    unfolding d' by (rule records_trans [OF assms(12) records_write_detail [OF assms(11)]])
qed

lemma upsert_detail_effect:
  assumes run: "upsert_detail below t m p raw d = (Inr c, d')"
    and ok: "catalog_ok d" and links: "no_dangling d" and images: "image_ids_distinct d"
  shows "upsert_result m t p raw c d d'"
proof (rule upsert_detail_cases [of below t m p raw d])
  fix e assume "upsert_detail below t m p raw d = (Inl e, d)"
  with run show ?thesis by simp
next
  fix x
  assume x: "car_by_encar d (py_str (dget raw ''canonical_car_id'')) = Some x" "\<not> c_excluded x"
    and tr: "\<forall>l. get_project_car d p (c_id x) = Some l \<longrightarrow> pc_tracking_enabled l"
    and eq: "upsert_detail below t m p raw d = (Inr (c_id x), write_detail below t m p
      (source_id_of raw) (Some x) x (merge_reliable_detail (details_of x) raw) d)"
  have "upsert_result m t p raw (c_id x) d d'"
  proof (rule upsert_resultI [OF x(1) [symmetric]])
    show "d' = write_detail below t m p (source_id_of raw) (Some x) x
        (merge_reliable_detail (old_details_of (Some x)) raw) d"
      using run eq by (simp add: old_details_of_def)
  qed (use car_by_encar_Some [OF x(1)] get_car_member [OF ok] tr x(2) images in \<open>auto simp: old_price_of_def\<close>)
  with run eq show ?thesis by simp
next
  fix x det
  assume none: "car_by_encar d (py_str (dget raw ''canonical_car_id'')) = None"
    and det: "det = merge_reliable_detail [] raw"
    and x: "x = new_car d (py_str (dget raw ''canonical_car_id'')) det t"
    and eq: "upsert_detail below t m p raw d = (Inr (c_id x), write_detail below t m p
      (source_id_of raw) None x det (add_event t (c_id x) ''NEW'' None None det (d\<lparr>cars := cars d @ [x]\<rparr>)))"
  let ?d1 = "add_event t (c_id x) ''NEW'' None None det (d\<lparr>cars := cars d @ [x]\<rparr>)"
  have written: "d' = write_detail below t m p (source_id_of raw) None x det ?d1"
    using run eq by (metis Pair_inject)
  have cars1: "get_car ?d1 i = get_car (d\<lparr>cars := cars d @ [x]\<rparr>) i" for i
    by (simp add: get_car_def)
  have fresh: "get_car d (c_id x) = None" unfolding x by (simp add: get_car_fresh)
  have unlinked: "get_project_car d q (c_id x) = None" for q
    using fresh links unfolding get_car_def get_project_car_def first_row_None no_dangling_def by metis
  have "upsert_result m t p raw (c_id x) d d'"
  proof (rule upsert_resultI [OF none [symmetric]])
    show "d' = write_detail below t m p (source_id_of raw) None x
        (merge_reliable_detail (old_details_of None) raw) ?d1"
      unfolding old_details_of_def option.case det [symmetric] by (rule written)
    show "get_project_car ?d1 q e = get_project_car d q e" for q e
      by (rule get_links_eq) simp
    show "get_car ?d1 (c_id x) = Some x" by (simp add: cars1 get_car_append fresh)
    show "get_car ?d1 i = get_car d i" if "i \<noteq> c_id x" for i
      using that by (simp add: cars1 get_car_append split: option.split)
    show "image_ids_distinct ?d1" using images by (simp add: image_ids_distinct_def)
    show "records_of_others (c_id x) d ?d1" by (simp add: records_of_others_def add_event_def)
  qed (use unlinked in \<open>simp_all add: x old_price_of_def\<close>)
  with run eq show ?thesis by simp
qed

lemma upsert_keeps_identity:
  assumes "upsert_detail below t m p raw d = (Inr c, d')"
  shows "sold_detail raw \<or> source_id_of raw = py_str (dget raw ''canonical_car_id'')"
  using assms by (auto simp: upsert_detail_def Let_def split: if_splits)

text \<open>C15: an accepted reading is written to exactly one listing, the one whose identifier the page shows
  (for a live page also the one that was asked for): its details are the merged reading, its status
  follows from the reading, the prices and the material changes, its price is the verified one if there
  is one and else the old one. Its link to the project is the one it had, or a new one, seen now and after a
  search hit found with no missed scans. Every other car and link is unchanged, records (prices,
  snapshots, events, images) are added for this car only, every other table is as it was, and
  identifiers stay unique.\<close>

theorem upsert_writes_one_listing:
  assumes "upsert_detail below t m p raw d = (Inr c, d')" and "catalog_ok d" and "no_dangling d"
    and "image_ids_distinct d"
  shows "upsert_result m t p raw c d d' \<and> catalog_ok d' \<and>
    d' = d\<lparr>cars := cars d', project_cars := project_cars d', price_history := price_history d',
      car_snapshots := car_snapshots d', car_events := car_events d', car_images := car_images d'\<rparr> \<and>
    (sold_detail raw \<or> source_id_of raw = py_str (dget raw ''canonical_car_id''))"
  using upsert_detail_effect [OF assms] upsert_keeps_identity [OF assms(1)] assms(1)
    upsert.catalog_kept [OF assms(2), of below t m p raw]
    rest_update [OF upsert.rest_kept [of below t m p raw d]] by simp

text \<open>C16: a reading is refused, without any change, exactly when it carries no identifier, when a live page
  shows another listing than the one asked for, or when the car was excluded or removed from this
  project.\<close>

theorem upsert_refusals:
  "(fst (upsert_detail below t m p raw d) = Inl KeyError \<longleftrightarrow> \<not> has_key raw ''canonical_car_id'') \<and>
   (fst (upsert_detail below t m p raw d) = Inl ValueError \<longleftrightarrow> has_key raw ''canonical_car_id'' \<and>
      \<not> sold_detail raw \<and> source_id_of raw \<noteq> py_str (dget raw ''canonical_car_id'')) \<and>
   (fst (upsert_detail below t m p raw d) = Inl TrackingDisabledError \<longleftrightarrow>
      fst (upsert_detail below t m p raw d) \<noteq> Inl KeyError \<and> fst (upsert_detail below t m p raw d) \<noteq> Inl ValueError \<and>
      (\<exists>x. car_by_encar d (py_str (dget raw ''canonical_car_id'')) = Some x \<and>
         (c_excluded x \<or> (\<exists>l. get_project_car d p (c_id x) = Some l \<and> \<not> pc_tracking_enabled l)))) \<and>
   (case upsert_detail below t m p raw d of (Inl e, d') \<Rightarrow> d' = d | (Inr c, d') \<Rightarrow> True)"
  by (auto simp: upsert_detail_def Let_def split: option.splits)

section \<open>The price history\<close>

definition price_step :: "time \<Rightarrow> int \<Rightarrow> string \<Rightarrow> dict \<Rightarrow> int option \<Rightarrow> db \<Rightarrow> car_record list" where
  "price_step t c s detail old_price d =
     (case authoritative_price detail of
        None \<Rightarrow> []
      | Some pr \<Rightarrow> if pr = 0 \<or> Some pr = old_price then []
          else [new_record (price_history d) c ''PRICE'' (price_payload s detail pr) t])"

lemma price_history_write_detail:
  "price_history (write_detail below t m p s before car det d) =
     price_history d @ price_step t (c_id car) s det (old_price_of before) d"
  by (simp add: write_detail_def record_observation_def store_images_def Let_def record_price_def
      price_step_def add_price_def split: option.split)

text \<open>C20: the price history grows by exactly the verified price changes: an accepted reading appends one
  entry with its price when that price is verified, not zero and not the one the car had, and
  nothing otherwise; older entries never change.\<close>

theorem price_history_appends:
  assumes "upsert_detail below t m p raw d = (Inr c, d')"
  shows "price_history d' = price_history d @
    price_step t c (source_id_of raw)
      (merge_reliable_detail (old_details_of (car_by_encar d (py_str (dget raw ''canonical_car_id'')))) raw)
      (old_price_of (car_by_encar d (py_str (dget raw ''canonical_car_id'')))) d"
proof (rule upsert_detail_cases [of below t m p raw d], goal_cases)
  case (1 e)
  then show ?case using assms by simp
next
  case (2 x)
  then show ?case using assms by (auto simp: price_history_write_detail old_details_of_def)
next
  case (3 x det)
  have "price_step t k s e o' (add_event t i ''NEW'' None None de (d\<lparr>cars := cs\<rparr>)) = price_step t k s e o' d"
    for k s e o' i de cs by (simp add: price_step_def split: option.split)
  moreover have "price_history (d\<lparr>cars := cs\<rparr>) = price_history d" for cs by simp
  ultimately show ?case
    using assms 3(2,3,5) by (auto simp: price_history_write_detail old_details_of_def 3(1))
qed

section \<open>Search misses\<close>

text \<open>The counter and the search status of a tracked link after a search.\<close>

definition missing_step :: "string set \<Rightarrow> bool \<Rightarrow> string set \<Rightarrow> project_car \<Rightarrow> car \<Rightarrow> int \<times> string" where
  "missing_step found success confirmed l c =
     (if c_canonical_encar_id c \<in> confirmed
      then (pc_consecutive_missing_scans l + 1, ''NOT_FOUND_IN_SEARCH'')
      else if \<not> success then (pc_consecutive_missing_scans l, if pc_search_status l = ''RELISTED'' then ''FOUND'' else pc_search_status l)
      else if c_canonical_encar_id c \<in> found then (0, ''FOUND'')
      else (pc_consecutive_missing_scans l + 1, ''NOT_FOUND_IN_SEARCH''))"

lemma absent_link_get:
  "get_project_car (snd (absent_link t p found su conf (l, c) st)) q e =
     map_option (\<lambda>x. if q = p \<and> e = c_id c
        then x\<lparr>pc_consecutive_missing_scans := fst (missing_step found su conf l c),
               pc_search_status := snd (missing_step found su conf l c)\<rparr> else x)
       (get_project_car (snd st) q e)"
proof -
  have "project_cars (snd (absent_link t p found su conf (l, c) st)) =
      project_cars (set_link p (c_id c) (fst (missing_step found su conf l c))
        (snd (missing_step found su conf l c)) (snd st))"
    by (auto simp: absent_link_def confirmed_absent_def searched_absent_def set_link_def Let_def
        missing_step_def apply_missing_def)
  note get_links_eq [OF this]
  then show ?thesis
    by (simp add: set_link_def get_project_car_update)
qed

lemma absent_fold_get:
  assumes "distinct (map (c_id \<circ> snd) ls)"
  shows "get_project_car (snd (foldl (\<lambda>st lc. absent_link t p found su conf lc st) st ls)) q e =
    map_option (\<lambda>x. case find (\<lambda>lc. q = p \<and> c_id (snd lc) = e) ls of None \<Rightarrow> x
       | Some (l, c) \<Rightarrow> x\<lparr>pc_consecutive_missing_scans := fst (missing_step found su conf l c),
                         pc_search_status := snd (missing_step found su conf l c)\<rparr>)
      (get_project_car (snd st) q e)"
  using assms
proof (induction ls arbitrary: st)
  case Nil
  then show ?case by (simp add: option.map_ident)
next
  case (Cons lc ls)
  obtain l c where lc: "lc = (l, c)" by (cases lc)
  have none: "find (\<lambda>lc. q = p \<and> c_id (snd lc) = e) ls = None" if "c_id c = e"
    using Cons.prems that lc by (auto simp: find_None_iff image_iff)
  show ?case
    using Cons.IH [of "absent_link t p found su conf lc st"] Cons.prems none
    by (auto simp: lc absent_link_get option.map_comp comp_def intro!: option.map_cong0)
qed

definition searched_links :: "db \<Rightarrow> int \<Rightarrow> (project_car \<times> car) list" where
  "searched_links d p = filter (\<lambda>(l, c). \<not> c_excluded c) (tracked_links d p)"

lemma searched_links_iff:
  "(l, c) \<in> set (searched_links d p) \<longleftrightarrow> l \<in> set (project_cars d) \<and> pc_project_id l = p \<and>
     pc_tracking_enabled l \<and> get_car d (pc_car_id l) = Some c \<and> \<not> c_excluded c"
  by (auto simp: searched_links_def tracked_links_def map_filter_iff split: option.splits if_splits)

lemma get_car_id: "get_car d i = Some c \<Longrightarrow> c_id c = i"
  by (auto simp: get_car_def dest: first_row_Some)

lemma link_unique:
  assumes "catalog_ok d" and "l \<in> set (project_cars d)" and "l' \<in> set (project_cars d)"
    and "link_key l = link_key l'"
  shows "l = l'"
  using assms by (auto simp: catalog_ok_def distinct_map inj_on_def)

lemma get_project_car_member:
  assumes "catalog_ok d" and "l \<in> set (project_cars d)"
  shows "get_project_car d (pc_project_id l) (pc_car_id l) = Some l"
proof -
  have "find (\<lambda>x. pc_project_id x = pc_project_id l \<and> pc_car_id x = pc_car_id l) (project_cars d) = Some l"
    by (rule find_unique [OF assms(2)])
      (use assms link_unique in \<open>auto simp: link_key_def\<close>)
  then show ?thesis by (simp add: get_project_car_def first_row_def)
qed

text \<open>The link and the car a search decides about.\<close>

definition searched_pair :: "db \<Rightarrow> int \<Rightarrow> int \<Rightarrow> (project_car \<times> car) option" where
  "searched_pair d p e =
     (case (get_project_car d p e, get_car d e) of
        (Some l, Some c) \<Rightarrow> if pc_tracking_enabled l \<and> \<not> c_excluded c then Some (l, c) else None
      | _ \<Rightarrow> None)"

lemma find_searched:
  assumes ok: "catalog_ok d"
  shows "find (\<lambda>lc. c_id (snd lc) = e) (searched_links d p) = searched_pair d p e"
proof (cases "searched_pair d p e")
  case None
  have "c_id c \<noteq> e" if "(l, c) \<in> set (searched_links d p)" for l c
  proof
    assume e: "c_id c = e"
    from that have l: "l \<in> set (project_cars d)" "pc_project_id l = p" "pc_tracking_enabled l"
      "get_car d (pc_car_id l) = Some c" "\<not> c_excluded c"
      by (auto simp: searched_links_iff)
    then have "pc_car_id l = e" using get_car_id e by metis
    with l None get_project_car_member [OF ok l(1)] show False
      by (simp add: searched_pair_def)
  qed
  with None show ?thesis by (force simp: find_None_iff)
next
  case (Some lc)
  then obtain l c where lc: "lc = (l, c)" "get_project_car d p e = Some l" "get_car d e = Some c"
    "pc_tracking_enabled l" "\<not> c_excluded c"
    by (auto simp: searched_pair_def split: option.splits if_splits)
  have "find (\<lambda>lc. c_id (snd lc) = e) (searched_links d p) = Some (l, c)"
  proof (rule find_unique)
    show "(l, c) \<in> set (searched_links d p)"
      using lc get_project_car_keys [OF lc(2)] by (simp add: searched_links_iff)
    show "c_id (snd (l, c)) = e" using get_car_id [OF lc(3)] by simp
    fix y assume y: "y \<in> set (searched_links d p)" "c_id (snd y) = e"
    obtain l' c' where y': "y = (l', c')" by (cases y)
    with y have l': "l' \<in> set (project_cars d)" "pc_project_id l' = p" "get_car d (pc_car_id l') = Some c'"
      by (auto simp: searched_links_iff)
    then have "pc_car_id l' = e" using get_car_id y y' by fastforce
    with l' lc get_project_car_member [OF ok l'(1)] show "y = (l, c)" by (simp add: y')
  qed
  with Some lc show ?thesis by simp
qed

lemma searched_distinct:
  assumes ok: "catalog_ok d"
  shows "distinct (map (c_id \<circ> snd) (searched_links d p))"
proof -
  have "distinct (map (link_key \<circ> fst) (searched_links d p))"
  proof -
    have "distinct (map link_key (map fst (List.map_filter (\<lambda>l. case get_car d (pc_car_id l) of
          None \<Rightarrow> None
        | Some c \<Rightarrow> if pc_project_id l = p \<and> pc_tracking_enabled l then Some (l, c) else None) ls)))"
      and "set (map fst (List.map_filter (\<lambda>l. case get_car d (pc_car_id l) of
          None \<Rightarrow> None
        | Some c \<Rightarrow> if pc_project_id l = p \<and> pc_tracking_enabled l then Some (l, c) else None) ls)) \<subseteq> set ls"
      if "distinct (map link_key ls)" for ls
      using that by (induction ls) (auto simp: List.map_filter_simps split: option.splits)
    then show ?thesis
      using ok by (simp add: catalog_ok_def searched_links_def tracked_links_def distinct_map_filter comp_def)
  qed
  moreover have "(c_id \<circ> snd) x = snd ((link_key \<circ> fst) x) \<and> fst ((link_key \<circ> fst) x) = p"
    if "x \<in> set (searched_links d p)" for x
  proof -
    obtain l c where x: "x = (l, c)" by (cases x)
    with that have "pc_project_id l = p" "get_car d (pc_car_id l) = Some c"
      by (auto simp: searched_links_iff)
    with x get_car_id show ?thesis by (simp add: link_key_def)
  qed
  ultimately show ?thesis
    unfolding distinct_map inj_on_def by (metis prod.collapse)
qed

lemma mark_absent_links:
  assumes "catalog_ok d"
  shows "get_project_car (snd (mark_absent t p found su conf d)) q e =
    map_option (\<lambda>x. case (if q = p then searched_pair d p e else None) of None \<Rightarrow> x
       | Some (l, c) \<Rightarrow> x\<lparr>pc_consecutive_missing_scans := fst (missing_step found su conf l c),
                         pc_search_status := snd (missing_step found su conf l c)\<rparr>)
      (get_project_car d q e)"
proof -
  have "find (\<lambda>lc. q = p \<and> c_id (snd lc) = e) (searched_links d p) =
      (if q = p then searched_pair d p e else None)"
    using find_searched [OF assms, of e p] by (simp add: find_None_iff)
  then show ?thesis
    using absent_fold_get [OF searched_distinct [OF assms, of p], of t p found su conf "([], d)" q e]
    by (simp add: mark_absent_def searched_links_def)
qed

lemma absent_fold_sold:
  assumes "x \<in> set (cars (snd (foldl (\<lambda>st lc. absent_link t p found su conf lc st) st ls)))"
    and "c_status x = ''SOLD''"
  shows "\<exists>y \<in> set (cars (snd st)). c_id y = c_id x \<and> c_canonical_encar_id y = c_canonical_encar_id x \<and>
    (c_status y = ''SOLD'' \<or> (\<exists>lc \<in> set ls. c_id (snd lc) = c_id x \<and> c_canonical_encar_id (snd lc) \<in> conf))"
  using assms
proof (induction ls arbitrary: st)
  case Nil
  then show ?case by auto
next
  case (Cons lc ls)
  then obtain y where y: "y \<in> set (cars (snd (absent_link t p found su conf lc st)))"
    "c_id y = c_id x" "c_canonical_encar_id y = c_canonical_encar_id x"
    "c_status y = ''SOLD'' \<or> (\<exists>lc \<in> set ls. c_id (snd lc) = c_id x \<and> c_canonical_encar_id (snd lc) \<in> conf)"
    by fastforce
  from y(1) obtain z where "z \<in> set (cars (snd st))" "c_id z = c_id y"
    "c_canonical_encar_id z = c_canonical_encar_id y"
    "c_status y = c_status z \<or> (c_id y = c_id (snd lc) \<and> c_canonical_encar_id (snd lc) \<in> conf)"
    by (auto simp: absent_link_cars set_update_where split: if_splits)
  with y show ?case by (intro bexI [of _ z]) auto
qed

lemma absent_link_events:
  "appends (\<lambda>e. cr_car_id e = c_id (snd lc) \<and> ce_project_id e = Some p)
     (car_events (snd st)) (car_events (snd (absent_link t p found su conf lc st)))"
  by (auto simp: absent_link_def confirmed_absent_def searched_absent_def set_link_def Let_def add_event_def
      appends_def update_car_def update_link_def)

lemma absent_link_other_tables:
  "price_history (snd (absent_link t p found su conf lc st)) = price_history (snd st)"
  "car_snapshots (snd (absent_link t p found su conf lc st)) = car_snapshots (snd st)"
  "car_images (snd (absent_link t p found su conf lc st)) = car_images (snd st)"
  by (auto simp: absent_link_def confirmed_absent_def searched_absent_def set_link_def Let_def add_event_def
      update_car_def update_link_def)

text \<open>The cars a search confirmed as sold.\<close>

definition confirmed_sale :: "(project_car \<times> car) list \<Rightarrow> string set \<Rightarrow> car \<Rightarrow> bool" where
  "confirmed_sale ls conf x \<longleftrightarrow> (\<exists>lc \<in> set ls. c_id (snd lc) = c_id x \<and> c_canonical_encar_id (snd lc) \<in> conf \<and>
     c_status (snd lc) \<noteq> ''SOLD'')"

lemma absent_fold_rows:
  "cars (snd (foldl (\<lambda>st lc. absent_link t p found su conf lc st) st ls)) =
     update_where (confirmed_sale ls conf) (\<lambda>c. c\<lparr>c_status := ''SOLD'', c_updated_at := whole_second t\<rparr>) (cars (snd st)) \<and>
   appends (\<lambda>e. ce_project_id e = Some p \<and> cr_car_id e \<in> c_id ` snd ` set ls) (car_events (snd st))
     (car_events (snd (foldl (\<lambda>st lc. absent_link t p found su conf lc st) st ls))) \<and>
   price_history (snd (foldl (\<lambda>st lc. absent_link t p found su conf lc st) st ls)) = price_history (snd st) \<and>
   car_snapshots (snd (foldl (\<lambda>st lc. absent_link t p found su conf lc st) st ls)) = car_snapshots (snd st) \<and>
   car_images (snd (foldl (\<lambda>st lc. absent_link t p found su conf lc st) st ls)) = car_images (snd st)"
proof (induction ls arbitrary: st)
  case Nil
  then show ?case by (simp add: confirmed_sale_def appends_def)
next
  case (Cons lc ls)
  let ?st = "absent_link t p found su conf lc st"
  have "update_where (confirmed_sale ls conf) (\<lambda>c. c\<lparr>c_status := ''SOLD'', c_updated_at := whole_second t\<rparr>) (cars (snd ?st)) =
      update_where (confirmed_sale (lc # ls) conf) (\<lambda>c. c\<lparr>c_status := ''SOLD'', c_updated_at := whole_second t\<rparr>) (cars (snd st))"
    by (auto simp: absent_link_cars update_where_def confirmed_sale_def)
  moreover have "appends (\<lambda>e. ce_project_id e = Some p \<and> cr_car_id e \<in> c_id ` snd ` set (lc # ls)) (car_events (snd st))
      (car_events (snd (foldl (\<lambda>st lc. absent_link t p found su conf lc st) ?st ls)))"
    by (rule appends_trans [OF appends_mono [OF absent_link_events [of lc p st t found su conf]]
          appends_mono [OF conjunct1 [OF conjunct2 [OF Cons.IH [of ?st]]]]]) auto
  ultimately show ?case using Cons.IH [of ?st] by (simp add: absent_link_other_tables)
qed

lemma confirmed_sale_iff:
  assumes "catalog_ok d" "x \<in> set (cars d)"
  shows "confirmed_sale (searched_links d p) conf x \<longleftrightarrow>
    searched_pair d p (c_id x) \<noteq> None \<and> c_canonical_encar_id x \<in> conf \<and> c_status x \<noteq> ''SOLD''"
proof -
  have one: "c = x" if "get_car d (c_id x) = Some c" for c
    using get_car_member [OF assms] that by simp
  show ?thesis
  proof
    assume "confirmed_sale (searched_links d p) conf x"
    then obtain l c where lc: "(l, c) \<in> set (searched_links d p)" "c_id c = c_id x" "c_canonical_encar_id c \<in> conf"
      "c_status c \<noteq> ''SOLD''" by (auto simp: confirmed_sale_def)
    then have "get_car d (c_id x) = Some c" using get_car_id by (fastforce simp: searched_links_iff)
    moreover have "find (\<lambda>lc. c_id (snd lc) = c_id x) (searched_links d p) \<noteq> None"
      using lc by (auto simp: find_None_iff)
    ultimately show "searched_pair d p (c_id x) \<noteq> None \<and> c_canonical_encar_id x \<in> conf \<and> c_status x \<noteq> ''SOLD''"
      using one lc find_searched [OF assms(1)] by metis
  next
    assume a: "searched_pair d p (c_id x) \<noteq> None \<and> c_canonical_encar_id x \<in> conf \<and> c_status x \<noteq> ''SOLD''"
    then have "find (\<lambda>lc. c_id (snd lc) = c_id x) (searched_links d p) \<noteq> None"
      by (simp add: find_searched [OF assms(1)])
    then obtain lc where lc: "lc \<in> set (searched_links d p)" "c_id (snd lc) = c_id x"
      by (auto simp: find_None_iff)
    obtain l c where "lc = (l, c)" by (cases lc)
    with lc have "get_car d (c_id x) = Some (snd lc)"
      using get_car_id by (fastforce simp: searched_links_iff)
    then show "confirmed_sale (searched_links d p) conf x" using lc a one by (auto simp: confirmed_sale_def)
  qed
qed

text \<open>C17: missing from a search is not a sale. A finished search moves exactly the tracked links of its
  project to cars that are not excluded: a hit resets the misses, a miss counts one more and only
  leaves the search result. A car becomes sold exactly when it has such a link and its sale was
  confirmed, and the row is dated then; nothing else about any car changes. Only events of the project
  on such cars are added, and all other tables are as they were.\<close>

theorem absence_is_not_a_sale:
  assumes "catalog_ok d"
  shows "let d' = snd (mark_absent t p found su conf d) in
    cars d' = map (\<lambda>x. if searched_pair d p (c_id x) \<noteq> None \<and> c_canonical_encar_id x \<in> conf \<and> c_status x \<noteq> ''SOLD''
                       then x\<lparr>c_status := ''SOLD'', c_updated_at := whole_second t\<rparr> else x) (cars d) \<and>
    (\<forall>q e. get_project_car d' q e =
      map_option (\<lambda>l. case (if q = p then searched_pair d p e else None) of None \<Rightarrow> l
         | Some (l0, c) \<Rightarrow> l\<lparr>pc_consecutive_missing_scans := fst (missing_step found su conf l0 c),
                            pc_search_status := snd (missing_step found su conf l0 c)\<rparr>)
        (get_project_car d q e)) \<and>
    appends (\<lambda>e. ce_project_id e = Some p \<and> searched_pair d p (cr_car_id e) \<noteq> None) (car_events d) (car_events d') \<and>
    d' = d\<lparr>cars := cars d', project_cars := project_cars d', car_events := car_events d'\<rparr> \<and> catalog_ok d'"
proof -
  let ?d' = "snd (mark_absent t p found su conf d)"
  have d': "?d' = snd (foldl (\<lambda>st lc. absent_link t p found su conf lc st) ([], d) (searched_links d p))"
    by (simp add: mark_absent_def searched_links_def)
  note rows = absent_fold_rows [of t p found su conf "([], d)" "searched_links d p", folded d', simplified]
  have "cars ?d' = map (\<lambda>x. if searched_pair d p (c_id x) \<noteq> None \<and> c_canonical_encar_id x \<in> conf \<and> c_status x \<noteq> ''SOLD''
      then x\<lparr>c_status := ''SOLD'', c_updated_at := whole_second t\<rparr> else x) (cars d)"
    unfolding conjunct1 [OF rows] update_where_def
    by (rule map_cong [OF refl]) (auto simp: confirmed_sale_iff [OF assms])
  moreover have "appends (\<lambda>e. ce_project_id e = Some p \<and> searched_pair d p (cr_car_id e) \<noteq> None) (car_events d) (car_events ?d')"
  proof (rule appends_mono [OF conjunct1 [OF conjunct2 [OF rows]]])
    fix e :: car_event
    assume "ce_project_id e = Some p \<and> cr_car_id e \<in> c_id ` snd ` set (searched_links d p)"
    then obtain lc where lc: "lc \<in> set (searched_links d p)" "c_id (snd lc) = cr_car_id e" and pe: "ce_project_id e = Some p"
      by auto
    from lc have "find (\<lambda>lc. c_id (snd lc) = cr_car_id e) (searched_links d p) \<noteq> None"
      unfolding find_None_iff by blast
    with pe show "ce_project_id e = Some p \<and> searched_pair d p (cr_car_id e) \<noteq> None"
      by (simp add: find_searched [OF assms])
  qed
  moreover have "?d' = d\<lparr>cars := cars ?d', project_cars := project_cars ?d', car_events := car_events ?d'\<rparr>"
    using rest_update [OF absent.rest_kept [of t p found su conf d]] rows by simp
  ultimately show ?thesis
    using mark_absent_links [OF assms] absent.catalog_kept [OF assms] by (simp add: Let_def)
qed

section \<open>Witnesses\<close>

lemma sold_page_keeps_profile_witness:
  "dget (merge_reliable_detail [(''vin'', JStr ''V'')] [(''sold'', JBool True), (''vin'', JNull)]) ''vin'' = JStr ''V''"
  using sold_page_keeps_profile [of "[(''sold'', JBool True), (''vin'', JNull)]" "[(''vin'', JStr ''V'')]" "''vin''"]
  by (simp add: sold_detail_def SOLD_PAGE_FIELDS_def)

lemma live_page_keeps_verified_witness:
  "dget (merge_reliable_detail [(''vin'', JStr ''V'')] [(''vin'', JNull)]) ''vin'' = JStr ''V''"
  using live_page_keeps_verified [of "[(''vin'', JNull)]" "[(''vin'', JStr ''V'')]"]
  by (simp add: sold_detail_def STABLE_FIELDS_def missing_value_def)

definition sample_market :: db where
  "sample_market = empty_db\<lparr>users := [sample_user 7 USER ACTIVE], projects := [sample_project 4 7],
     cars := [sample_car 1 ''101'' ''NEW'', sample_car 2 ''102'' ''SOLD''],
     project_cars := [sample_link 4 1 ''FOUND'', sample_link 4 2 ''NOT_FOUND_IN_SEARCH'']\<rparr>"

lemma sample_market_ok: "catalog_ok sample_market" "no_dangling sample_market" "image_ids_distinct sample_market"
  by (simp_all add: sample_market_def sample_defs catalog_ok_def no_dangling_def link_key_def empty_db_def
      image_ids_distinct_def)

definition sample_reading :: dict where
  "sample_reading = [(''canonical_car_id'', JStr ''101''), (''price_source'', JStr ''DETAIL_PRIMARY''),
     (''price_krw'', JInt 90)]"

lemma sample_reading_accepted:
  "\<exists>d'. upsert_detail below 9 True 4 sample_reading sample_market = (Inr 1, d')"
proof -
  have "car_by_encar sample_market ''101'' = Some (sample_car 1 ''101'' ''NEW'')"
    "get_project_car sample_market 4 1 = Some (sample_link 4 1 ''FOUND'')"
    "py_str (dget sample_reading ''canonical_car_id'') = ''101''" "source_id_of sample_reading = ''101''"
    by (simp_all add: car_by_encar_def get_project_car_def sample_market_def sample_defs first_row_def
        sample_reading_def source_id_of_def)
  then show ?thesis
    by (simp add: upsert_detail_def Let_def) (simp add: sample_car_def sample_link_def sample_reading_def)
qed

lemma upsert_writes_one_listing_witness:
  "\<exists>d' x. upsert_detail (\<lambda>_. None) 9 True 4 sample_reading sample_market = (Inr 1, d') \<and>
     get_car d' 1 = Some x \<and> c_canonical_encar_id x = ''101'' \<and> get_car d' 2 = get_car sample_market 2"
proof -
  obtain d' where d': "upsert_detail (\<lambda>_. None) 9 True 4 sample_reading sample_market = (Inr 1, d')"
    using sample_reading_accepted by blast
  have "py_str (dget sample_reading ''canonical_car_id'') = ''101''" by (simp add: sample_reading_def)
  then show ?thesis
    using upsert_writes_one_listing [OF d' sample_market_ok] d'
    by (auto simp: upsert_result_def written_car_def Let_def)
qed

lemma price_history_appends_witness:
  "\<exists>d'. upsert_detail (\<lambda>_. None) 9 True 4 sample_reading sample_market = (Inr 1, d') \<and>
     length (price_history d') = 1"
proof -
  obtain d' where d': "upsert_detail (\<lambda>_. None) 9 True 4 sample_reading sample_market = (Inr 1, d')"
    using sample_reading_accepted by blast
  let ?det = "merge_reliable_detail [] sample_reading"
  have before: "car_by_encar sample_market (py_str (dget sample_reading ''canonical_car_id'')) =
      Some (sample_car 1 ''101'' ''NEW'')"
    by (simp add: car_by_encar_def sample_market_def sample_defs first_row_def sample_reading_def)
  have "dget ?det ''price_source'' = JStr ''DETAIL_PRIMARY''" "dget ?det ''price_krw'' = JInt 90"
    by (simp_all add: merge_reliable_detail_def merge_live_page_def Let_def sample_reading_def
        sold_detail_def dget_keep_stable dget_dmerge STABLE_FIELDS_def)
  then have "authoritative_price ?det = Some 90"
    by (simp add: authoritative_price_def)
  then show ?thesis
    using price_history_appends [OF d'] d' before
    by (auto simp: price_step_def old_details_of_def old_price_of_def details_of_def sample_car_def
        sample_market_def empty_db_def)
qed

lemma absence_is_not_a_sale_witness:
  "(\<exists>l. get_project_car (snd (mark_absent 9 4 {} True {} sample_market)) 4 1 = Some l \<and>
     pc_search_status l = ''NOT_FOUND_IN_SEARCH'' \<and> pc_consecutive_missing_scans l = 1) \<and>
   map c_status (cars (snd (mark_absent 9 4 {} True {} sample_market))) = [''NEW'', ''SOLD'']"
proof -
  have "searched_pair sample_market 4 1 = Some (sample_link 4 1 ''FOUND'', sample_car 1 ''101'' ''NEW'')"
    "get_project_car sample_market 4 1 = Some (sample_link 4 1 ''FOUND'')"
    by (simp_all add: searched_pair_def get_project_car_def get_car_def sample_market_def sample_defs first_row_def)
  then show ?thesis
    using absence_is_not_a_sale [OF sample_market_ok(1), of 9 4 "{}" True "{}"]
    by (simp add: missing_step_def Let_def) (simp add: sample_car_def sample_link_def sample_market_def)
qed

end
