(* ===== verification/ExternalLinks.thy ===== *)
theory ExternalLinks
  imports StoragePaths
begin

text \<open>
  \<^verbatim>\<open>backend/app/external_links.py\<close>: which links the application opens in the system browser. The parts
  of \<^verbatim>\<open>urllib.parse.urlparse\<close> it uses are modelled on byte strings: the scheme, the network location up
  to the first slash, question mark or hash, and its user, host and port. A location with brackets (an
  IPv6 address) is refused at once: Python either refuses it or gives a host that is not in the list.
\<close>

definition lower_char :: "char \<Rightarrow> char" where
  "lower_char c = (let n = of_char c :: nat in if 65 \<le> n \<and> n \<le> 90 then char_of (n + 32) else c)"

definition lower :: "string \<Rightarrow> string" where
  "lower = map lower_char"

definition is_alpha :: "char \<Rightarrow> bool" where
  "is_alpha c = (let n = of_char c :: nat in (65 \<le> n \<and> n \<le> 90) \<or> (97 \<le> n \<and> n \<le> 122))"

definition is_digit :: "char \<Rightarrow> bool" where
  "is_digit c = (let n = of_char c :: nat in 48 \<le> n \<and> n \<le> 57)"

definition scheme_char :: "char \<Rightarrow> bool" where
  "scheme_char c \<longleftrightarrow> is_alpha c \<or> is_digit c \<or> c \<in> set ''+-.''"

text \<open>\<^verbatim>\<open>s.partition(c)\<close> without the separator: the part before the first \<open>c\<close>, and the part after it if
  there is one.\<close>

definition partition_at :: "char \<Rightarrow> string \<Rightarrow> string \<times> string option" where
  "partition_at c s =
     (takeWhile (\<lambda>x. x \<noteq> c) s,
      case dropWhile (\<lambda>x. x \<noteq> c) s of [] \<Rightarrow> None | _ # r \<Rightarrow> Some r)"

definition rpartition_at :: "char \<Rightarrow> string \<Rightarrow> string option \<times> string" where
  "rpartition_at c s =
     (case partition_at c (rev s) of (b, a) \<Rightarrow> (map_option rev a, rev b))"

definition clean_url :: "string \<Rightarrow> string" where
  "clean_url u = filter (\<lambda>c. (of_char c :: nat) \<notin> {9, 10, 13})
     (dropWhile (\<lambda>c. (of_char c :: nat) \<le> 32) u)"

definition split_scheme :: "string \<Rightarrow> string \<times> string" where
  "split_scheme u =
     (case partition_at (CHR '':'') u of
        (s, Some r) \<Rightarrow> if s \<noteq> [] \<and> is_alpha (hd s) \<and> list_all scheme_char s then (lower s, r) else ([], u)
      | _ \<Rightarrow> ([], u))"

definition split_netloc :: "string \<Rightarrow> string" where
  "split_netloc u =
     (if starts_with ''//'' u then takeWhile (\<lambda>c. c \<notin> set ''/?#'') (drop 2 u) else [])"

record url_parts =
  up_scheme :: string
  up_username :: "string option"
  up_password :: "string option"
  up_host :: string
  up_port :: "string option"

definition parse_url :: "string \<Rightarrow> url_parts option" where
  "parse_url value =
     (let (scheme, r) = split_scheme (clean_url value);
          netloc = split_netloc r;
          (userinfo, hostinfo) = rpartition_at (CHR ''@'') netloc;
          (host, port) = partition_at (CHR '':'') hostinfo
      in if set ''[]'' \<inter> set netloc \<noteq> {} then None
         else Some \<lparr>up_scheme = scheme,
           up_username = map_option (\<lambda>i. fst (partition_at (CHR '':'') i)) userinfo,
           up_password = (case userinfo of None \<Rightarrow> None | Some i \<Rightarrow> snd (partition_at (CHR '':'') i)),
           up_host = lower host,
           up_port = (case port of None \<Rightarrow> None | Some p \<Rightarrow> if p = [] then None else Some p)\<rparr>)"

definition ends_with :: "string \<Rightarrow> string \<Rightarrow> bool" where
  "ends_with p s \<longleftrightarrow> starts_with (rev p) (rev s)"

definition TELEGRAM_HOSTS :: "string list" where
  "TELEGRAM_HOSTS = [''t.me'', ''www.t.me'', ''telegram.me'', ''www.telegram.me'']"

text \<open>\<^verbatim>\<open>int(port)\<close> of a string of digits.\<close>

definition read_nat :: "string \<Rightarrow> int" where
  "read_nat s = foldl (\<lambda>n c. 10 * n + (of_char c - 48)) 0 s"

definition allowed_host :: "string \<Rightarrow> bool" where
  "allowed_host h \<longleftrightarrow> h = ''encar.com'' \<or> ends_with ''.encar.com'' h \<or> h \<in> set TELEGRAM_HOSTS"

definition allowed_port :: "string option \<Rightarrow> bool" where
  "allowed_port p =
     (case p of None \<Rightarrow> True | Some s \<Rightarrow> list_all is_digit s \<and> read_nat s \<in> {80, 443})"

text \<open>\<open>None\<close> is the \<^verbatim>\<open>ValueError\<close>.\<close>

definition validated_external_url :: "string \<Rightarrow> string option" where
  "validated_external_url value =
     (let url = strip value
      in case parse_url url of
           None \<Rightarrow> None
         | Some u \<Rightarrow>
             if up_scheme u \<notin> {''http'', ''https''} \<or> \<not> allowed_host (up_host u) \<or>
                up_username u \<noteq> None \<or> up_password u \<noteq> None
             then None
             else if \<not> allowed_port (up_port u) then None
             else Some url)"

lemma partition_at_None: "partition_at c s = (b, None) \<Longrightarrow> c \<notin> set s \<and> b = s"
proof -
  assume "partition_at c s = (b, None)"
  then have d: "dropWhile (\<lambda>x. x \<noteq> c) s = []" and b: "b = takeWhile (\<lambda>x. x \<noteq> c) s"
    by (simp_all add: partition_at_def split: list.splits)
  from d have "\<forall>x \<in> set s. x \<noteq> c" by (simp add: dropWhile_eq_Nil_conv)
  with b show ?thesis by auto
qed

lemma rpartition_at_None: "rpartition_at c s = (None, h) \<Longrightarrow> c \<notin> set s \<and> h = s"
  using partition_at_None [of c "rev s"]
  by (cases "partition_at c (rev s)") (auto simp: rpartition_at_def)

text \<open>C30: an accepted link cannot lead elsewhere: whatever follows the scheme, its network location
  carries no user part, and up to an optional standard port it is a host of the list (or a
  subdomain of encar.com).\<close>

theorem accepted_link_host:
  assumes "validated_external_url value = Some url"
  shows "\<exists>scheme r. split_scheme (clean_url (strip value)) = (scheme, r) \<and> url = strip value \<and>
     scheme \<in> {''http'', ''https''} \<and> CHR ''@'' \<notin> set (split_netloc r) \<and>
     allowed_host (lower (takeWhile (\<lambda>x. x \<noteq> CHR '':'') (split_netloc r)))"
proof -
  obtain scheme r where sr: "split_scheme (clean_url (strip value)) = (scheme, r)"
    by fastforce
  obtain ui hi where ui: "rpartition_at (CHR ''@'') (split_netloc r) = (ui, hi)"
    by fastforce
  have all: "ui = None" "url = strip value" "scheme \<in> {''http'', ''https''}"
    "allowed_host (lower (fst (partition_at (CHR '':'') hi)))"
    using assms sr ui
    by (auto simp: validated_external_url_def parse_url_def Let_def split: if_splits prod.splits)
  then have "CHR ''@'' \<notin> set (split_netloc r)" "hi = split_netloc r"
    using rpartition_at_None [of "CHR ''@''" "split_netloc r" hi] ui by simp_all
  with all sr show ?thesis by (auto simp: partition_at_def)
qed

lemma accepted_link_host_witness:
  "validated_external_url '' https://www.encar.com/dc/1 '' = Some ''https://www.encar.com/dc/1'' \<and>
   allowed_host (lower (takeWhile (\<lambda>x. x \<noteq> CHR '':'') ''www.encar.com''))"
proof -
  have r: "validated_external_url '' https://www.encar.com/dc/1 '' = Some ''https://www.encar.com/dc/1''"
    by code_simp
  have s: "split_scheme (clean_url (strip '' https://www.encar.com/dc/1 '')) = (''https'', ''//www.encar.com/dc/1'')"
    "split_netloc ''//www.encar.com/dc/1'' = ''www.encar.com''"
    by code_simp+
  from accepted_link_host [OF r] s r show ?thesis by auto
qed

end
