(* ===== verification/SearchPages.thy ===== *)
theory SearchPages
  imports PyStd
begin

text \<open>
  Procedures that may raise: a state-exception type with explicit sequencing, used by everything the
  worker runs, and \<^verbatim>\<open>collect_search_pages\<close> of \<^verbatim>\<open>backend/app/scanner.py\<close>, the loop that reads the result
  pages of a search. The reading of one page (\<^verbatim>\<open>_collect_search_page\<close> with its browser, given the page's
  URL) is the parameter \<open>read\<close>.
\<close>

section \<open>Procedures with exceptions\<close>

text \<open>\<^verbatim>\<open>ScanCancelled\<close>; a \<^verbatim>\<open>ScanError\<close> with its class, code and message; any other exception with its class,
  the \<^verbatim>\<open>code\<close> attribute if it has a string there, and its message.\<close>

datatype scan_exc =
    ScanCancelled
  | ScanError string string string
  | OtherError string "string option" string

type_synonym ('s, 'a) proc = "'s \<Rightarrow> (scan_exc + 'a) \<times> 's"

definition ret :: "'a \<Rightarrow> ('s, 'a) proc" where
  "ret a s = (Inr a, s)"

definition throw :: "scan_exc \<Rightarrow> ('s, 'a) proc" where
  "throw e s = (Inl e, s)"

definition bind :: "('s, 'a) proc \<Rightarrow> ('a \<Rightarrow> ('s, 'b) proc) \<Rightarrow> ('s, 'b) proc" where
  "bind m k s = (case m s of (Inl e, s') \<Rightarrow> (Inl e, s') | (Inr a, s') \<Rightarrow> k a s')"

definition seq :: "('s, unit) proc \<Rightarrow> ('s, 'a) proc \<Rightarrow> ('s, 'a) proc" where
  "seq m k = bind m (\<lambda>_. k)"

definition block :: "('s, unit) proc list \<Rightarrow> ('s, unit) proc" where
  "block ms = foldr seq ms (ret ())"

definition update :: "('s \<Rightarrow> 's) \<Rightarrow> ('s, unit) proc" where
  "update f s = (Inr (), f s)"

definition asks :: "('s \<Rightarrow> ('s, 'a) proc) \<Rightarrow> ('s, 'a) proc" where
  "asks k s = k s s"

definition lift :: "scan_exc + 'a \<Rightarrow> ('s, 'a) proc" where
  "lift r s = (r, s)"

definition handle :: "('s, 'a) proc \<Rightarrow> (scan_exc \<Rightarrow> ('s, 'a) proc) \<Rightarrow> ('s, 'a) proc" where
  "handle m h s = (case m s of (Inl e, s') \<Rightarrow> h e s' | (Inr a, s') \<Rightarrow> (Inr a, s'))"

definition only_if :: "bool \<Rightarrow> ('s, unit) proc \<Rightarrow> ('s, unit) proc" where
  "only_if b m = (if b then m else ret ())"

primrec for_each :: "('a \<Rightarrow> ('s, unit) proc) \<Rightarrow> 'a list \<Rightarrow> ('s, unit) proc" where
  "for_each f [] = ret ()"
| "for_each f (x # xs) = seq (f x) (for_each f xs)"

lemma bind_ret [simp]: "bind (ret a) k = k a"
  by (simp add: fun_eq_iff bind_def ret_def)

lemma seq_ret [simp]: "seq (ret u) k = k"
  by (simp add: seq_def)

lemma fst_ret [simp]: "fst (ret a s) = Inr a"
  by (simp add: ret_def)

lemma fst_throw [simp]: "fst (throw e s) = Inl e"
  by (simp add: throw_def)

text \<open>What every run of a procedure keeps, whether it returns or raises.\<close>

definition keeps :: "('s \<Rightarrow> bool) \<Rightarrow> ('s, 'a) proc \<Rightarrow> bool" where
  "keeps P m \<longleftrightarrow> (\<forall>s. P s \<longrightarrow> P (snd (m s)))"

named_theorems keeps_intros \<open>procedures that keep an invariant\<close>

lemma keepsD: "keeps P m \<Longrightarrow> P s \<Longrightarrow> P (snd (m s))"
  by (simp add: keeps_def)

lemma keeps_ret [keeps_intros]: "keeps P (ret a)"
  by (simp add: keeps_def ret_def)

lemma keeps_throw [keeps_intros]: "keeps P (throw e)"
  by (simp add: keeps_def throw_def)

lemma keeps_lift [keeps_intros]: "keeps P (lift r)"
  by (simp add: keeps_def lift_def)

lemma keeps_bind [keeps_intros]: "keeps P m \<Longrightarrow> (\<And>a. keeps P (k a)) \<Longrightarrow> keeps P (bind m k)"
  by (fastforce simp: keeps_def bind_def split: prod.split sum.split)

lemma keeps_seq [keeps_intros]: "keeps P m \<Longrightarrow> keeps P k \<Longrightarrow> keeps P (seq m k)"
  by (simp add: seq_def keeps_bind)

lemma keeps_block [keeps_intros]: "(\<And>m. m \<in> set ms \<Longrightarrow> keeps P m) \<Longrightarrow> keeps P (block ms)"
  by (induction ms) (simp_all add: block_def keeps_ret keeps_seq)

lemma keeps_update: "(\<And>s. P s \<Longrightarrow> P (f s)) \<Longrightarrow> keeps P (update f)"
  by (simp add: keeps_def update_def)

lemma keeps_handle [keeps_intros]: "keeps P m \<Longrightarrow> (\<And>e. keeps P (h e)) \<Longrightarrow> keeps P (handle m h)"
  by (fastforce simp: keeps_def handle_def split: prod.split sum.split)

lemma keeps_only_if [keeps_intros]: "keeps P m \<Longrightarrow> keeps P (only_if b m)"
  by (simp add: only_if_def keeps_ret)

lemma keeps_for_each [keeps_intros]: "(\<And>x. keeps P (f x)) \<Longrightarrow> keeps P (for_each f xs)"
  by (induction xs) (simp_all add: keeps_ret keeps_seq)

lemma keeps_if [keeps_intros]: "keeps P m \<Longrightarrow> keeps P n \<Longrightarrow> keeps P (if b then m else n)"
  by simp

text \<open>A procedure that was chosen by looking at the state runs from that very state.\<close>

definition keeps_from :: "('s \<Rightarrow> bool) \<Rightarrow> 's \<Rightarrow> ('s, 'a) proc \<Rightarrow> bool" where
  "keeps_from P s m \<longleftrightarrow> P (snd (m s))"

lemma keeps_asks [keeps_intros]: "(\<And>s. P s \<Longrightarrow> keeps_from P s (k s)) \<Longrightarrow> keeps P (asks k)"
  by (simp add: keeps_def keeps_from_def asks_def)

lemma from_keeps: "keeps P m \<Longrightarrow> P s \<Longrightarrow> keeps_from P s m"
  by (simp add: keeps_def keeps_from_def)

lemma from_bind [keeps_intros]: "keeps_from P s m \<Longrightarrow> (\<And>a. keeps P (k a)) \<Longrightarrow> keeps_from P s (bind m k)"
  by (fastforce simp: keeps_def keeps_from_def bind_def split: prod.split sum.split)

lemma from_seq [keeps_intros]: "keeps_from P s m \<Longrightarrow> keeps P k \<Longrightarrow> keeps_from P s (seq m k)"
  by (simp add: seq_def from_bind)

lemma block_Cons: "block (m # ms) = seq m (block ms)"
  by (simp add: block_def)

lemma from_block [keeps_intros]:
  "keeps_from P s m \<Longrightarrow> (\<And>m. m \<in> set ms \<Longrightarrow> keeps P m) \<Longrightarrow> keeps_from P s (block (m # ms))"
  by (simp add: block_Cons from_seq keeps_block)

lemma from_handle [keeps_intros]:
  "keeps_from P s m \<Longrightarrow> (\<And>e. keeps P (h e)) \<Longrightarrow> keeps_from P s (handle m h)"
  by (fastforce simp: keeps_def keeps_from_def handle_def split: prod.split sum.split)

lemma from_update [keeps_intros]: "P (f s) \<Longrightarrow> keeps_from P s (update f)"
  by (simp add: keeps_from_def update_def)

lemma from_only_if [keeps_intros]: "P s \<Longrightarrow> keeps_from P s m \<Longrightarrow> keeps_from P s (only_if b m)"
  by (simp add: only_if_def keeps_from_def ret_def)

lemma from_if [keeps_intros]: "keeps_from P s m \<Longrightarrow> keeps_from P s n \<Longrightarrow> keeps_from P s (if b then m else n)"
  by simp

lemma from_leaf [simp]:
  "keeps_from P s (throw e) = P s" "keeps_from P s (ret a) = P s" "keeps_from P s (lift r) = P s"
  by (simp_all add: keeps_from_def throw_def ret_def lift_def)

section \<open>Collecting result pages\<close>

text \<open>\<^verbatim>\<open>SearchPage\<close> (its number is the one that was asked for) and \<^verbatim>\<open>SearchCollection\<close>. The rows are a
  dictionary from listing identifiers to search rows.\<close>

type_synonym rows = "(string \<times> dict) list"

record search_page =
  sp_rows :: rows
  sp_total_pages :: int
  sp_total_results :: "int option"
  sp_has_next :: bool

record search_collection =
  sc_rows :: rows
  sc_pages_visited :: int
  sc_total_pages :: int
  sc_total_results :: "int option"

fun rows_set :: "rows \<Rightarrow> string \<Rightarrow> dict \<Rightarrow> rows" where
  "rows_set [] k v = [(k, v)]"
| "rows_set ((k', v') # r) k v = (if k' = k then (k, v) # r else (k', v') # rows_set r k v)"

definition rows_update :: "rows \<Rightarrow> rows \<Rightarrow> rows" where
  "rows_update rows new = foldl (\<lambda>r (k, v). rows_set r k v) rows new"

definition pagination_error :: "string \<Rightarrow> scan_exc" where
  "pagination_error msg = ScanError ''IncompletePaginationError'' ''INCOMPLETE_PAGINATION'' msg"

definition page_info :: "int \<Rightarrow> int \<Rightarrow> nat \<Rightarrow> int option \<Rightarrow> bool \<Rightarrow> dict" where
  "page_info requested expected found results finished =
     [(''current_page'', JInt requested), (''total_pages'', JInt (max expected requested)),
      (''pages_visited'', JInt requested), (''found_count'', JInt (int found)),
      (''total_results'', jopt JInt results), (''complete'', JBool finished)]"

definition check_page :: "int \<Rightarrow> string list list \<Rightarrow> search_page \<Rightarrow> scan_exc option" where
  "check_page requested fingerprints current =
     (if 1 < requested \<and> sp_rows current = [] then
        Some (pagination_error (''Encar page '' @ show_int requested @ '' was expected but contained no listings''))
      else if sorted_strings (map fst (sp_rows current)) \<in> set fingerprints then
        Some (pagination_error (''Encar repeated result page while requesting page '' @ show_int requested))
      else None)"

fun collect_loop ::
  "bool \<Rightarrow> ('s, unit) proc \<Rightarrow> (dict \<Rightarrow> ('s, unit) proc) \<Rightarrow> (int \<Rightarrow> ('s, search_page) proc) \<Rightarrow>
   nat \<Rightarrow> nat \<Rightarrow> int \<Rightarrow> rows \<Rightarrow> string list list \<Rightarrow> int \<Rightarrow> int option \<Rightarrow> ('s, search_collection) proc" where
  "collect_loop all_pages checkpoint progress read limit 0 requested rows fps expected results =
     throw (pagination_error (''Encar pagination exceeded the safety limit of '' @ show_nat limit @ '' pages''))"
| "collect_loop all_pages checkpoint progress read limit (Suc n) requested rows fps expected results =
     seq checkpoint (bind (read requested) (\<lambda>current.
       case check_page requested fps current of
         Some e \<Rightarrow> throw e
       | None \<Rightarrow>
           let rows' = rows_update rows (sp_rows current);
               expected' = max expected (sp_total_pages current);
               results' = (case sp_total_results current of None \<Rightarrow> results | Some k \<Rightarrow> Some k);
               complete = (\<not> all_pages \<or> \<not> sp_has_next current)
           in seq (progress (page_info requested expected' (length rows') results' complete))
             (seq checkpoint
               (if complete
                then ret \<lparr>sc_rows = rows', sc_pages_visited = requested,
                          sc_total_pages = max expected' requested, sc_total_results = results'\<rparr>
                else collect_loop all_pages checkpoint progress read limit n (requested + 1) rows'
                       (sorted_strings (map fst (sp_rows current)) # fps) expected' results'))))"

definition collect_search_pages ::
  "bool \<Rightarrow> ('s, unit) proc \<Rightarrow> (dict \<Rightarrow> ('s, unit) proc) \<Rightarrow> (int \<Rightarrow> ('s, search_page) proc) \<Rightarrow> nat \<Rightarrow>
   ('s, search_collection) proc" where
  "collect_search_pages all_pages checkpoint progress read max_pages =
     collect_loop all_pages checkpoint progress read max_pages max_pages 1 [] [] 1 None"

lemma keeps_collect_loop:
  assumes "keeps P checkpoint" and "\<And>i. keeps P (progress i)" and "\<And>i. keeps P (read i)"
  shows "keeps P (collect_loop a checkpoint progress read l n q rows fps e t)"
proof (induction n arbitrary: q rows fps e t)
  case (Suc n)
  then show ?case
    by (auto simp: Let_def intro!: keeps_intros assms split: option.split)
qed (simp add: keeps_throw)

lemma keeps_collect [keeps_intros]:
  assumes "keeps P checkpoint" and "\<And>i. keeps P (progress i)" and "\<And>i. keeps P (read i)"
  shows "keeps P (collect_search_pages a checkpoint progress read m)"
  unfolding collect_search_pages_def by (rule keeps_collect_loop [OF assms])

section \<open>A complete collection\<close>

lemma rows_set_keys: "fst ` set (rows_set r k v) = insert k (fst ` set r)"
  by (induction r k v rule: rows_set.induct) auto

lemma rows_update_keys: "fst ` set (rows_update r new) = fst ` set r \<union> fst ` set new"
proof -
  have "fst ` set (foldl (\<lambda>r (k, v). rows_set r k v) r new) = fst ` set r \<union> fst ` set new"
    by (induction new arbitrary: r) (simp_all add: rows_set_keys case_prod_unfold)
  then show ?thesis by (simp add: rows_update_def)
qed

lemma rows_set_distinct: "distinct (map fst r) \<Longrightarrow> distinct (map fst (rows_set r k v))"
proof (induction r k v rule: rows_set.induct)
  case (2 k' v' r k v)
  then show ?case using rows_set_keys [of r k v] by auto
qed simp

lemma rows_update_distinct: "distinct (map fst r) \<Longrightarrow> distinct (map fst (rows_update r new))"
proof -
  assume "distinct (map fst r)"
  then have "distinct (map fst (foldl (\<lambda>r (k, v). rows_set r k v) r new))"
    by (induction new arbitrary: r) (auto simp: rows_set_distinct split: prod.split)
  then show ?thesis by (simp add: rows_update_def)
qed

text \<open>The pages a collection read, when pages are a function of their number.\<close>

definition good_pages :: "(int \<Rightarrow> search_page) \<Rightarrow> bool \<Rightarrow> int \<Rightarrow> int \<Rightarrow> bool" where
  "good_pages page all_pages from stop \<longleftrightarrow>
     from \<le> stop \<and> (\<forall>i \<in> {from..<stop}. all_pages \<and> sp_has_next (page i)) \<and>
     (all_pages \<longrightarrow> \<not> sp_has_next (page stop)) \<and>
     (\<forall>i \<in> {from..stop}. 1 < i \<longrightarrow> sp_rows (page i) \<noteq> [])"

lemma collect_loop_result:
  assumes "fst (collect_loop a (ret ()) (\<lambda>_. ret ()) (\<lambda>i. ret (page i)) l n q rows fps e t s) = Inr c"
  shows "good_pages page a q (sc_pages_visited c) \<and> sc_pages_visited c < q + int n \<and>
    fst ` set (sc_rows c) = fst ` set rows \<union> (\<Union>i \<in> {q..sc_pages_visited c}. fst ` set (sp_rows (page i))) \<and>
    (distinct (map fst rows) \<longrightarrow> distinct (map fst (sc_rows c)))"
  using assms
proof (induction n arbitrary: q rows fps e t)
  case 0
  then show ?case by simp
next
  case (Suc n)
  let ?p = "page q"
  let ?rows = "rows_update rows (sp_rows ?p)"
  have ok: "check_page q fps ?p = None"
    using Suc.prems by (auto split: option.splits)
  then have ne: "1 < q \<longrightarrow> sp_rows ?p \<noteq> []" by (auto simp: check_page_def split: if_splits)
  show ?case
  proof (cases "\<not> a \<or> \<not> sp_has_next ?p")
    case True
    then have "sc_pages_visited c = q" "sc_rows c = ?rows"
      using Suc.prems ok by (auto simp: Let_def)
    with True ne show ?thesis
      by (auto simp: good_pages_def rows_update_keys rows_update_distinct)
  next
    case False
    then have more: "a" "sp_has_next ?p" by auto
    then have "fst (collect_loop a (ret ()) (\<lambda>_. ret ()) (\<lambda>i. ret (page i)) l n (q + 1) ?rows
        (sorted_strings (map fst (sp_rows ?p)) # fps) (max e (sp_total_pages ?p))
        (case sp_total_results ?p of None \<Rightarrow> t | Some k \<Rightarrow> Some k) s) = Inr c"
      using Suc.prems ok by (simp add: Let_def)
    note IH = Suc.IH [OF this]
    have le: "q + 1 \<le> sc_pages_visited c" using IH by (simp add: good_pages_def)
    then have "{q..sc_pages_visited c} = insert q {q + 1..sc_pages_visited c}"
      "{q..<sc_pages_visited c} = insert q {q + 1..<sc_pages_visited c}" by auto
    with IH more ne le show ?thesis
      by (auto simp: good_pages_def rows_update_keys rows_update_distinct)
  qed
qed

text \<open>C28: a collection of all result pages that returns has read the pages from 1 to its last without a gap, each but
  the last with a next page and the last without one, within the page limit; its rows are exactly the
  listings of those pages, each once.\<close>

theorem collected_pages_complete:
  assumes "fst (collect_search_pages True (ret ()) (\<lambda>_. ret ()) (\<lambda>i. ret (page i)) max_pages s) = Inr c"
  shows "1 \<le> sc_pages_visited c \<and> sc_pages_visited c \<le> int max_pages \<and>
    (\<forall>i \<in> {1..<sc_pages_visited c}. sp_has_next (page i)) \<and> \<not> sp_has_next (page (sc_pages_visited c)) \<and>
    distinct (map fst (sc_rows c)) \<and>
    fst ` set (sc_rows c) = (\<Union>i \<in> {1..sc_pages_visited c}. fst ` set (sp_rows (page i)))"
  using collect_loop_result [OF assms [unfolded collect_search_pages_def]]
  by (auto simp: good_pages_def)

definition sample_page :: "int \<Rightarrow> search_page" where
  "sample_page i = \<lparr>sp_rows = [(show_int i, [(''source_car_id'', JStr (show_int i))])], sp_total_pages = 2,
     sp_total_results = Some 2, sp_has_next = (i < 2)\<rparr>"

lemma collected_pages_complete_witness:
  "\<exists>c. fst (collect_search_pages True (ret ()) (\<lambda>_. ret ()) (\<lambda>i. ret (sample_page i)) 5 ()) = Inr c \<and>
     sc_pages_visited c = 2 \<and> distinct (map fst (sc_rows c))"
proof -
  have run: "fst (collect_search_pages True (ret ()) (\<lambda>_. ret ()) (\<lambda>i. ret (sample_page i)) 5 ()) =
     Inr \<lparr>sc_rows = [(''1'', [(''source_car_id'', JStr ''1'')]), (''2'', [(''source_car_id'', JStr ''2'')])],
          sc_pages_visited = 2, sc_total_pages = 2, sc_total_results = Some 2\<rparr>" by code_simp
  show ?thesis using collected_pages_complete [OF run] run by auto
qed

end
