(* ===== verification/Observations.thy ===== *)
theory Observations
  imports Tracking ExternalLinks SearchPages
begin

text \<open>
  What a scan knows of a car and reports about it: the functions of \<^verbatim>\<open>backend/app/worker.py\<close> that
  \<^verbatim>\<open>process_job\<close> applies to single cars. The state a project last observed, its comparison with the
  stored car, the record of the new observation, the reading of a listing with the confirmation of a
  changed price, the description of a failure, and the choice of scan and page modes of a project.
\<close>

section \<open>Modes of a project scan\<close>

definition requires_initial_full_scan :: "db \<Rightarrow> int \<Rightarrow> bool" where
  "requires_initial_full_scan d p \<longleftrightarrow>
     \<not> (\<exists>x \<in> set (project_scan_runs d). psr_project_id x = p \<and> psr_status x = SUCCEEDED)"

definition price_filter_needs_baseline :: "project \<Rightarrow> bool" where
  "price_filter_needs_baseline p \<longleftrightarrow>
     (if p_price_filter_revision p = 0 then 1 else p_price_filter_revision p)
       \<noteq> p_price_filter_baseline_revision p"

text \<open>\<open>apply_price_filter\<close> stands for \<^verbatim>\<open>scanner.apply_price_filter\<close>.\<close>

definition effective_search_url ::
  "(string \<Rightarrow> int option \<Rightarrow> int option \<Rightarrow> scan_exc + string) \<Rightarrow> project \<Rightarrow> scan_exc + string" where
  "effective_search_url apply_price_filter p =
     (if p_price_filter_mode p = ''CUSTOM''
      then apply_price_filter (p_search_url p) (p_price_min_krw p) (p_price_max_krw p)
      else Inr (p_search_url p))"

definition project_scan_modes :: "project \<Rightarrow> bool \<Rightarrow> bool \<Rightarrow> string \<times> string" where
  "project_scan_modes p initial_full_scan needs_baseline =
     (if initial_full_scan \<or> needs_baseline then (''ACCURATE'', ''ALL_PAGES'')
      else (p_scan_mode p, p_search_page_mode p))"

definition should_apply_search_absence :: "string \<Rightarrow> bool" where
  "should_apply_search_absence page_mode \<longleftrightarrow> page_mode = ''ALL_PAGES''"

definition detail_worker_count :: "db \<Rightarrow> int \<Rightarrow> int" where
  "detail_worker_count d owner =
     (case first_row (\<lambda>s. s_user_id s = owner) (scheduler_settings d) of
        Some s \<Rightarrow> if s_performance_mode s = ''FAST'' then 2 else 1
      | None \<Rightarrow> 1)"

section \<open>Rows a scan looks at\<close>

definition owned_project :: "db \<Rightarrow> int \<Rightarrow> int \<Rightarrow> project option" where
  "owned_project d p owner = first_row (\<lambda>x. p_id x = p \<and> p_owner_id x = owner) (projects d)"

definition known_car :: "db \<Rightarrow> string \<Rightarrow> car option" where
  "known_car = car_by_encar"

definition should_refresh_missing_car :: "project_car \<Rightarrow> car \<Rightarrow> string set \<Rightarrow> bool" where
  "should_refresh_missing_car l c found \<longleftrightarrow> pc_tracking_enabled l \<and> \<not> c_excluded c \<and>
     c_status c \<noteq> ''SOLD'' \<and> c_canonical_encar_id c \<notin> found"

definition missing_cars :: "db \<Rightarrow> int \<Rightarrow> string set \<Rightarrow> car list" where
  "missing_cars d p found =
     map snd (filter (\<lambda>(l, c). should_refresh_missing_car l c found) (tracked_links d p))"

definition previous_new_car_ids :: "db \<Rightarrow> int \<Rightarrow> int set" where
  "previous_new_car_ids d p =
     pc_car_id ` {l \<in> set (project_cars d). pc_project_id l = p \<and> pc_is_new l}"

definition expire_previous_new_relations :: "int \<Rightarrow> int set \<Rightarrow> db \<Rightarrow> db" where
  "expire_previous_new_relations p car_ids d = d\<lparr>project_cars :=
     update_where (\<lambda>l. pc_project_id l = p \<and> pc_car_id l \<in> car_ids) (\<lambda>l. l\<lparr>pc_is_new := False\<rparr>)
       (project_cars d)\<rparr>"

section \<open>Observed states\<close>

record observation =
  ps_car_id :: int
  ps_canonical_id :: string
  ps_price :: "int option"
  ps_fingerprint :: "string option"
  ps_status :: string
  ps_details :: dict
  ps_search_status :: string
  ps_snapshot_id :: "int option"

definition get_snapshot :: "db \<Rightarrow> int \<Rightarrow> car_record option" where
  "get_snapshot d i = first_row (\<lambda>s. cr_id s = i) (car_snapshots d)"

definition observed_details :: "db \<Rightarrow> car \<Rightarrow> project_car \<Rightarrow> dict" where
  "observed_details d c l =
     (case pc_last_observed_snapshot_id l of
        None \<Rightarrow> details_of c
      | Some i \<Rightarrow>
          (case if i = 0 then None else get_snapshot d i of
             None \<Rightarrow> details_of c
           | Some s \<Rightarrow> if cr_integrity_status s = ''VALID'' then cr_payload s else details_of c))"

definition observed_status :: "car \<Rightarrow> project_car \<Rightarrow> dict \<Rightarrow> string" where
  "observed_status c l details =
     (let otherwise = (if truthy (dget details ''sold'') then ''SOLD''
                       else if c_status c = ''SOLD'' then ''UPDATED'' else c_status c)
      in if pc_last_observed_at l = None then otherwise
         else str_or (pc_last_observed_status l) otherwise)"

definition state_of :: "db \<Rightarrow> car \<Rightarrow> project_car \<Rightarrow> observation" where
  "state_of d c l =
     (let details = observed_details d c l;
          seen = (pc_last_observed_at l \<noteq> None)
      in \<lparr>ps_car_id = c_id c, ps_canonical_id = c_canonical_encar_id c,
          ps_price = (if seen then pc_last_observed_price l else c_current_price c),
          ps_fingerprint = (if seen then pc_last_observed_fingerprint l
                            else Some (fingerprint_listing details)),
          ps_status = observed_status c l details,
          ps_details = details,
          ps_search_status = pc_search_status l,
          ps_snapshot_id = pc_last_observed_snapshot_id l\<rparr>)"

fun previous_state :: "db \<Rightarrow> car option \<Rightarrow> project_car option \<Rightarrow> observation option" where
  "previous_state d (Some c) (Some l) = Some (state_of d c l)"
| "previous_state d _ _ = None"

text \<open>The newest valid snapshot of a car, by creation time and then by identifier.\<close>

definition later_snapshot :: "car_record option \<Rightarrow> car_record \<Rightarrow> car_record option" where
  "later_snapshot best s =
     (case best of
        None \<Rightarrow> Some s
      | Some b \<Rightarrow> if cr_created_at b < cr_created_at s \<or>
                     (cr_created_at b = cr_created_at s \<and> cr_id b < cr_id s)
                  then Some s else Some b)"

definition latest_snapshot_id :: "db \<Rightarrow> int \<Rightarrow> int option" where
  "latest_snapshot_id d c =
     map_option cr_id (foldl later_snapshot None
       (filter (\<lambda>s. cr_car_id s = c \<and> cr_integrity_status s = ''VALID'') (car_snapshots d)))"

definition observe :: "time \<Rightarrow> car \<Rightarrow> int option \<Rightarrow> project_car \<Rightarrow> project_car" where
  "observe t c snapshot l = l\<lparr>
     pc_last_observed_snapshot_id := snapshot,
     pc_last_observed_price := c_current_price c,
     pc_last_observed_fingerprint := Some (fingerprint_listing (details_of c)),
     pc_last_observed_status := Some (c_status c),
     pc_last_observed_at := Some t\<rparr>"

definition remember_observation :: "time \<Rightarrow> int \<Rightarrow> car \<Rightarrow> int option \<Rightarrow> db \<Rightarrow> db" where
  "remember_observation t p c snapshot = update_link p (c_id c) (observe t c snapshot)"

section \<open>Reporting a change\<close>

definition price_or_zero :: "int option \<Rightarrow> int" where
  "price_or_zero p = (case p of Some n \<Rightarrow> n | None \<Rightarrow> 0)"

text \<open>The kind of change and its list of fields; \<open>None\<close> where the code returns no report item.\<close>

definition classify_change :: "car \<Rightarrow> observation \<Rightarrow> string \<Rightarrow> (string \<times> json list) option" where
  "classify_change c prev search_status =
     (if ps_car_id prev \<noteq> c_id c \<or> ps_canonical_id prev \<noteq> c_canonical_encar_id c then None
      else if c_status c = ''SOLD'' then
        (if ps_status prev = ''SOLD'' then None
         else Some (''SOLD'', [field_change ''status'' (JStr (ps_status prev)) (JStr ''SOLD'')]))
      else if \<not> py_eq (offer_type (ps_details prev)) (offer_type (details_of c)) then
        Some (''MATERIAL_UPDATE'', material_changes (ps_details prev) (details_of c))
      else if ps_price prev \<noteq> c_current_price c then
        Some (if price_or_zero (c_current_price c) < price_or_zero (ps_price prev)
                then ''PRICE_DROP'' else ''PRICE_INCREASE'',
              [field_change ''price'' (jint (ps_price prev)) (jint (c_current_price c))])
      else if ps_fingerprint prev \<noteq> c_fingerprint c then
        (if material_changes (ps_details prev) (details_of c) = [] then None
         else Some (''MATERIAL_UPDATE'', material_changes (ps_details prev) (details_of c)))
      else if ps_status prev \<noteq> c_status c then
        Some (c_status c, [field_change ''status'' (JStr (ps_status prev)) (JStr (c_status c))])
      else if ps_search_status prev = ''NOT_FOUND_IN_SEARCH'' \<and> search_status = ''FOUND'' then
        Some (''RELISTED'', [field_change ''search_status'' (JStr ''NOT_FOUND_IN_SEARCH'') (JStr ''FOUND'')])
      else None)"

definition change_item ::
  "time \<Rightarrow> car \<Rightarrow> project \<Rightarrow> observation option \<Rightarrow> int option \<Rightarrow> string \<times> json list \<Rightarrow> dict" where
  "change_item t c p prev snapshot change =
     [(''car_id'', JInt (c_id c)),
      (''project_id'', JInt (p_id p)),
      (''project_name'', JStr (p_name p)),
      (''encar_id'', JStr (c_canonical_encar_id c)),
      (''source_car_id'', dget (details_of c) ''source_car_id''),
      (''registration_number'', dget (details_of c) ''registration_number''),
      (''previous_car_id'', jint (map_option ps_car_id prev)),
      (''before_snapshot_id'', jint (Option.bind prev ps_snapshot_id)),
      (''after_snapshot_id'', jint snapshot),
      (''title'', jstr (c_title c)),
      (''change'', JStr (fst change)),
      (''changes'', JList (snd change)),
      (''old_price'', jint (Option.bind prev ps_price)),
      (''price'', jint (c_current_price c)),
      (''offer_type'', offer_type (details_of c)),
      (''rental_term_months'', dget (details_of c) ''rental_term_months''),
      (''lease_term_months'', dget (details_of c) ''lease_term_months''),
      (''updated_at'', JTime t)]"

definition change_report ::
  "time \<Rightarrow> car \<Rightarrow> project \<Rightarrow> observation option \<Rightarrow> string \<Rightarrow> int option \<Rightarrow> dict option" where
  "change_report t c p prev search_status snapshot =
     map_option (change_item t c p prev snapshot)
       (case prev of
          None \<Rightarrow> Some (''NEW'', [])
        | Some s \<Rightarrow> classify_change c s search_status)"

section \<open>Reading a listing\<close>

definition price_confirmation_error :: scan_exc where
  "price_confirmation_error = ScanError ''PriceConfirmationError'' ''PRICE_NOT_CONFIRMED''
     ''Encar returned inconsistent listing identity or price on confirmation''"

definition price_moved :: "int option \<Rightarrow> dict \<Rightarrow> bool" where
  "price_moved known detail \<longleftrightarrow>
     (case known of None \<Rightarrow> False | Some k \<Rightarrow>
        k \<noteq> 0 \<and> truthy (dget detail ''price_krw'') \<and>
        \<not> py_eq (dget detail ''price_krw'') (JInt k) \<and> \<not> sold_detail detail)"

text \<open>\<open>read n\<close> is the \<open>n\<close>-th reading of the page.\<close>

definition read_verified_detail :: "(nat \<Rightarrow> scan_exc + dict) \<Rightarrow> int option \<Rightarrow> scan_exc + dict" where
  "read_verified_detail read known_price =
     (case read 0 of
        Inl e \<Rightarrow> Inl e
      | Inr detail \<Rightarrow>
          if \<not> price_moved known_price detail then Inr detail
          else case read 1 of
            Inl e \<Rightarrow> Inl e
          | Inr confirmation \<Rightarrow>
              if \<not> py_eq (dget confirmation ''canonical_car_id'') (dget detail ''canonical_car_id'') \<or>
                 \<not> py_eq (dget confirmation ''price_krw'') (dget detail ''price_krw'')
              then Inl price_confirmation_error
              else Inr confirmation)"

section \<open>Failures\<close>

fun infix_of :: "string \<Rightarrow> string \<Rightarrow> bool" where
  "infix_of m [] \<longleftrightarrow> m = []"
| "infix_of m (c # s) \<longleftrightarrow> starts_with m (c # s) \<or> infix_of m s"

fun exc_class :: "scan_exc \<Rightarrow> string" where
  "exc_class ScanCancelled = ''ScanCancelled''"
| "exc_class (ScanError cls code msg) = cls"
| "exc_class (OtherError cls code msg) = cls"

fun exc_text :: "scan_exc \<Rightarrow> string" where
  "exc_text ScanCancelled = []"
| "exc_text (ScanError cls code msg) = msg"
| "exc_text (OtherError cls code msg) = msg"

fun own_code :: "scan_exc \<Rightarrow> string option" where
  "own_code ScanCancelled = None"
| "own_code (ScanError cls code msg) = Some code"
| "own_code (OtherError cls code msg) = code"

text \<open>\<^verbatim>\<open>s[:n]\<close> counts characters; the other bytes of a character follow its first.\<close>

definition continuation :: "char \<Rightarrow> bool" where
  "continuation c \<longleftrightarrow> 128 \<le> (of_char c :: nat) \<and> (of_char c :: nat) < 192"

fun take_chars :: "nat \<Rightarrow> string \<Rightarrow> string" where
  "take_chars 0 s = []"
| "take_chars (Suc n) s =
     (case s of [] \<Rightarrow> []
      | c # r \<Rightarrow> c # takeWhile continuation r @ take_chars n (dropWhile continuation r))"

definition failure_code :: "scan_exc \<Rightarrow> string" where
  "failure_code e =
     (case own_code e of
        Some code \<Rightarrow> code
      | None \<Rightarrow>
          if list_ex (\<lambda>m. infix_of m (exc_text e)) [''ERR_TIMED_OUT'', ''Timeout'', ''timeout'']
          then ''TIMEOUT''
          else map upper_char (take 30 (exc_class e)))"

definition failure_url :: "string option \<Rightarrow> car option \<Rightarrow> string option" where
  "failure_url url c =
     (case (case url of
              Some u \<Rightarrow> if u = [] then map_option c_url c else Some u
            | None \<Rightarrow> map_option c_url c) of
        None \<Rightarrow> None
      | Some u \<Rightarrow> if u = [] then None else validated_external_url u)"

definition failure_detail ::
  "scan_exc \<Rightarrow> string \<Rightarrow> project option \<Rightarrow> car option \<Rightarrow> string option \<Rightarrow> dict" where
  "failure_detail e scope p c url =
     [(''scope'', JStr scope),
      (''project_id'', jint (map_option p_id p)),
      (''project_name'', jstr (map_option p_name p)),
      (''car_id'', jint (map_option c_id c)),
      (''encar_id'', jstr (map_option c_canonical_encar_id c)),
      (''url'', jstr (failure_url url c)),
      (''code'', JStr (failure_code e)),
      (''technical'', JStr (take_chars 4000 (exc_text e)))]"


section \<open>Confirmed prices and single reports\<close>

text \<open>C27: a reading the worker accepts either shows no moved price, or it is the second of two readings of the
  page that agree on the listing and on the price; anything else is an error.\<close>

theorem moved_price_is_confirmed:
  assumes "read_verified_detail read known = Inr detail"
  shows "(read 0 = Inr detail \<and> \<not> price_moved known detail) \<or>
    (\<exists>first. read 0 = Inr first \<and> price_moved known first \<and> read 1 = Inr detail \<and>
       py_eq (dget detail ''canonical_car_id'') (dget first ''canonical_car_id'') \<and>
       py_eq (dget detail ''price_krw'') (dget first ''price_krw''))"
  using assms by (auto simp: read_verified_detail_def split: sum.splits if_splits)

lemma moved_price_is_confirmed_witness:
  "\<exists>d. read_verified_detail (\<lambda>_. Inr [(''price_krw'', JInt 9)]) (Some 8) = Inr d \<and> dget d ''price_krw'' = JInt 9"
proof -
  let ?d = "[(''price_krw'', JInt 9)]"
  have "read_verified_detail (\<lambda>_. Inr ?d) (Some 8) = Inr ?d"
    by (simp add: read_verified_detail_def price_moved_def)
  from moved_price_is_confirmed [OF this] this show ?thesis by auto
qed

lemma get_link_remember:
  "get_project_car (remember_observation t p c s d) p (c_id c) =
     map_option (observe t c s) (get_project_car d p (c_id c))"
  unfolding remember_observation_def
  by (subst get_project_car_update) (simp_all add: observe_def, simp flip: observe_def)

text \<open>Once a change is reported and the observation remembered, scanning the unchanged car again reports
  nothing: no change is reported twice.\<close>

theorem remembered_car_not_reported:
  assumes "get_project_car d p (c_id c) = Some l"
    and "c_fingerprint c = Some (fingerprint_listing (details_of c))" and "c_status c \<noteq> []"
    and "py_eq (offer_type (observed_details d c (observe t c snapshot l))) (offer_type (details_of c))"
    and "d' = remember_observation t p c snapshot d"
  shows "change_report t' c project (previous_state d' (Some c) (get_project_car d' p (c_id c)))
    (pc_search_status l) later = None"
proof -
  let ?o = "observe t c snapshot l"
  have link: "get_project_car d' p (c_id c) = Some ?o"
    using assms(1,5) by (simp add: get_link_remember)
  have "observed_details d' c ?o = observed_details d c ?o"
    by (simp add: assms(5) observed_details_def get_snapshot_def remember_observation_def update_link_def
        split: option.split)
  then have state: "state_of d' c ?o =
     \<lparr>ps_car_id = c_id c, ps_canonical_id = c_canonical_encar_id c, ps_price = c_current_price c,
      ps_fingerprint = c_fingerprint c, ps_status = c_status c,
      ps_details = observed_details d c ?o, ps_search_status = pc_search_status l, ps_snapshot_id = snapshot\<rparr>"
    using assms(2,3) by (simp add: state_of_def Let_def observed_status_def str_or_def) (simp add: observe_def)
  have "classify_change c (state_of d' c ?o) (pc_search_status l) = None"
    using assms(4) by (auto simp: state classify_change_def)
  then show ?thesis by (simp add: link change_report_def)
qed

definition seen_car :: car where
  "seen_car = (sample_car 1 ''101'' ''NEW'')\<lparr>c_fingerprint := Some (fingerprint_listing [])\<rparr>"

lemma remembered_car_not_reported_witness:
  "\<exists>d'. d' = remember_observation 9 4 seen_car None
       (empty_db\<lparr>project_cars := [sample_link 4 1 ''FOUND''], cars := [seen_car]\<rparr>) \<and>
     change_report 10 seen_car (sample_project 4 7)
       (previous_state d' (Some seen_car) (get_project_car d' 4 (c_id seen_car))) ''FOUND'' None = None"
proof -
  let ?d = "empty_db\<lparr>project_cars := [sample_link 4 1 ''FOUND''], cars := [seen_car]\<rparr>"
  have "get_project_car ?d 4 (c_id seen_car) = Some (sample_link 4 1 ''FOUND'')"
    "pc_search_status (sample_link 4 1 ''FOUND'') = ''FOUND''"
    by (simp_all add: get_project_car_def sample_defs seen_car_def)
  moreover have "c_fingerprint seen_car = Some (fingerprint_listing (details_of seen_car))"
    "c_status seen_car \<noteq> []"
    by (simp_all add: seen_car_def sample_car_def details_of_def)
  moreover have "observed_details ?d seen_car (observe 9 seen_car None (sample_link 4 1 ''FOUND'')) = details_of seen_car"
    by (simp add: observed_details_def observe_def)
  moreover have "py_eq (offer_type (details_of seen_car)) (offer_type (details_of seen_car))"
    by (simp add: seen_car_def sample_car_def details_of_def offer_type_def py_or_def)
  ultimately show ?thesis
    using remembered_car_not_reported [of ?d 4 seen_car "sample_link 4 1 ''FOUND''" 9 None _ 10 "sample_project 4 7" None]
    by simp
qed

end
