(* ===== verification/JobQueue.thy ===== *)
theory JobQueue
  imports Samples
begin

text \<open>
  The durable scan queue of \<^verbatim>\<open>backend/app/job_queue.py\<close>: claiming the oldest queued run,
  heartbeats, detaching a deleted project, and the three ways the desktop shell interrupts work
  (restart, shutdown, sleep). Each operation is a function on the whole database; the ones that
  return something return it beside the new database.

  The lemmas describe every operation by the life cycle of a run (\<open>run_next\<close>): which status may
  follow which. The locale \<open>run_operation\<close> states that contract once; its consequences (no run is
  ever started except by a claim, a finished run keeps its status) hold for each operation by
  interpretation.
\<close>

section \<open>Selecting runs\<close>

definition active_status :: "run_status \<Rightarrow> bool" where
  "active_status s \<longleftrightarrow> s \<in> {RUNNING, CANCEL_REQUESTED}"

definition terminal_status :: "run_status \<Rightarrow> bool" where
  "terminal_status s \<longleftrightarrow>
     s \<in> {SUCCEEDED, PARTIAL, FAILED, CANCELLED, INTERRUPTED, INTERRUPTED_SLEEP}"

lemma status_partition:
  "terminal_status s \<longleftrightarrow> s \<noteq> QUEUED \<and> \<not> active_status s"
  by (cases s) (auto simp: terminal_status_def active_status_def)

text \<open>\<^verbatim>\<open>ORDER BY queued.created_at, queued.id\<close>.\<close>

datatype queue_key = Queue_Key (qk_created: time) (qk_id: int)

instantiation queue_key :: linorder
begin

definition less_eq_queue_key :: "queue_key \<Rightarrow> queue_key \<Rightarrow> bool" where
  "less_eq_queue_key a b \<longleftrightarrow>
     qk_created a < qk_created b \<or> (qk_created a = qk_created b \<and> qk_id a \<le> qk_id b)"

definition less_queue_key :: "queue_key \<Rightarrow> queue_key \<Rightarrow> bool" where
  "less_queue_key a b \<longleftrightarrow>
     qk_created a < qk_created b \<or> (qk_created a = qk_created b \<and> qk_id a < qk_id b)"

instance
  by standard (auto simp: less_eq_queue_key_def less_queue_key_def queue_key.expand)

end

definition queue_key :: "scan_run \<Rightarrow> queue_key" where
  "queue_key r = Queue_Key (r_created_at r) (r_id r)"

definition owner_active :: "db \<Rightarrow> scan_run \<Rightarrow> bool" where
  "owner_active d r \<longleftrightarrow> (\<exists>u \<in> set (users d). u_id u = r_owner_id r \<and> u_status u = ACTIVE)"

definition claim_candidates :: "db \<Rightarrow> scan_run list" where
  "claim_candidates d =
     (if \<exists>r \<in> set (scan_runs d). active_status (r_status r) then []
      else filter (\<lambda>r. r_status r = QUEUED \<and> owner_active d r) (scan_runs d))"

section \<open>The operations\<close>

definition start_claimed_run :: "string \<Rightarrow> time \<Rightarrow> scan_run \<Rightarrow> scan_run" where
  "start_claimed_run worker t r = r\<lparr>r_status := RUNNING,
     r_worker_id := Some worker,
     r_attempt_count := Some ((case r_attempt_count r of Some n \<Rightarrow> n | None \<Rightarrow> 0) + 1),
     r_started_at := (case r_started_at r of Some t' \<Rightarrow> Some t' | None \<Rightarrow> Some t),
     r_heartbeat_at := Some t,
     r_finished_at := None\<rparr>"

definition claim_next_job :: "bool \<Rightarrow> string \<Rightarrow> time \<Rightarrow> db \<Rightarrow> int option \<times> db" where
  "claim_next_job maintenance worker t d =
     (if maintenance then (None, d)
      else case sort_key queue_key (claim_candidates d) of
        [] \<Rightarrow> (None, d)
      | r # _ \<Rightarrow>
          (Some (r_id r),
           d\<lparr>scan_runs := update_where (\<lambda>x. r_id x = r_id r \<and> r_status x = QUEUED)
                (start_claimed_run worker t) (scan_runs d)\<rparr>))"

definition heartbeat_job :: "int \<Rightarrow> string \<Rightarrow> time \<Rightarrow> db \<Rightarrow> bool \<times> db" where
  "heartbeat_job j worker t d =
     (let P = (\<lambda>r. r_id r = j \<and> r_worker_id r = Some worker \<and> active_status (r_status r))
      in (length (filter P (scan_runs d)) = 1,
          d\<lparr>scan_runs := update_where P (\<lambda>r. r\<lparr>r_heartbeat_at := Some t\<rparr>) (scan_runs d)\<rparr>))"

definition zero_summary :: json where
  "zero_summary = JObj [(''changed'', JInt 0), (''new'', JInt 0),
     (''price_changes'', JInt 0), (''failed'', JInt 0)]"

text \<open>What a run cancelled before it started shows as its result.\<close>

definition cancelled_result :: "time \<Rightarrow> dict \<Rightarrow> dict" where
  "cancelled_result t p =
     [(''cancelled_at'', JTime t),
      (''current_project_id'', JNull),
      (''report'', JList (jlist (dget p ''report''))),
      (''failures'', JList (jlist (dget p ''failures''))),
      (''summary'', py_or (dget p ''summary'') zero_summary)]"

definition project_ids_of :: "dict \<Rightarrow> json list" where
  "project_ids_of p = jlist (dget p ''project_ids'')"

definition detach_job :: "int \<Rightarrow> time \<Rightarrow> scan_run \<Rightarrow> scan_run" where
  "detach_job pid t job =
     (let payload = payload_of job;
          project_ids = project_ids_of payload
      in if JInt pid \<notin> set project_ids then job
         else
           let remaining = filter (\<lambda>i. i \<noteq> JInt pid) project_ids;
               payload = dset payload ''project_ids'' (JList remaining)
           in if remaining \<noteq> [] \<and> dget payload ''current_project_id'' \<noteq> JInt pid
              then job\<lparr>r_payload := Some payload\<rparr>
              else
                let payload = dmerge payload
                      [(''cancellation_reason'', JStr ''PROJECT_DELETED''),
                       (''cancellation_requested_at'', JTime t)]
                in if r_status job = QUEUED
                   then job\<lparr>r_status := CANCELLED, r_finished_at := Some t,
                            r_heartbeat_at := Some t, r_worker_id := None,
                            r_payload := Some (dmerge payload (cancelled_result t payload))\<rparr>
                   else job\<lparr>r_status := CANCEL_REQUESTED, r_payload := Some payload\<rparr>)"

definition detachable :: "int \<Rightarrow> scan_run \<Rightarrow> bool" where
  "detachable owner r \<longleftrightarrow> r_owner_id r = owner \<and> r_kind r = ''PROJECTS'' \<and>
     r_status r \<in> {QUEUED, RUNNING, CANCEL_REQUESTED}"

definition detach_project_from_active_jobs ::
  "int \<Rightarrow> int \<Rightarrow> time \<Rightarrow> db \<Rightarrow> int list \<times> db" where
  "detach_project_from_active_jobs owner pid t d =
     (map r_id (filter (\<lambda>r. detachable owner r \<and> JInt pid \<in> set (project_ids_of (payload_of r)))
        (scan_runs d)),
      d\<lparr>scan_runs := update_where (detachable owner) (detach_job pid t) (scan_runs d)\<rparr>)"

definition interrupt_job :: "string \<Rightarrow> time \<Rightarrow> scan_run \<Rightarrow> scan_run" where
  "interrupt_job reason t job = job\<lparr>
     r_status := INTERRUPTED,
     r_payload := Some (dmerge (payload_of job)
       [(''current_project_id'', JNull),
        (''interrupted_at'', JTime t),
        (''interruption_reason'', JStr reason)]),
     r_error := Some (str_or (r_error job) ''Application stopped before the scan finished''),
     r_finished_at := Some t,
     r_heartbeat_at := Some t,
     r_worker_id := None\<rparr>"

definition open_project_run :: "int list \<Rightarrow> project_scan_run \<Rightarrow> bool" where
  "open_project_run ids x \<longleftrightarrow>
     psr_scan_run_id x \<in> set ids \<and> psr_status x \<in> {QUEUED, RUNNING}"

definition recover_interrupted_jobs :: "string \<Rightarrow> time \<Rightarrow> db \<Rightarrow> int list \<times> db" where
  "recover_interrupted_jobs reason t d =
     (let ids = map r_id (sort_key r_id
                  (filter (\<lambda>r. active_status (r_status r)) (scan_runs d)))
      in (ids,
          d\<lparr>scan_runs := update_where (\<lambda>r. active_status (r_status r))
               (interrupt_job reason t) (scan_runs d),
            project_scan_runs := update_where (open_project_run ids)
               (\<lambda>x. x\<lparr>psr_status := INTERRUPTED,
                      psr_error_code := Some (str_or (psr_error_code x) ''APP_INTERRUPTED'')\<rparr>)
               (project_scan_runs d)\<rparr>))"

definition shutdown_job :: "time \<Rightarrow> scan_run \<Rightarrow> scan_run" where
  "shutdown_job t job =
     (let job' = job\<lparr>r_payload := Some (dmerge (payload_of job)
            [(''shutdown_requested_at'', JTime t),
             (''cancellation_reason'', JStr ''APPLICATION_SHUTDOWN'')])\<rparr>
      in if r_status job = QUEUED
         then job'\<lparr>r_status := CANCELLED, r_finished_at := Some t, r_heartbeat_at := Some t,
                   r_worker_id := None\<rparr>
         else job'\<lparr>r_status := CANCEL_REQUESTED, r_heartbeat_at := Some t\<rparr>)"

definition request_shutdown_cancellation :: "time \<Rightarrow> db \<Rightarrow> (int list \<times> int list) \<times> db" where
  "request_shutdown_cancellation t d =
     (let jobs = sort_key r_id
            (filter (\<lambda>r. r_status r \<in> {QUEUED, RUNNING}) (scan_runs d));
          cancelled = map r_id (filter (\<lambda>r. r_status r = QUEUED) jobs);
          requested = map r_id (filter (\<lambda>r. r_status r \<noteq> QUEUED) jobs)
      in ((cancelled, requested),
          d\<lparr>scan_runs := update_where (\<lambda>r. r_status r \<in> {QUEUED, RUNNING})
               (shutdown_job t) (scan_runs d),
            project_scan_runs := update_where (open_project_run cancelled)
               (\<lambda>x. x\<lparr>psr_status := CANCELLED, psr_error_code := None\<rparr>)
               (project_scan_runs d)\<rparr>))"

definition automatic_payload :: "dict \<Rightarrow> bool" where
  "automatic_payload p \<longleftrightarrow>
     dget p ''trigger'' = JStr ''AUTOMATIC'' \<or> dget p ''scheduled'' = JBool True"

definition sleep_job :: "time \<Rightarrow> scan_run \<Rightarrow> scan_run" where
  "sleep_job t job = job\<lparr>
     r_status := CANCEL_REQUESTED,
     r_heartbeat_at := Some t,
     r_payload := Some (dmerge (payload_of job)
       [(''cancellation_reason'', JStr ''SYSTEM_SLEEP''),
        (''cancellation_requested_at'', JTime t)])\<rparr>"

definition request_sleep_interruption :: "time \<Rightarrow> db \<Rightarrow> (int list \<times> int list) \<times> db" where
  "request_sleep_interruption t d =
     (let jobs = sort_key r_id (filter (\<lambda>r. r_status r = RUNNING) (scan_runs d));
          automatic = filter (\<lambda>r. automatic_payload (payload_of r)) jobs
      in ((map r_id jobs, fromkeys (map r_owner_id automatic)),
          d\<lparr>scan_runs := update_where (\<lambda>r. r_status r = RUNNING)
               (sleep_job t) (scan_runs d)\<rparr>))"

section \<open>The life cycle of a run\<close>

inductive run_next :: "run_status \<Rightarrow> run_status \<Rightarrow> bool" where
  start: "run_next QUEUED RUNNING"
| drop: "run_next QUEUED CANCELLED"
| request: "run_next RUNNING CANCEL_REQUESTED"
| finish: "active_status s \<Longrightarrow> terminal_status t \<Longrightarrow> run_next s t"

inductive_cases run_next_from: "run_next s t"

inductive_simps run_next_simps: "run_next s t"

definition run_follows :: "run_status \<Rightarrow> run_status \<Rightarrow> bool" where
  "run_follows s t \<longleftrightarrow> s = t \<or> run_next s t"

lemma run_follows_refl [simp]: "run_follows s s"
  by (simp add: run_follows_def)

lemma run_next_terminal: "run_next s t \<Longrightarrow> \<not> terminal_status s"
  by (auto elim!: run_next_from simp: status_partition active_status_def)

lemma run_follows_terminal: "run_follows s t \<Longrightarrow> terminal_status s \<Longrightarrow> t = s"
  by (auto simp: run_follows_def dest: run_next_terminal)

lemma run_follows_start:
  "run_follows s t \<Longrightarrow> active_status t \<Longrightarrow> \<not> active_status s \<Longrightarrow> s = QUEUED \<and> t = RUNNING"
  by (auto simp: run_follows_def active_status_def terminal_status_def elim!: run_next_from)

definition same_identity :: "scan_run \<Rightarrow> scan_run \<Rightarrow> bool" where
  "same_identity r r' \<longleftrightarrow> r_id r' = r_id r \<and> r_owner_id r' = r_owner_id r \<and>
     r_kind r' = r_kind r \<and> r_created_at r' = r_created_at r"

lemma same_identity_refl [simp]: "same_identity r r"
  by (simp add: same_identity_def)

definition row_follows :: "scan_run \<Rightarrow> scan_run \<Rightarrow> bool" where
  "row_follows r r' \<longleftrightarrow> same_identity r r' \<and> run_follows (r_status r) (r_status r')"

text \<open>Old rows stay in their places and move along the life cycle; new rows are queued.\<close>

definition runs_follow :: "db \<Rightarrow> db \<Rightarrow> bool" where
  "runs_follow d d' \<longleftrightarrow>
     (let n = length (scan_runs d)
      in n \<le> length (scan_runs d')
         \<and> list_all2 row_follows (scan_runs d) (take n (scan_runs d'))
         \<and> list_all (\<lambda>r. r_status r = QUEUED) (drop n (scan_runs d')))"

definition active_ids :: "db \<Rightarrow> int set" where
  "active_ids d = r_id ` {r \<in> set (scan_runs d). active_status (r_status r)}"

definition run_ids_distinct :: "db \<Rightarrow> bool" where
  "run_ids_distinct d \<longleftrightarrow> distinct (map r_id (scan_runs d))"

definition single_active :: "db \<Rightarrow> bool" where
  "single_active d \<longleftrightarrow> run_ids_distinct d \<and> (\<exists>j. active_ids d \<subseteq> {j})"

lemma active_ids_empty_iff:
  "active_ids d = {} \<longleftrightarrow> (\<forall>r \<in> set (scan_runs d). \<not> active_status (r_status r))"
  by (auto simp: active_ids_def)

lemma row_follows_refl [simp]: "row_follows r r"
  by (simp add: row_follows_def)

lemma runs_follow_update:
  assumes "scan_runs d' = update_where P f (scan_runs d)"
    and "\<And>r. P r \<Longrightarrow> row_follows r (f r)"
  shows "runs_follow d d'"
  using assms by (auto simp: runs_follow_def update_where_def list_all2_conv_all_nth)

lemma runs_follow_refl [simp]: "runs_follow d d"
  by (rule runs_follow_update [where P = "\<lambda>_. False"]) auto

section \<open>The contract of a queue operation\<close>

locale run_operation =
  fixes op :: "db \<Rightarrow> db"
  assumes follows: "runs_follow d (op d)"
begin

lemma row_kept:
  assumes "r \<in> set (scan_runs d)"
  shows "\<exists>r' \<in> set (scan_runs (op d)). row_follows r r'"
proof -
  from assms obtain i where i: "i < length (scan_runs d)" "scan_runs d ! i = r"
    by (auto simp: in_set_conv_nth)
  have le: "length (scan_runs d) \<le> length (scan_runs (op d))"
    and all2: "list_all2 row_follows (scan_runs d)
      (take (length (scan_runs d)) (scan_runs (op d)))"
    using follows [of d] by (auto simp: runs_follow_def Let_def)
  have "row_follows r (scan_runs (op d) ! i)"
    using list_all2_nthD [OF all2, of i] i le by simp
  then show ?thesis using i le by (auto intro!: bexI [of _ "scan_runs (op d) ! i"])
qed

lemma terminal_kept:
  assumes "r \<in> set (scan_runs d)" and "terminal_status (r_status r)"
  shows "\<exists>r' \<in> set (scan_runs (op d)). r_id r' = r_id r \<and> r_status r' = r_status r"
  using row_kept [OF assms(1)] assms(2)
  by (auto simp: row_follows_def same_identity_def dest: run_follows_terminal)

lemma only_queued_started:
  assumes r': "r' \<in> set (scan_runs (op d))" and act: "active_status (r_status r')"
  shows "\<exists>r \<in> set (scan_runs d). r_id r = r_id r' \<and>
           (active_status (r_status r) \<or> r_status r = QUEUED)"
proof -
  let ?n = "length (scan_runs d)"
  have all2: "list_all2 row_follows (scan_runs d) (take ?n (scan_runs (op d)))"
    and new: "list_all (\<lambda>r. r_status r = QUEUED) (drop ?n (scan_runs (op d)))"
    using follows [of d] by (auto simp: runs_follow_def Let_def)
  have "r' \<in> set (take ?n (scan_runs (op d))) \<or> r' \<in> set (drop ?n (scan_runs (op d)))"
    using r' by (metis Un_iff append_take_drop_id set_append)
  then have "r' \<in> set (take ?n (scan_runs (op d)))"
    using new act by (auto simp: list_all_iff active_status_def)
  then obtain r where "r \<in> set (scan_runs d)" "row_follows r r'"
    using all2 by (metis in_set_conv_nth list_all2_conv_all_nth)
  then show ?thesis
    using act by (auto simp: row_follows_def same_identity_def dest: run_follows_start)
qed

end

text \<open>An operation that starts no run.\<close>

locale quiet_operation = run_operation +
  assumes quiet: "active_ids (op d) \<subseteq> active_ids d"
    and distinct_kept: "run_ids_distinct d \<Longrightarrow> run_ids_distinct (op d)"
begin

lemma single_active_kept: "single_active d \<Longrightarrow> single_active (op d)"
  using quiet [of d] distinct_kept [of d] by (auto simp: single_active_def)

lemma idle_kept: "active_ids d = {} \<Longrightarrow> active_ids (op d) = {}"
  using quiet [of d] by auto

end

text \<open>An operation that updates the selected rows one by one.\<close>

locale row_operation =
  fixes op :: "db \<Rightarrow> db" and sel :: "db \<Rightarrow> scan_run \<Rightarrow> bool" and f :: "scan_run \<Rightarrow> scan_run"
  assumes rows: "scan_runs (op d) = update_where (sel d) f (scan_runs d)"
    and identity: "sel d r \<Longrightarrow> same_identity r (f r)"
    and moves: "sel d r \<Longrightarrow> run_follows (r_status r) (r_status (f r))"

sublocale row_operation \<subseteq> run_operation op
  by unfold_locales (auto intro!: runs_follow_update rows simp: row_follows_def identity moves)

locale quiet_row_operation = row_operation +
  assumes no_start: "sel d r \<Longrightarrow> active_status (r_status (f r)) \<Longrightarrow> active_status (r_status r)"

sublocale quiet_row_operation \<subseteq> quiet_operation op
proof unfold_locales
  fix d
  show "active_ids (op d) \<subseteq> active_ids d"
    using identity no_start
    by (fastforce simp: active_ids_def rows set_update_where same_identity_def)
next
  fix d
  have ids: "map r_id (scan_runs (op d)) = map r_id (scan_runs d)"
    using identity [of d] by (simp add: rows map_update_where same_identity_def)
  then show "run_ids_distinct d \<Longrightarrow> run_ids_distinct (op d)"
    by (simp add: run_ids_distinct_def)
qed

section \<open>Every operation keeps the contract\<close>

lemma claim_candidates_queued:
  "r \<in> set (claim_candidates d) \<Longrightarrow> r \<in> set (scan_runs d) \<and> r_status r = QUEUED"
  by (auto simp: claim_candidates_def split: if_splits)

lemma sort_key_Cons:
  assumes "sort_key k xs = y # ys"
  shows "y \<in> set xs \<and> (\<forall>x \<in> set xs. k y \<le> k x)"
proof -
  have "sorted (map k (y # ys))" using sorted_sort_key [of k xs] assms by simp
  moreover have "set xs = set (y # ys)" using assms by (metis set_sort)
  ultimately show ?thesis by auto
qed

lemma sort_key_Nil_iff [simp]: "sort_key k xs = [] \<longleftrightarrow> xs = []"
  by (metis length_0_conv length_sort)

lemma claim_next_job_cases:
  obtains (idle) "claim_next_job m w t d = (None, d)"
  | (claimed) r where "\<not> m" "r \<in> set (claim_candidates d)"
      "\<forall>x \<in> set (claim_candidates d). queue_key r \<le> queue_key x"
      "claim_next_job m w t d =
         (Some (r_id r), d\<lparr>scan_runs := update_where (\<lambda>x. r_id x = r_id r \<and> r_status x = QUEUED)
            (start_claimed_run w t) (scan_runs d)\<rparr>)"
proof (cases "m \<or> sort_key queue_key (claim_candidates d) = []")
  case True
  then have "claim_next_job m w t d = (None, d)" by (auto simp: claim_next_job_def)
  then show ?thesis by (rule idle)
next
  case False
  then obtain r rs where rs: "sort_key queue_key (claim_candidates d) = r # rs" and m: "\<not> m"
    by (cases "sort_key queue_key (claim_candidates d)") auto
  from sort_key_Cons [OF rs] have r: "r \<in> set (claim_candidates d)"
    "\<forall>x \<in> set (claim_candidates d). queue_key r \<le> queue_key x" by auto
  show ?thesis
    by (rule claimed [OF m r]) (simp add: claim_next_job_def m rs)
qed

lemma start_claimed_run_simps [simp]:
  "r_status (start_claimed_run w t r) = RUNNING"
  "r_id (start_claimed_run w t r) = r_id r"
  "same_identity r (start_claimed_run w t r)"
  by (auto simp: start_claimed_run_def same_identity_def)

interpretation claim: run_operation "\<lambda>d. snd (claim_next_job m w t d)"
proof
  fix d
  show "runs_follow d (snd (claim_next_job m w t d))"
    by (rule claim_next_job_cases [of m w t d])
      (auto intro!: runs_follow_update simp: row_follows_def run_follows_def intro: run_next.start)
qed

interpretation heartbeat: quiet_row_operation "\<lambda>d. snd (heartbeat_job j w t d)"
  "\<lambda>_ r. r_id r = j \<and> r_worker_id r = Some w \<and> active_status (r_status r)"
  "\<lambda>r. r\<lparr>r_heartbeat_at := Some t\<rparr>"
  by unfold_locales (auto simp: heartbeat_job_def Let_def same_identity_def)

lemma detach_job_identity [simp]: "same_identity r (detach_job pid t r)"
  by (auto simp: detach_job_def Let_def same_identity_def)

lemma detach_job_status:
  "r_status (detach_job pid t r) = r_status r \<or>
   (r_status (detach_job pid t r) = (if r_status r = QUEUED then CANCELLED else CANCEL_REQUESTED))"
  by (auto simp: detach_job_def Let_def)

interpretation detach: quiet_row_operation
  "\<lambda>d. snd (detach_project_from_active_jobs owner pid t d)"
  "\<lambda>_. detachable owner" "detach_job pid t"
proof (unfold_locales, goal_cases)
  case (1 d) show ?case by (simp add: detach_project_from_active_jobs_def)
next
  case (2 d r) show ?case by simp
next
  case (3 d r) then show ?case
    using detach_job_status [of pid t r]
    by (auto simp: run_follows_def detachable_def intro: run_next.intros)
next
  case (4 d r) then show ?case
    using detach_job_status [of pid t r] by (auto simp: detachable_def active_status_def)
qed

interpretation recover: quiet_row_operation "\<lambda>d. snd (recover_interrupted_jobs reason t d)"
  "\<lambda>_ r. active_status (r_status r)" "interrupt_job reason t"
  by unfold_locales
    (auto simp: recover_interrupted_jobs_def Let_def interrupt_job_def same_identity_def
      run_follows_def terminal_status_def intro: run_next.finish)

interpretation shutdown: quiet_row_operation
  "\<lambda>d. snd (request_shutdown_cancellation t d)"
  "\<lambda>_ r. r_status r \<in> {QUEUED, RUNNING}" "shutdown_job t"
  by unfold_locales
    (auto simp: request_shutdown_cancellation_def Let_def shutdown_job_def same_identity_def
      run_follows_def active_status_def intro: run_next.intros)

interpretation sleep: quiet_row_operation "\<lambda>d. snd (request_sleep_interruption t d)"
  "\<lambda>_ r. r_status r = RUNNING" "sleep_job t"
  by unfold_locales
    (auto simp: request_sleep_interruption_def Let_def sleep_job_def same_identity_def
      run_follows_def active_status_def intro: run_next.intros)

text \<open>A claim is the one operation that starts a run, and only on an idle queue.\<close>

lemma claim_single_active:
  assumes "run_ids_distinct d"
  shows "single_active d \<Longrightarrow> single_active (snd (claim_next_job m w t d))"
proof (rule claim_next_job_cases [of m w t d], goal_cases)
  case 1
  then show ?case by simp
next
  case (2 r)
  then have idle: "active_ids d = {}"
    by (auto simp: claim_candidates_def active_ids_empty_iff split: if_splits)
  have "active_ids (snd (claim_next_job m w t d)) \<subseteq> {r_id r}"
    using 2 idle by (auto simp: active_ids_def set_update_where)
  moreover have "run_ids_distinct (snd (claim_next_job m w t d))"
    using 2 assms by (simp add: run_ids_distinct_def map_update_where)
  ultimately show ?case by (auto simp: single_active_def)
qed

section \<open>What the operations promise\<close>

lemma get_run_update [row_simps]:
  "(\<And>r. P r \<Longrightarrow> r_id (f r) = r_id r) \<Longrightarrow>
   get_run (d\<lparr>scan_runs := update_where P f rows\<rparr>) i =
     map_option (\<lambda>r. if P r then f r else r) (first_row (\<lambda>r. r_id r = i) rows)"
  by (simp add: get_run_def first_row_update)

lemma get_run_member:
  "run_ids_distinct d \<Longrightarrow> r \<in> set (scan_runs d) \<Longrightarrow> get_run d (r_id r) = Some r"
  by (simp add: get_run_def run_ids_distinct_def first_row_key)

lemma get_run_id: "get_run d i = Some r \<Longrightarrow> r_id r = i"
  by (auto simp: get_run_def dest: first_row_Some)

text \<open>C1: a claim takes the oldest queued run of an active account, only when nothing is running
  and no maintenance lock is held; it starts exactly that run and leaves every other run alone.\<close>

theorem claim_takes_oldest:
  assumes "claim_next_job m w t d = (Some j, d')" and "run_ids_distinct d"
  shows "\<exists>r. get_run d j = Some r \<and> r_status r = QUEUED \<and> owner_active d r
           \<and> \<not> m \<and> active_ids d = {}
           \<and> (\<forall>x \<in> set (scan_runs d). r_status x = QUEUED \<and> owner_active d x \<longrightarrow>
                queue_key r \<le> queue_key x)
           \<and> get_run d' j = Some (start_claimed_run w t r)
           \<and> (\<forall>i. i \<noteq> j \<longrightarrow> get_run d' i = get_run d i)"
proof (rule claim_next_job_cases [of m w t d])
  assume "claim_next_job m w t d = (None, d)"
  then show ?thesis using assms by simp
next
  fix r
  assume m: "\<not> m" and r: "r \<in> set (claim_candidates d)"
    and least: "\<forall>x \<in> set (claim_candidates d). queue_key r \<le> queue_key x"
    and eq: "claim_next_job m w t d =
      (Some (r_id r), d\<lparr>scan_runs := update_where (\<lambda>x. r_id x = r_id r \<and> r_status x = QUEUED)
         (start_claimed_run w t) (scan_runs d)\<rparr>)"
  have idle: "\<forall>x \<in> set (scan_runs d). \<not> active_status (r_status x)"
    and rq: "r \<in> set (scan_runs d)" "r_status r = QUEUED" "owner_active d r"
    and cand: "claim_candidates d =
      filter (\<lambda>x. r_status x = QUEUED \<and> owner_active d x) (scan_runs d)"
    using r by (auto simp: claim_candidates_def split: if_splits)
  have j: "j = r_id r" and d': "d' = snd (claim_next_job m w t d)"
    using assms(1) eq by auto
  have got: "get_run d j = Some r"
    using get_run_member [OF assms(2) rq(1)] j by simp
  have "get_run d' i = map_option (\<lambda>x. if r_id x = r_id r \<and> r_status x = QUEUED
      then start_claimed_run w t x else x) (get_run d i)" for i
    by (simp add: d' eq get_run_update) (simp add: get_run_def)
  note upd = this
  have new: "get_run d' j = Some (start_claimed_run w t r)"
    using upd [of j] got rq j by simp
  have others: "\<forall>i. i \<noteq> j \<longrightarrow> get_run d' i = get_run d i"
  proof (intro allI impI)
    fix i assume "i \<noteq> j"
    then show "get_run d' i = get_run d i"
      using upd [of i] j get_run_id [of d i] by (cases "get_run d i") auto
  qed
  show ?thesis
    using got rq m idle least cand new others by (auto simp: active_ids_empty_iff)
qed

text \<open>C2: a claim returns a run exactly when no maintenance lock is held, no run is active and some
  queued run has an active owner: waiting work is never overlooked.\<close>

theorem claim_some_iff:
  "fst (claim_next_job m w t d) \<noteq> None \<longleftrightarrow>
     \<not> m \<and> active_ids d = {} \<and>
     (\<exists>r \<in> set (scan_runs d). r_status r = QUEUED \<and> owner_active d r)"
proof -
  have "fst (claim_next_job m w t d) \<noteq> None \<longleftrightarrow> \<not> m \<and> claim_candidates d \<noteq> []"
    using sort_key_Nil_iff [of queue_key "claim_candidates d"]
    by (cases "sort_key queue_key (claim_candidates d)") (auto simp: claim_next_job_def)
  also have "claim_candidates d \<noteq> [] \<longleftrightarrow> active_ids d = {} \<and>
     (\<exists>r \<in> set (scan_runs d). r_status r = QUEUED \<and> owner_active d r)"
    by (auto simp: claim_candidates_def active_ids_empty_iff filter_empty_conv)
  finally show ?thesis .
qed

lemma claim_none:
  "(\<And>r. r \<in> set (scan_runs d) \<Longrightarrow> r_status r \<noteq> QUEUED) \<Longrightarrow> fst (claim_next_job m w t d) = None"
  by (auto simp: claim_next_job_def claim_candidates_def filter_empty_conv split: list.splits
      dest!: sort_key_Cons)

lemma recover_runs:
  "scan_runs (snd (recover_interrupted_jobs reason t d)) =
     update_where (\<lambda>r. active_status (r_status r)) (interrupt_job reason t) (scan_runs d)"
  by (simp add: recover_interrupted_jobs_def Let_def)

lemma interrupt_job_simps [simp]:
  "r_status (interrupt_job reason t r) = INTERRUPTED"
  "r_id (interrupt_job reason t r) = r_id r"
  by (auto simp: interrupt_job_def)

lemma interrupted_inactive [simp]: "\<not> active_status INTERRUPTED"
  by (simp add: active_status_def)

lemma recovered_idle: "active_ids (snd (recover_interrupted_jobs reason t d)) = {}"
  by (simp add: active_ids_empty_iff recover_runs ball_update_where)

text \<open>What the interruption, the shutdown and the detaching do to one row: \<open>r\<close> before, \<open>r'\<close> after.\<close>

definition interrupted_by :: "string \<Rightarrow> time \<Rightarrow> scan_run \<Rightarrow> scan_run \<Rightarrow> bool" where
  "interrupted_by reason t r r' \<longleftrightarrow>
     r' = r\<lparr>r_status := INTERRUPTED, r_payload := r_payload r', r_error := r_error r',
            r_finished_at := Some t, r_heartbeat_at := Some t, r_worker_id := None\<rparr> \<and>
     r_error r' = Some (if r_error r \<in> {None, Some []} then ''Application stopped before the scan finished''
                        else the (r_error r)) \<and>
     dget (payload_of r') ''interruption_reason'' = JStr reason \<and>
     dget (payload_of r') ''interrupted_at'' = JTime t \<and>
     dget (payload_of r') ''current_project_id'' = JNull \<and>
     (\<forall>k. dget (payload_of r') k \<noteq> dget (payload_of r) k \<longrightarrow>
        k \<in> {''current_project_id'', ''interrupted_at'', ''interruption_reason''})"

definition shut_down :: "time \<Rightarrow> scan_run \<Rightarrow> scan_run \<Rightarrow> bool" where
  "shut_down t r r' \<longleftrightarrow>
     r' = (if r_status r = QUEUED
           then r\<lparr>r_status := CANCELLED, r_payload := r_payload r', r_finished_at := Some t,
                  r_heartbeat_at := Some t, r_worker_id := None\<rparr>
           else r\<lparr>r_status := CANCEL_REQUESTED, r_payload := r_payload r', r_heartbeat_at := Some t\<rparr>) \<and>
     dget (payload_of r') ''cancellation_reason'' = JStr ''APPLICATION_SHUTDOWN'' \<and>
     dget (payload_of r') ''shutdown_requested_at'' = JTime t \<and>
     (\<forall>k. dget (payload_of r') k \<noteq> dget (payload_of r) k \<longrightarrow>
        k \<in> {''cancellation_reason'', ''shutdown_requested_at''})"

text \<open>A scan that goes on without the project: another one remains, and it is not the one being scanned.\<close>

definition keeps_scanning :: "int \<Rightarrow> scan_run \<Rightarrow> bool" where
  "keeps_scanning pid r \<longleftrightarrow> filter (\<lambda>i. i \<noteq> JInt pid) (project_ids_of (payload_of r)) \<noteq> [] \<and>
     dget (payload_of r) ''current_project_id'' \<noteq> JInt pid"

definition detached :: "int \<Rightarrow> time \<Rightarrow> scan_run \<Rightarrow> scan_run \<Rightarrow> bool" where
  "detached pid t r r' \<longleftrightarrow>
     project_ids_of (payload_of r') = filter (\<lambda>i. i \<noteq> JInt pid) (project_ids_of (payload_of r)) \<and>
     r' = (if keeps_scanning pid r then r\<lparr>r_payload := r_payload r'\<rparr>
           else if r_status r = QUEUED
           then r\<lparr>r_status := CANCELLED, r_payload := r_payload r', r_finished_at := Some t,
                  r_heartbeat_at := Some t, r_worker_id := None\<rparr>
           else r\<lparr>r_status := CANCEL_REQUESTED, r_payload := r_payload r'\<rparr>) \<and>
     (\<not> keeps_scanning pid r \<longrightarrow> dget (payload_of r') ''cancellation_reason'' = JStr ''PROJECT_DELETED'') \<and>
     (\<forall>k. dget (payload_of r') k \<noteq> dget (payload_of r) k \<longrightarrow>
        k = ''project_ids'' \<or>
        (\<not> keeps_scanning pid r \<and> k \<in> {''cancellation_reason'', ''cancellation_requested_at''}) \<or>
        (\<not> keeps_scanning pid r \<and> r_status r = QUEUED \<and>
         k \<in> {''cancelled_at'', ''current_project_id'', ''report'', ''failures'', ''summary''}))"

lemma interrupted_by_kept:
  assumes "interrupted_by reason t r r'"
  shows "r_id r' = r_id r" "r_status r' = INTERRUPTED"
proof -
  have eq: "r' = r\<lparr>r_status := INTERRUPTED, r_payload := r_payload r', r_error := r_error r',
      r_finished_at := Some t, r_heartbeat_at := Some t, r_worker_id := None\<rparr>"
    using assms unfolding interrupted_by_def by blast
  show "r_id r' = r_id r" by (subst eq) simp
  show "r_status r' = INTERRUPTED" by (subst eq) simp
qed

lemma recover_spec:
  assumes "active_status (r_status r)"
  shows "interrupted_by reason t r (interrupt_job reason t r)"
proof -
  have "r_error (interrupt_job reason t r) = Some (if r_error r \<in> {None, Some []}
      then ''Application stopped before the scan finished'' else the (r_error r))"
    by (auto simp: interrupt_job_def str_or_def split: option.split)
  then show ?thesis
    by (auto simp: interrupted_by_def interrupt_job_def payload_of_def dget_dmerge)
qed

text \<open>C3: after a restart nothing is active any more. The recovered identifiers are exactly the runs
  that were active; each becomes an interrupted, finished history entry with an error text, the
  reason and without a worker, and otherwise keeps its row (identity, owner, report and all else).
  The open project runs of these runs are interrupted. Every other run, every other project run and
  every other table is exactly as it was.\<close>

theorem recover_leaves_idle:
  "case recover_interrupted_jobs reason t d of (ids, d') \<Rightarrow>
     set ids = active_ids d \<and> active_ids d' = {} \<and>
     changes_rows (\<lambda>r. active_status (r_status r)) (interrupted_by reason t) (scan_runs d) (scan_runs d') \<and>
     changes_rows (\<lambda>x. psr_scan_run_id x \<in> active_ids d \<and> psr_status x \<in> {QUEUED, RUNNING})
       (\<lambda>x x'. x' = x\<lparr>psr_status := INTERRUPTED, psr_error_code := psr_error_code x'\<rparr> \<and> psr_error_code x' \<noteq> None)
       (project_scan_runs d) (project_scan_runs d') \<and>
     d' = d\<lparr>scan_runs := scan_runs d', project_scan_runs := project_scan_runs d'\<rparr>"
proof -
  let ?ids = "fst (recover_interrupted_jobs reason t d)"
  let ?d' = "snd (recover_interrupted_jobs reason t d)"
  have ids: "set ?ids = active_ids d"
    by (auto simp: recover_interrupted_jobs_def active_ids_def Let_def)
  have "changes_rows (\<lambda>r. active_status (r_status r)) (interrupted_by reason t) (scan_runs d) (scan_runs ?d')"
    unfolding recover_runs by (rule changes_rows_update) (rule recover_spec)
  moreover have "changes_rows (open_project_run ?ids)
      (\<lambda>x x'. x' = x\<lparr>psr_status := INTERRUPTED, psr_error_code := psr_error_code x'\<rparr> \<and> psr_error_code x' \<noteq> None)
      (project_scan_runs d) (project_scan_runs ?d')"
    by (simp add: recover_interrupted_jobs_def Let_def changes_rows_update)
  moreover have "?d' = d\<lparr>scan_runs := scan_runs ?d', project_scan_runs := project_scan_runs ?d'\<rparr>"
    by (simp add: recover_interrupted_jobs_def Let_def)
  ultimately show ?thesis
    using recovered_idle [of reason t d] unfolding open_project_run_def case_prod_beta ids by blast
qed

text \<open>C4: a shutdown request drains the queue: every queued run is cancelled at once, every running one is
  asked to stop, both with the reason and otherwise the row they had; the reported identifiers are
  exactly these runs. The open project runs of the cancelled runs are cancelled. Every other run,
  project run and table is exactly as it was, and no later claim finds work.\<close>

theorem shutdown_drains_queue:
  "case request_shutdown_cancellation t d of ((cancelled, requested), d') \<Rightarrow>
     set cancelled = r_id ` {r \<in> set (scan_runs d). r_status r = QUEUED} \<and>
     set requested = r_id ` {r \<in> set (scan_runs d). r_status r = RUNNING} \<and>
     changes_rows (\<lambda>r. r_status r \<in> {QUEUED, RUNNING}) (shut_down t) (scan_runs d) (scan_runs d') \<and>
     changes_rows (\<lambda>x. psr_scan_run_id x \<in> set cancelled \<and> psr_status x \<in> {QUEUED, RUNNING})
       (\<lambda>x x'. x' = x\<lparr>psr_status := CANCELLED, psr_error_code := None\<rparr>)
       (project_scan_runs d) (project_scan_runs d') \<and>
     d' = d\<lparr>scan_runs := scan_runs d', project_scan_runs := project_scan_runs d'\<rparr> \<and>
     (\<forall>m w t'. fst (claim_next_job m w t' d') = None)"
proof -
  let ?r = "request_shutdown_cancellation t d"
  have rows: "scan_runs (snd ?r) = update_where (\<lambda>r. r_status r \<in> {QUEUED, RUNNING}) (shutdown_job t) (scan_runs d)"
    by (rule shutdown.rows)
  have "shut_down t r (shutdown_job t r)" if "r_status r \<in> {QUEUED, RUNNING}" for r
    using that by (auto simp: shut_down_def shutdown_job_def Let_def payload_of_def dget_dmerge)
  then have "changes_rows (\<lambda>r. r_status r \<in> {QUEUED, RUNNING}) (shut_down t) (scan_runs d) (scan_runs (snd ?r))"
    unfolding rows by (rule changes_rows_update)
  moreover have "changes_rows (\<lambda>x. psr_scan_run_id x \<in> set (fst (fst ?r)) \<and> psr_status x \<in> {QUEUED, RUNNING})
       (\<lambda>x x'. x' = x\<lparr>psr_status := CANCELLED, psr_error_code := None\<rparr>)
       (project_scan_runs d) (project_scan_runs (snd ?r))"
    unfolding open_project_run_def [symmetric]
    by (simp add: request_shutdown_cancellation_def Let_def changes_rows_update)
  moreover have "snd ?r = d\<lparr>scan_runs := scan_runs (snd ?r), project_scan_runs := project_scan_runs (snd ?r)\<rparr>"
    by (simp add: request_shutdown_cancellation_def Let_def)
  moreover have "fst (claim_next_job m w t' (snd ?r)) = None" for m w t'
    by (rule claim_none) (auto simp: rows set_update_where shutdown_job_def Let_def)
  moreover have "set (fst (fst ?r)) = r_id ` {r \<in> set (scan_runs d). r_status r = QUEUED}"
    "set (snd (fst ?r)) = r_id ` {r \<in> set (scan_runs d). r_status r = RUNNING}"
    by (auto simp: request_shutdown_cancellation_def Let_def)
  ultimately show ?thesis by (simp only: case_prod_beta simp_thms)
qed

lemma detach_job_payload:
  assumes "JInt pid \<in> set (project_ids_of (payload_of r))"
  shows "project_ids_of (payload_of (detach_job pid t r)) =
           filter (\<lambda>i. i \<noteq> JInt pid) (project_ids_of (payload_of r))"
  using assms
  by (auto simp: detach_job_def Let_def payload_of_def project_ids_of_def dget_dmerge
      cancelled_result_def)

lemma detach_job_reason:
  assumes "JInt pid \<in> set (project_ids_of (payload_of r))" and "\<not> keeps_scanning pid r"
  shows "dget (payload_of (detach_job pid t r)) ''cancellation_reason'' = JStr ''PROJECT_DELETED''"
  using assms
  by (auto simp: detach_job_def keeps_scanning_def Let_def payload_of_def dget_dmerge cancelled_result_def)

lemma cancelled_result_keys:
  "has_key (cancelled_result t p) k \<Longrightarrow>
     k \<in> {''cancelled_at'', ''current_project_id'', ''report'', ''failures'', ''summary''}"
  by (auto simp: cancelled_result_def has_key_def split: if_splits)

lemma reason_keys:
  "has_key [(''cancellation_reason'', v), (''cancellation_requested_at'', w)] k \<Longrightarrow>
     k \<in> {''cancellation_reason'', ''cancellation_requested_at''}"
  by (auto simp: has_key_def split: if_splits)

lemma detach_job_keys:
  assumes "JInt pid \<in> set (project_ids_of (payload_of r))"
    and "dget (payload_of (detach_job pid t r)) k \<noteq> dget (payload_of r) k"
  shows "k = ''project_ids'' \<or>
    (\<not> keeps_scanning pid r \<and> k \<in> {''cancellation_reason'', ''cancellation_requested_at''}) \<or>
    (\<not> keeps_scanning pid r \<and> r_status r = QUEUED \<and>
     k \<in> {''cancelled_at'', ''current_project_id'', ''report'', ''failures'', ''summary''})"
proof (cases "keeps_scanning pid r")
  case True
  then show ?thesis
    using assms by (auto simp: detach_job_def keeps_scanning_def Let_def payload_of_def split: if_splits)
next
  case False
  have "detach_job pid t r = (let payload = dmerge (dset (payload_of r) ''project_ids''
        (JList (filter (\<lambda>i. i \<noteq> JInt pid) (project_ids_of (payload_of r)))))
        [(''cancellation_reason'', JStr ''PROJECT_DELETED''), (''cancellation_requested_at'', JTime t)]
      in if r_status r = QUEUED
         then r\<lparr>r_status := CANCELLED, r_finished_at := Some t, r_heartbeat_at := Some t, r_worker_id := None,
                r_payload := Some (dmerge payload (cancelled_result t payload))\<rparr>
         else r\<lparr>r_status := CANCEL_REQUESTED, r_payload := Some payload\<rparr>)"
    using assms(1) False by (auto simp: detach_job_def keeps_scanning_def Let_def)
  then have "payload_of (detach_job pid t r) = (let payload = dmerge (dset (payload_of r) ''project_ids''
        (JList (filter (\<lambda>i. i \<noteq> JInt pid) (project_ids_of (payload_of r)))))
        [(''cancellation_reason'', JStr ''PROJECT_DELETED''), (''cancellation_requested_at'', JTime t)]
      in if r_status r = QUEUED then dmerge payload (cancelled_result t payload) else payload)"
    by (simp only: Let_def payload_of_def split: if_split) (simp add: payload_of_def)
  then show ?thesis
    using assms(2) False cancelled_result_keys [of t _ k] reason_keys [of _ _ k]
    by (simp only: Let_def dget_dmerge dget_dset split: if_splits) blast+
qed

lemma detach_job_skip:
  "JInt pid \<notin> set (project_ids_of (payload_of r)) \<Longrightarrow> detach_job pid t r = r"
  by (simp add: detach_job_def Let_def)

lemma detach_job_gone: "JInt pid \<notin> set (project_ids_of (payload_of (detach_job pid t r)))"
  by (cases "JInt pid \<in> set (project_ids_of (payload_of r))") (simp_all add: detach_job_payload detach_job_skip)

lemma detach_spec:
  assumes "JInt pid \<in> set (project_ids_of (payload_of r))"
  shows "detached pid t r (detach_job pid t r)"
proof -
  have "project_ids_of (payload_of (detach_job pid t r)) =
      filter (\<lambda>i. i \<noteq> JInt pid) (project_ids_of (payload_of r))"
    by (rule detach_job_payload [OF assms])
  moreover have "detach_job pid t r = (if keeps_scanning pid r then r\<lparr>r_payload := r_payload (detach_job pid t r)\<rparr>
      else if r_status r = QUEUED
      then r\<lparr>r_status := CANCELLED, r_payload := r_payload (detach_job pid t r), r_finished_at := Some t,
             r_heartbeat_at := Some t, r_worker_id := None\<rparr>
      else r\<lparr>r_status := CANCEL_REQUESTED, r_payload := r_payload (detach_job pid t r)\<rparr>)"
    using assms by (simp add: detach_job_def keeps_scanning_def Let_def)
  ultimately show ?thesis
    unfolding detached_def
    by (intro conjI allI impI)
      (assumption, assumption, erule detach_job_reason [OF assms], erule detach_job_keys [OF assms])
qed

lemma detach_rows_changed:
  "changes_rows (\<lambda>r. detachable owner r \<and> JInt pid \<in> set (project_ids_of (payload_of r))) (detached pid t)
     (scan_runs d) (scan_runs (snd (detach_project_from_active_jobs owner pid t d)))"
proof -
  have "scan_runs (snd (detach_project_from_active_jobs owner pid t d)) =
      update_where (detachable owner) (detach_job pid t) (scan_runs d)"
    by (rule detach.rows)
  also have "\<dots> = update_where (\<lambda>r. detachable owner r \<and> JInt pid \<in> set (project_ids_of (payload_of r)))
      (detach_job pid t) (scan_runs d)"
    by (auto simp: update_where_def detach_job_skip)
  finally show ?thesis by (simp only:) (rule changes_rows_update, simp only: detach_spec)
qed

text \<open>C5: deleting a project takes it out of the queued and active project scans of its owner, and touches
  nothing else: exactly the runs that list it are reported and changed. Such a run keeps its other
  projects and its status if one remains and the deleted project is not the one being scanned;
  otherwise it is cancelled, at once when it was queued and through a request when it was active, with
  the reason and only the fields of a cancellation changed. Every other run and every other table is
  exactly as it was.\<close>

theorem detach_removes_project:
  "case detach_project_from_active_jobs owner pid t d of (affected, d') \<Rightarrow>
     set affected = r_id ` {r \<in> set (scan_runs d). detachable owner r \<and>
        JInt pid \<in> set (project_ids_of (payload_of r))} \<and>
     changes_rows (\<lambda>r. detachable owner r \<and> JInt pid \<in> set (project_ids_of (payload_of r))) (detached pid t)
       (scan_runs d) (scan_runs d') \<and>
     list_all (\<lambda>r. detachable owner r \<longrightarrow> JInt pid \<notin> set (project_ids_of (payload_of r))) (scan_runs d') \<and>
     d' = d\<lparr>scan_runs := scan_runs d'\<rparr>"
proof -
  let ?r = "detach_project_from_active_jobs owner pid t d"
  note detach_rows_changed [of owner pid t d]
  moreover have "list_all (\<lambda>r. detachable owner r \<longrightarrow> JInt pid \<notin> set (project_ids_of (payload_of r))) (scan_runs (snd ?r))"
    by (simp add: detach.rows list_all_iff ball_update_where detach_job_gone)
  moreover have "set (fst ?r) = r_id ` {r \<in> set (scan_runs d). detachable owner r \<and>
        JInt pid \<in> set (project_ids_of (payload_of r))}" "snd ?r = d\<lparr>scan_runs := scan_runs (snd ?r)\<rparr>"
    by (simp_all add: detach_project_from_active_jobs_def)
  ultimately show ?thesis by (simp only: case_prod_beta simp_thms)
qed

section \<open>Witnesses\<close>

lemma claim_takes_oldest_witness:
  "\<exists>d'. claim_next_job False ''w'' 30 (sample_queue QUEUED) = (Some 2, d') \<and>
     get_run d' 2 \<noteq> None \<and> get_run d' 1 = get_run (sample_queue QUEUED) 1"
proof -
  have run: "\<exists>d'. claim_next_job False ''w'' 30 (sample_queue QUEUED) = (Some 2, d')"
    by (simp add: claim_next_job_def claim_candidates_def sample_queue_def sample_defs
        empty_db_def owner_active_def active_status_def queue_key_def less_eq_queue_key_def)
  have ids: "run_ids_distinct (sample_queue QUEUED)"
    by (simp add: run_ids_distinct_def sample_queue_def sample_defs empty_db_def)
  from run obtain d' where d': "claim_next_job False ''w'' 30 (sample_queue QUEUED) = (Some 2, d')"
    by blast
  from claim_takes_oldest [OF d' ids] d' show ?thesis by force
qed

lemma sample_queue_active: "active_ids (sample_queue RUNNING) = {2}"
  unfolding active_ids_def image_set_filter
  by (simp add: sample_queue_def sample_defs empty_db_def active_status_def)

lemma recover_leaves_idle_witness:
  "\<exists>r'. get_run (snd (recover_interrupted_jobs ''RESTART'' 9 (sample_queue RUNNING))) 2 = Some r' \<and>
     interrupted_by ''RESTART'' 9 (sample_run 2 7 RUNNING 10 [(''project_ids'', JList [JInt 4])]) r'"
proof -
  let ?a = "sample_run 1 7 QUEUED 20 [(''project_ids'', JList [JInt 4, JInt 5])]"
  let ?b = "sample_run 2 7 RUNNING 10 [(''project_ids'', JList [JInt 4])]"
  let ?d' = "snd (recover_interrupted_jobs ''RESTART'' 9 (sample_queue RUNNING))"
  have runs: "scan_runs (sample_queue RUNNING) = [?a, ?b]" by (simp add: sample_queue_def)
  have "changes_rows (\<lambda>r. active_status (r_status r)) (interrupted_by ''RESTART'' 9) [?a, ?b] (scan_runs ?d')"
    using recover_leaves_idle [where reason = "''RESTART''" and t = 9 and d = "sample_queue RUNNING"] by (simp only: runs case_prod_beta simp_thms)
  then obtain b' where b': "scan_runs ?d' = [?a, b']" "interrupted_by ''RESTART'' 9 ?b b'"
    by (auto simp: changes_rows_def list_all2_Cons1 active_status_def sample_run_def)
  then have "r_id b' = 2" using interrupted_by_kept(1) [OF b'(2)] by (simp add: sample_run_def)
  with b' show ?thesis by (simp add: get_run_def first_row_def sample_run_def)
qed

lemma shutdown_drains_queue_witness:
  "set (fst (fst (request_shutdown_cancellation 9 (sample_queue RUNNING)))) = {1} \<and>
   fst (claim_next_job False ''w'' 10 (snd (request_shutdown_cancellation 9 (sample_queue RUNNING)))) = None"
proof -
  have "r_id ` {r \<in> set (scan_runs (sample_queue RUNNING)). r_status r = QUEUED} = {1}"
    unfolding image_set_filter by (simp add: sample_queue_def sample_defs empty_db_def)
  then show ?thesis
    using shutdown_drains_queue [where d = "sample_queue RUNNING" and t = 9] by (auto simp: case_prod_unfold)
qed

lemma detach_removes_project_witness:
  "\<exists>x y. scan_runs (snd (detach_project_from_active_jobs 7 4 9 (sample_queue RUNNING))) = [x, y] \<and>
     r_status x = QUEUED \<and> r_status y = CANCEL_REQUESTED"
proof -
  let ?a = "sample_run 1 7 QUEUED 20 [(''project_ids'', JList [JInt 4, JInt 5])]"
  let ?b = "sample_run 2 7 RUNNING 10 [(''project_ids'', JList [JInt 4])]"
  let ?d' = "snd (detach_project_from_active_jobs 7 4 9 (sample_queue RUNNING))"
  have runs: "scan_runs (sample_queue RUNNING) = [?a, ?b]" by (simp add: sample_queue_def)
  have "changes_rows (\<lambda>r. detachable 7 r \<and> JInt 4 \<in> set (project_ids_of (payload_of r))) (detached 4 9) [?a, ?b] (scan_runs ?d')"
    using detach_removes_project [where owner = 7 and pid = 4 and t = 9 and d = "sample_queue RUNNING"] by (simp only: runs case_prod_beta simp_thms)
  moreover have "detachable 7 ?a" "detachable 7 ?b" "JInt 4 \<in> set (project_ids_of (payload_of ?a))"
    "JInt 4 \<in> set (project_ids_of (payload_of ?b))" "keeps_scanning 4 ?a" "\<not> keeps_scanning 4 ?b"
    by (auto simp: detachable_def sample_run_def project_ids_of_def payload_of_def keeps_scanning_def)
  ultimately obtain x y where xy: "scan_runs ?d' = [x, y]" "detached 4 9 ?a x" "detached 4 9 ?b y"
    by (auto simp: changes_rows_def list_all2_Cons1)
  then have "x = ?a\<lparr>r_payload := r_payload x\<rparr>" "y = ?b\<lparr>r_status := CANCEL_REQUESTED, r_payload := r_payload y\<rparr>"
    using \<open>keeps_scanning 4 ?a\<close> \<open>\<not> keeps_scanning 4 ?b\<close> by (simp_all add: detached_def sample_run_def)
  then have "r_status x = r_status (?a\<lparr>r_payload := r_payload x\<rparr>)"
    "r_status y = r_status (?b\<lparr>r_status := CANCEL_REQUESTED, r_payload := r_payload y\<rparr>)"
    by (simp_all only:)
  then show ?thesis using xy(1) by (simp add: sample_run_def)
qed

end
