(* ===== verification/Scheduler.thy ===== *)
theory Scheduler
  imports JobQueue
begin

text \<open>
  Automatic scans: \<^verbatim>\<open>backend/app/desktop_scheduler.py\<close> (what the desktop shell asks after a resume and
  shows in the tray), \<^verbatim>\<open>enqueue_scheduled\<close> and the two timer updates of \<^verbatim>\<open>backend/app/worker.py\<close>, and the
  scheduler requests of \<^verbatim>\<open>backend/app/main.py\<close>. Every account has at most one row in
  \<^verbatim>\<open>scheduler_settings\<close>; \<^verbatim>\<open>scheduled_projects\<close> lists the projects of a row.
\<close>

section \<open>What the desktop shell asks\<close>

definition has_scheduled_project :: "db \<Rightarrow> scheduler_setting \<Rightarrow> bool" where
  "has_scheduled_project d s \<longleftrightarrow> (\<exists>x \<in> set (scheduled_projects d). sp_scheduler_id x = s_id s)"

definition owner_is_active :: "db \<Rightarrow> int \<Rightarrow> bool" where
  "owner_is_active d i \<longleftrightarrow> (\<exists>u \<in> set (users d). u_id u = i \<and> u_status u = ACTIVE)"

definition is_configured :: "db \<Rightarrow> scheduler_setting \<Rightarrow> bool" where
  "is_configured d s \<longleftrightarrow> s_enabled s \<and> owner_is_active d (s_user_id s) \<and> has_scheduled_project d s"

definition configured_settings :: "db \<Rightarrow> scheduler_setting list" where
  "configured_settings d = filter (is_configured d) (scheduler_settings d)"

definition scheduler_is_overdue :: "scheduler_setting \<Rightarrow> time \<Rightarrow> bool" where
  "scheduler_is_overdue s now =
     (case s_next_run_at s of
        Some n \<Rightarrow> n \<le> now
      | None \<Rightarrow> (case s_last_completed_run_at s of
            None \<Rightarrow> False
          | Some c \<Rightarrow> c + minutes (s_interval_minutes s) \<le> now))"

definition scheduler_is_overdue_after_resume :: "scheduler_setting \<Rightarrow> time \<Rightarrow> bool" where
  "scheduler_is_overdue_after_resume s now =
     (case s_last_completed_run_at s of
        Some c \<Rightarrow> c + minutes (s_interval_minutes s) \<le> now
      | None \<Rightarrow> scheduler_is_overdue s now)"

definition catch_up_due :: "db \<Rightarrow> time \<Rightarrow> int set \<Rightarrow> scheduler_setting \<Rightarrow> bool" where
  "catch_up_due d now forced s \<longleftrightarrow> is_configured d s \<and>
     \<not> (s_paused s \<or> (s_user_id s \<notin> forced \<and> \<not> scheduler_is_overdue_after_resume s now))"

definition prepare_overdue_scheduler_catch_up ::
  "time \<Rightarrow> int set \<Rightarrow> db \<Rightarrow> int list \<times> db" where
  "prepare_overdue_scheduler_catch_up now forced d =
     (map s_id (filter (catch_up_due d now forced) (scheduler_settings d)),
      d\<lparr>scheduler_settings := update_where (catch_up_due d now forced)
          (\<lambda>s. s\<lparr>s_next_run_at := Some now\<rparr>) (scheduler_settings d)\<rparr>)"

record tray_status =
  ts_enabled :: bool
  ts_paused :: bool
  ts_next_run_at :: "time option"

fun min_time :: "time list \<Rightarrow> time option" where
  "min_time [] = None"
| "min_time (t # ts) = Some (foldl min t ts)"

definition tray_scheduler_status :: "db \<Rightarrow> tray_status" where
  "tray_scheduler_status d =
     (let configured = configured_settings d
      in \<lparr>ts_enabled = (configured \<noteq> []),
          ts_paused = (configured \<noteq> [] \<and> list_all s_paused configured),
          ts_next_run_at = min_time (List.map_filter s_next_run_at configured)\<rparr>)"

definition toggle_all_schedulers :: "time \<Rightarrow> db \<Rightarrow> tray_status \<times> db" where
  "toggle_all_schedulers now d =
     (let settings = configured_settings d
      in if settings = [] then (\<lparr>ts_enabled = False, ts_paused = False, ts_next_run_at = None\<rparr>, d)
         else
           let pause = (\<exists>s \<in> set settings. \<not> s_paused s);
               d' = d\<lparr>scheduler_settings := update_where (is_configured d)
                 (\<lambda>s. s\<lparr>s_paused := pause,
                        s_next_run_at := (if \<not> pause \<and> s_next_run_at s = None then Some now
                                          else s_next_run_at s)\<rparr>)
                 (scheduler_settings d)\<rparr>
           in (tray_scheduler_status d', d'))"

section \<open>Queueing automatic scans\<close>

definition open_status :: "run_status \<Rightarrow> bool" where
  "open_status s \<longleftrightarrow> s \<in> {QUEUED, RUNNING, CANCEL_REQUESTED}"

definition open_runs :: "db \<Rightarrow> int \<Rightarrow> scan_run list" where
  "open_runs d owner = filter (\<lambda>r. r_owner_id r = owner \<and> open_status (r_status r)) (scan_runs d)"

definition add_run :: "int \<Rightarrow> string \<Rightarrow> dict \<Rightarrow> time \<Rightarrow> db \<Rightarrow> db" where
  "add_run owner kind payload t d = d\<lparr>scan_runs := scan_runs d @
     [\<lparr>r_id = fresh_id (map r_id (scan_runs d)), r_owner_id = owner, r_kind = kind,
       r_status = QUEUED, r_progress = 0, r_payload = Some payload, r_error = None,
       r_worker_id = None, r_attempt_count = Some 0, r_started_at = None,
       r_heartbeat_at = None, r_finished_at = None, r_created_at = whole_second t\<rparr>]\<rparr>"

definition set_setting :: "int \<Rightarrow> (scheduler_setting \<Rightarrow> scheduler_setting) \<Rightarrow> db \<Rightarrow> db" where
  "set_setting i f d = d\<lparr>scheduler_settings :=
     update_where (\<lambda>s. s_id s = i) f (scheduler_settings d)\<rparr>"

text \<open>Neither this query nor \<open>scheduled_ids\<close> below has an \<^verbatim>\<open>ORDER BY\<close>: SQLite answers both from the index of a primary
key, in the order of the project identifiers.\<close>

definition auto_project_ids :: "db \<Rightarrow> scheduler_setting \<Rightarrow> int list" where
  "auto_project_ids d s =
     sort (map sp_project_id (filter (\<lambda>x. sp_scheduler_id x = s_id s \<and>
        (\<exists>p \<in> set (projects d). p_id p = sp_project_id x \<and> p_owner_id p = s_user_id s \<and>
           p_auto_update p)) (scheduled_projects d)))"

definition automatic_run_payload :: "int list \<Rightarrow> dict" where
  "automatic_run_payload ids =
     [(''project_ids'', JList (map JInt ids)),
      (''scheduled'', JBool True),
      (''trigger'', JStr ''AUTOMATIC'')]"

definition enqueue_setting :: "bool \<Rightarrow> time \<Rightarrow> scheduler_setting \<Rightarrow> db \<Rightarrow> db" where
  "enqueue_setting entitled now s d =
     (let later = set_setting (s_id s)
            (\<lambda>s. s\<lparr>s_next_run_at := Some (now + minutes (s_interval_minutes s))\<rparr>)
      in if s_paused s then d
         else case s_next_run_at s of
           None \<Rightarrow> later d
         | Some n \<Rightarrow>
             if n > now then d
             else if \<not> entitled then later d
             else
               let ids = auto_project_ids d s
               in if ids = []
                  then set_setting (s_id s)
                         (\<lambda>s. s\<lparr>s_enabled := False, s_next_run_at := None\<rparr>) d
                  else if open_runs d (s_user_id s) \<noteq> [] then later d
                  else later (add_run (s_user_id s) ''PROJECTS''
                                (automatic_run_payload ids) now d))"

definition settings_to_check :: "db \<Rightarrow> scheduler_setting list" where
  "settings_to_check d =
     filter (\<lambda>s. s_enabled s \<and> owner_is_active d (s_user_id s)) (scheduler_settings d)"

definition enqueue_scheduled :: "bool \<Rightarrow> bool \<Rightarrow> time \<Rightarrow> db \<Rightarrow> db" where
  "enqueue_scheduled maintenance entitled now d =
     (if maintenance then d
      else foldl (\<lambda>d s. enqueue_setting entitled now s d) d (settings_to_check d))"

section \<open>Timer updates when a scan ends\<close>

definition enabled_setting :: "db \<Rightarrow> int \<Rightarrow> scheduler_setting option" where
  "enabled_setting d usr =
     (case first_row (\<lambda>s. s_user_id s = usr \<and> s_enabled s) (scheduler_settings d) of
        Some s \<Rightarrow> if has_scheduled_project d s then Some s else None
      | None \<Rightarrow> None)"

definition set_run :: "int \<Rightarrow> (scan_run \<Rightarrow> scan_run) \<Rightarrow> db \<Rightarrow> db" where
  "set_run i f d = d\<lparr>scan_runs := update_where (\<lambda>r. r_id r = i) f (scan_runs d)\<rparr>"

definition reanchor_scheduler_after_manual_projects :: "scan_run \<Rightarrow> time \<Rightarrow> db \<Rightarrow> db" where
  "reanchor_scheduler_after_manual_projects job finished_at d =
     (let payload = payload_of job
      in if r_kind job \<noteq> ''PROJECTS'' \<or> dget payload ''trigger'' \<noteq> JStr ''MANUAL'' \<or>
            r_started_at job = None
         then d
         else case enabled_setting d (r_owner_id job) of
           None \<Rightarrow> d
         | Some s \<Rightarrow>
             let next = finished_at + minutes (s_interval_minutes s)
             in set_run (r_id job)
                  (\<lambda>r. r\<lparr>r_payload := Some (dmerge payload
                     [(''scheduler_reanchored_at'', JTime finished_at),
                      (''scheduler_next_run_at'', JTime next)])\<rparr>)
                  (set_setting (s_id s) (\<lambda>s. s\<lparr>s_next_run_at := Some next\<rparr>) d))"

definition record_completed_scheduler_run :: "scan_run \<Rightarrow> time \<Rightarrow> db \<Rightarrow> db" where
  "record_completed_scheduler_run job finished_at d =
     (let payload = payload_of job
      in if r_status job \<noteq> SUCCEEDED \<or> r_kind job \<noteq> ''PROJECTS'' \<or>
            \<not> (dget payload ''trigger'' = JStr ''MANUAL'' \<or> automatic_payload payload)
         then d
         else case enabled_setting d (r_owner_id job) of
           None \<Rightarrow> d
         | Some s \<Rightarrow>
             let next = finished_at + minutes (s_interval_minutes s)
             in set_run (r_id job)
                  (\<lambda>r. r\<lparr>r_payload := Some (dmerge payload
                     [(''scheduler_last_completed_run_at'', JTime finished_at),
                      (''scheduler_next_run_at'', JTime next)])\<rparr>)
                  (set_setting (s_id s) (\<lambda>s. s\<lparr>s_last_completed_run_at := Some finished_at,
                                                 s_next_run_at := Some next\<rparr>) d))"

section \<open>Scheduler requests\<close>

record scheduler_in =
  si_enabled :: bool
  si_paused :: bool
  si_interval_minutes :: int
  si_project_ids :: "int list"
  si_performance_mode :: string

text \<open>The values \<^verbatim>\<open>SchedulerIn\<close> admits.\<close>

definition valid_scheduler_in :: "scheduler_in \<Rightarrow> bool" where
  "valid_scheduler_in b \<longleftrightarrow> si_interval_minutes b \<in> {60, 180, 360, 720, 1440} \<and>
     si_performance_mode b \<in> {''ECO'', ''FAST''}"

record scheduler_view =
  sv_enabled :: bool
  sv_paused :: bool
  sv_interval_minutes :: int
  sv_performance_mode :: string
  sv_project_ids :: "int list"
  sv_next_run_at :: "time option"
  sv_last_completed_run_at :: "time option"

definition scheduled_ids :: "db \<Rightarrow> int \<Rightarrow> int list" where
  "scheduled_ids d i =
     sort (map sp_project_id (filter (\<lambda>x. sp_scheduler_id x = i) (scheduled_projects d)))"

definition setting_of :: "db \<Rightarrow> int \<Rightarrow> scheduler_setting option" where
  "setting_of d usr = first_row (\<lambda>s. s_user_id s = usr) (scheduler_settings d)"

definition scheduler_out :: "int \<Rightarrow> db \<Rightarrow> scheduler_view" where
  "scheduler_out usr d =
     (case setting_of d usr of
        None \<Rightarrow> \<lparr>sv_enabled = False, sv_paused = False, sv_interval_minutes = 180,
          sv_performance_mode = ''FAST'', sv_project_ids = [], sv_next_run_at = None,
          sv_last_completed_run_at = None\<rparr>
      | Some s \<Rightarrow>
          let ids = scheduled_ids d (s_id s)
          in \<lparr>sv_enabled = (s_enabled s \<and> ids \<noteq> []), sv_paused = s_paused s,
              sv_interval_minutes = s_interval_minutes s,
              sv_performance_mode = s_performance_mode s,
              sv_project_ids = ids,
              sv_next_run_at = (if ids \<noteq> [] then s_next_run_at s else None),
              sv_last_completed_run_at =
                (if ids \<noteq> [] then s_last_completed_run_at s else None)\<rparr>)"

definition owned_project_ids :: "db \<Rightarrow> int \<Rightarrow> int set" where
  "owned_project_ids d usr = p_id ` {p \<in> set (projects d). p_owner_id p = usr}"

definition new_setting :: "int \<Rightarrow> db \<Rightarrow> scheduler_setting" where
  "new_setting usr d = \<lparr>s_id = fresh_id (map s_id (scheduler_settings d)), s_user_id = usr,
     s_enabled = False, s_paused = False, s_interval_minutes = 180,
     s_performance_mode = ''FAST'', s_next_run_at = None, s_last_completed_run_at = None\<rparr>"

definition apply_scheduler_in ::
  "time \<Rightarrow> scheduler_in \<Rightarrow> int list \<Rightarrow> int set \<Rightarrow> scheduler_setting \<Rightarrow> scheduler_setting" where
  "apply_scheduler_in now body ids previous s =
     (let reanchor = (\<not> s_enabled s \<or> s_interval_minutes s \<noteq> si_interval_minutes body \<or>
            previous \<noteq> set ids \<or> s_next_run_at s = None)
      in s\<lparr>s_enabled := si_enabled body,
           s_paused := (if si_enabled body then si_paused body else False),
           s_interval_minutes := si_interval_minutes body,
           s_performance_mode := si_performance_mode body,
           s_next_run_at :=
             (if \<not> si_enabled body then None
              else if reanchor then Some (now + minutes (si_interval_minutes body))
              else s_next_run_at s)\<rparr>)"

definition set_scheduler ::
  "time \<Rightarrow> scheduler_in \<Rightarrow> int \<Rightarrow> (db, scheduler_view) handler" where
  "set_scheduler now body usr d =
     (let ids = fromkeys (si_project_ids body)
      in if \<not> set ids \<subseteq> owned_project_ids d usr
         then (Inl (HTTPException 404 ''project_not_found''), d)
         else if si_enabled body \<and> ids = []
         then (Inl (HTTPException 422 ''scheduled_projects_required''), d)
         else
           let d1 = (case setting_of d usr of
                 Some s \<Rightarrow> d
               | None \<Rightarrow> d\<lparr>scheduler_settings := scheduler_settings d @ [new_setting usr d]\<rparr>);
               s = (case setting_of d usr of Some s \<Rightarrow> s | None \<Rightarrow> new_setting usr d);
               previous = set (scheduled_ids d1 (s_id s));
               d2 = set_setting (s_id s) (apply_scheduler_in now body ids previous) d1;
               d3 = d2\<lparr>scheduled_projects :=
                 filter (\<lambda>x. sp_scheduler_id x \<noteq> s_id s) (scheduled_projects d2) @
                 map (\<lambda>p. \<lparr>sp_scheduler_id = s_id s, sp_project_id = p\<rparr>) ids\<rparr>
           in (Inr (scheduler_out usr d3), d3))"

definition pause_scheduler :: "bool \<Rightarrow> int \<Rightarrow> (db, scheduler_view) handler" where
  "pause_scheduler value usr d =
     (case setting_of d usr of
        None \<Rightarrow> (Inl (HTTPException 409 ''scheduler_not_enabled''), d)
      | Some s \<Rightarrow>
          if \<not> s_enabled s then (Inl (HTTPException 409 ''scheduler_not_enabled''), d)
          else let d' = set_setting (s_id s) (\<lambda>s. s\<lparr>s_paused := value\<rparr>) d
               in (Inr (scheduler_out usr d'), d'))"

section \<open>Queueing: at most one open scan per account\<close>

lemma set_setting_simps [simp]:
  "scan_runs (set_setting i f d) = scan_runs d"
  "users (set_setting i f d) = users d"
  "projects (set_setting i f d) = projects d"
  "scheduled_projects (set_setting i f d) = scheduled_projects d"
  "open_runs (set_setting i f d) u = open_runs d u"
  by (auto simp: set_setting_def open_runs_def)

definition automatic_run :: "int list \<Rightarrow> scheduler_setting \<Rightarrow> time \<Rightarrow> db \<Rightarrow> scan_run" where
  "automatic_run ids s now d = last (scan_runs (add_run (s_user_id s) ''PROJECTS''
     (automatic_run_payload ids) now d))"

lemma automatic_run_simps [simp]:
  "r_status (automatic_run ids s now d) = QUEUED"
  "r_owner_id (automatic_run ids s now d) = s_user_id s"
  "r_kind (automatic_run ids s now d) = ''PROJECTS''"
  "r_id (automatic_run ids s now d) = fresh_id (map r_id (scan_runs d))"
  "payload_of (automatic_run ids s now d) = automatic_run_payload ids"
  by (auto simp: automatic_run_def add_run_def payload_of_def)

lemma add_run_automatic:
  "add_run (s_user_id s) ''PROJECTS'' (automatic_run_payload ids) now d =
     d\<lparr>scan_runs := scan_runs d @ [automatic_run ids s now d]\<rparr>"
  by (simp add: automatic_run_def add_run_def)

text \<open>The condition under which a timer queues a run.\<close>

definition fires :: "bool \<Rightarrow> time \<Rightarrow> scheduler_setting \<Rightarrow> db \<Rightarrow> bool" where
  "fires entitled now s d \<longleftrightarrow> \<not> s_paused s \<and> entitled \<and>
     (case s_next_run_at s of None \<Rightarrow> False | Some n \<Rightarrow> n \<le> now) \<and>
     auto_project_ids d s \<noteq> [] \<and> open_runs d (s_user_id s) = []"

lemma enqueue_setting_runs:
  "scan_runs (enqueue_setting e now s d) = scan_runs d @
     (if fires e now s d then [automatic_run (auto_project_ids d s) s now d] else [])"
  by (auto simp: enqueue_setting_def fires_def Let_def add_run_automatic split: option.splits)

lemma enqueue_setting_keeps [simp]:
  "users (enqueue_setting e now s d) = users d"
  "projects (enqueue_setting e now s d) = projects d"
  "scheduled_projects (enqueue_setting e now s d) = scheduled_projects d"
  by (auto simp: enqueue_setting_def Let_def add_run_def split: option.splits)

lemma auto_project_ids_keep:
  "projects d' = projects d \<Longrightarrow> scheduled_projects d' = scheduled_projects d \<Longrightarrow>
   auto_project_ids d' s = auto_project_ids d s"
  by (simp add: auto_project_ids_def)

definition enqueue_all :: "bool \<Rightarrow> time \<Rightarrow> scheduler_setting list \<Rightarrow> db \<Rightarrow> db" where
  "enqueue_all e now ss d = foldl (\<lambda>d s. enqueue_setting e now s d) d ss"

lemma enqueue_all_simps [simp]:
  "enqueue_all e now [] d = d"
  "enqueue_all e now (s # ss) d = enqueue_all e now ss (enqueue_setting e now s d)"
  by (auto simp: enqueue_all_def)

lemma enqueue_scheduled_alt:
  "enqueue_scheduled m e now d = (if m then d else enqueue_all e now (settings_to_check d) d)"
  by (simp add: enqueue_scheduled_def enqueue_all_def)

lemma enqueue_all_keeps [simp]:
  "users (enqueue_all e now ss d) = users d"
  "projects (enqueue_all e now ss d) = projects d"
  "scheduled_projects (enqueue_all e now ss d) = scheduled_projects d"
  by (induction ss arbitrary: d) auto

lemma open_runs_snoc:
  "open_runs (d\<lparr>scan_runs := rs @ new\<rparr>) u =
     open_runs (d\<lparr>scan_runs := rs\<rparr>) u @ filter (\<lambda>r. r_owner_id r = u \<and> open_status (r_status r)) new"
  by (simp add: open_runs_def)

lemma open_runs_eq: "scan_runs d' = scan_runs d @ new \<Longrightarrow>
   open_runs d' u = open_runs d u @ filter (\<lambda>r. r_owner_id r = u \<and> open_status (r_status r)) new"
  by (simp add: open_runs_def)

text \<open>What a new automatic run looks like, seen from the database before the tick.\<close>

definition proper_new_run :: "db \<Rightarrow> scheduler_setting list \<Rightarrow> scan_run \<Rightarrow> bool" where
  "proper_new_run d ss r \<longleftrightarrow> r_status r = QUEUED \<and> r_kind r = ''PROJECTS'' \<and>
     open_runs d (r_owner_id r) = [] \<and>
     (\<exists>s \<in> set ss. s_user_id s = r_owner_id r \<and> auto_project_ids d s \<noteq> [] \<and>
        payload_of r = automatic_run_payload (auto_project_ids d s))"

lemma enqueue_all_runs:
  "\<exists>new. scan_runs (enqueue_all e now ss d) = scan_runs d @ new \<and>
     distinct (map r_owner_id new) \<and> list_all (proper_new_run d ss) new"
proof (induction ss arbitrary: d)
  case Nil
  then show ?case by simp
next
  case (Cons s ss)
  let ?d1 = "enqueue_setting e now s d"
  obtain new where new: "scan_runs (enqueue_all e now ss ?d1) = scan_runs ?d1 @ new"
    "distinct (map r_owner_id new)" "list_all (proper_new_run ?d1 ss) new"
    using Cons.IH [of ?d1] by blast
  have ids: "auto_project_ids ?d1 x = auto_project_ids d x" for x
    by (rule auto_project_ids_keep) simp_all
  show ?case
  proof (cases "fires e now s d")
    case False
    then have rows: "scan_runs ?d1 = scan_runs d" by (simp add: enqueue_setting_runs)
    then have "open_runs ?d1 u = open_runs d u" for u by (simp add: open_runs_def)
    with new(3) ids have "list_all (proper_new_run d (s # ss)) new"
      by (auto simp: list_all_iff proper_new_run_def)
    with new rows show ?thesis by auto
  next
    case True
    let ?r = "automatic_run (auto_project_ids d s) s now d"
    have rows: "scan_runs ?d1 = scan_runs d @ [?r]" using True by (simp add: enqueue_setting_runs)
    have opened: "open_runs ?d1 u = open_runs d u @ (if u = s_user_id s then [?r] else [])" for u
      by (simp add: open_runs_eq [OF rows] open_status_def)
    have props: "list_all (proper_new_run d (s # ss)) new" "s_user_id s \<notin> r_owner_id ` set new"
      using new(3) ids opened by (auto simp: list_all_iff proper_new_run_def split: if_splits)
    have "proper_new_run d (s # ss) ?r"
      using True by (auto simp: proper_new_run_def fires_def)
    with new rows props show ?thesis
      by (intro exI [of _ "?r # new"]) auto
  qed
qed

lemma proper_new_run_queued: "list_all (proper_new_run d ss) new \<Longrightarrow> list_all (\<lambda>r. r_status r = QUEUED) new"
  by (auto simp: list_all_iff proper_new_run_def)

lemma runs_follow_append:
  assumes "scan_runs d' = scan_runs d @ new" and "list_all (\<lambda>r. r_status r = QUEUED) new"
  shows "runs_follow d d'"
  using assms by (simp add: runs_follow_def list.rel_refl)

interpretation enqueue: run_operation "enqueue_scheduled m e now"
proof
  fix d
  show "runs_follow d (enqueue_scheduled m e now d)"
    using enqueue_all_runs [of e now "settings_to_check d" d] runs_follow_append
    by (cases m) (auto simp: enqueue_scheduled_alt dest: proper_new_run_queued)
qed

text \<open>C6: one tick of the timers only appends queued project runs, at most one per account, and
  only for an active account with an enabled timer, no open run of its own and at least one of its
  own projects marked for automatic updates; the run carries exactly those projects.\<close>

theorem tick_queues_one_per_owner:
  "\<exists>new. scan_runs (enqueue_scheduled m e now d) = scan_runs d @ new \<and>
     distinct (map r_owner_id new) \<and>
     list_all (\<lambda>r. r_status r = QUEUED \<and> r_kind r = ''PROJECTS'' \<and> open_runs d (r_owner_id r) = [] \<and>
       owner_is_active d (r_owner_id r) \<and>
       (\<exists>s \<in> set (scheduler_settings d). s_enabled s \<and> s_user_id s = r_owner_id r \<and>
          auto_project_ids d s \<noteq> [] \<and>
          payload_of r = automatic_run_payload (auto_project_ids d s))) new"
proof (cases m)
  case True
  then show ?thesis by (simp add: enqueue_scheduled_alt)
next
  case False
  obtain new where new: "scan_runs (enqueue_scheduled m e now d) = scan_runs d @ new"
    "distinct (map r_owner_id new)" "list_all (proper_new_run d (settings_to_check d)) new"
    using enqueue_all_runs [of e now "settings_to_check d" d] False
    by (auto simp: enqueue_scheduled_alt)
  have "list_all (\<lambda>r. r_status r = QUEUED \<and> r_kind r = ''PROJECTS'' \<and>
       open_runs d (r_owner_id r) = [] \<and> owner_is_active d (r_owner_id r) \<and>
       (\<exists>s \<in> set (scheduler_settings d). s_enabled s \<and> s_user_id s = r_owner_id r \<and>
          auto_project_ids d s \<noteq> [] \<and>
          payload_of r = automatic_run_payload (auto_project_ids d s))) new"
    using new(3) by (auto simp: list_all_iff proper_new_run_def settings_to_check_def; metis)
  with new(1,2) show ?thesis by blast
qed

section \<open>After a tick no timer is due\<close>

definition settled :: "time \<Rightarrow> scheduler_setting \<Rightarrow> bool" where
  "settled now s \<longleftrightarrow> s_paused s \<or> \<not> s_enabled s \<or>
     (case s_next_run_at s of None \<Rightarrow> False | Some n \<Rightarrow> now < n)"

definition same_setting :: "scheduler_setting \<Rightarrow> scheduler_setting \<Rightarrow> bool" where
  "same_setting s s' \<longleftrightarrow> s_id s' = s_id s \<and> s_user_id s' = s_user_id s \<and>
     s_interval_minutes s' = s_interval_minutes s \<and> s_paused s' = s_paused s"

lemma set_setting_settings:
  "scheduler_settings (set_setting i f d) =
     map (\<lambda>x. if s_id x = i then f x else x) (scheduler_settings d)"
  by (simp add: set_setting_def update_where_def)

lemma enqueue_setting_settings:
  "\<exists>g. scheduler_settings (enqueue_setting e now s d) =
         map (\<lambda>x. if s_id x = s_id s then g x else x) (scheduler_settings d) \<and>
       (\<forall>x. same_setting x (g x)) \<and> (0 < s_interval_minutes s \<longrightarrow> settled now (g s))"
proof -
  let ?later = "\<lambda>x. x\<lparr>s_next_run_at := Some (now + minutes (s_interval_minutes x))\<rparr>"
  let ?off = "\<lambda>x. x\<lparr>s_enabled := False, s_next_run_at := None\<rparr>"
  have "scheduler_settings (enqueue_setting e now s d) =
          map (\<lambda>x. if s_id x = s_id s then ?later x else x) (scheduler_settings d) \<or>
        scheduler_settings (enqueue_setting e now s d) =
          map (\<lambda>x. if s_id x = s_id s then ?off x else x) (scheduler_settings d) \<or>
        (scheduler_settings (enqueue_setting e now s d) = scheduler_settings d \<and> settled now s)"
    by (auto simp: enqueue_setting_def Let_def set_setting_settings add_run_def settled_def
        split: option.splits)
  then show ?thesis
  proof (elim disjE conjE, goal_cases)
    case 1
    then show ?case
      by (intro exI [of _ ?later]) (simp add: same_setting_def settled_def)
  next
    case 2
    then show ?case
      by (intro exI [of _ ?off]) (simp add: same_setting_def settled_def)
  next
    case 3
    then show ?case
      by (intro exI [of _ "\<lambda>x. x"]) (simp add: same_setting_def)
  qed
qed

lemma enqueue_all_settings:
  assumes "distinct (map s_id ss)"
  shows "\<exists>g. scheduler_settings (enqueue_all e now ss d) = map g (scheduler_settings d) \<and>
     (\<forall>x. same_setting x (g x)) \<and> (\<forall>x. s_id x \<notin> s_id ` set ss \<longrightarrow> g x = x) \<and>
     (\<forall>s \<in> set ss. 0 < s_interval_minutes s \<longrightarrow> settled now (g s))"
  using assms
proof (induction ss arbitrary: d)
  case Nil
  then show ?case by (intro exI [of _ "\<lambda>x. x"]) (simp add: same_setting_def)
next
  case (Cons s ss)
  obtain f where f: "scheduler_settings (enqueue_setting e now s d) =
        map (\<lambda>x. if s_id x = s_id s then f x else x) (scheduler_settings d)"
    "\<forall>x. same_setting x (f x)" "0 < s_interval_minutes s \<longrightarrow> settled now (f s)"
    using enqueue_setting_settings by blast
  obtain g where g: "scheduler_settings (enqueue_all e now ss (enqueue_setting e now s d)) =
        map g (scheduler_settings (enqueue_setting e now s d))"
    "\<forall>x. same_setting x (g x)" "\<forall>x. s_id x \<notin> s_id ` set ss \<longrightarrow> g x = x"
    "\<forall>s \<in> set ss. 0 < s_interval_minutes s \<longrightarrow> settled now (g s)"
    using Cons.IH [of "enqueue_setting e now s d"] Cons.prems by auto
  let ?h = "\<lambda>x. g (if s_id x = s_id s then f x else x)"
  have s: "s_id s \<notin> s_id ` set ss" using Cons.prems by simp
  have "scheduler_settings (enqueue_all e now (s # ss) d) = map ?h (scheduler_settings d)"
    using f(1) g(1) by (simp add: comp_def)
  moreover have "\<forall>x. same_setting x (?h x)"
    using f(2) g(2) by (simp add: same_setting_def)
  moreover have "\<forall>x. s_id x \<notin> s_id ` set (s # ss) \<longrightarrow> ?h x = x" using g(3) by simp
  moreover have "settled now (?h x)" if "x \<in> set (s # ss)" "0 < s_interval_minutes x" for x
  proof (cases "x = s")
    case True
    have "s_id (f s) \<notin> s_id ` set ss" using f(2) s by (simp add: same_setting_def)
    then have "?h s = f s" using g(3) by simp
    with True that f(3) show ?thesis by simp
  next
    case False
    with that s g(4) show ?thesis by (auto simp: image_iff)
  qed
  ultimately show ?case by blast
qed

definition setting_ids_distinct :: "db \<Rightarrow> bool" where
  "setting_ids_distinct d \<longleftrightarrow> distinct (map s_id (scheduler_settings d))"

lemma distinct_map_eq:
  "distinct (map f xs) \<Longrightarrow> x \<in> set xs \<Longrightarrow> y \<in> set xs \<Longrightarrow> f x = f y \<Longrightarrow> x = y"
  by (auto simp: distinct_map inj_on_def)

text \<open>C7: after one tick no timer of an active account is due any more (it is paused, switched off
  because nothing is left to scan, or set to a later time), so repeating the tick at the same time
  cannot queue the same work again.\<close>

theorem tick_settles_timers:
  assumes "setting_ids_distinct d"
    and "\<forall>s \<in> set (scheduler_settings d). 0 < s_interval_minutes s"
  shows "\<forall>s \<in> set (scheduler_settings (enqueue_scheduled False e now d)).
     s_enabled s \<and> owner_is_active d (s_user_id s) \<and> \<not> s_paused s \<longrightarrow>
     (\<exists>n. s_next_run_at s = Some n \<and> now < n)"
proof (intro ballI impI)
  let ?ss = "settings_to_check d"
  fix y assume y: "y \<in> set (scheduler_settings (enqueue_scheduled False e now d))"
    and act: "s_enabled y \<and> owner_is_active d (s_user_id y) \<and> \<not> s_paused y"
  have "distinct (map s_id ?ss)"
    using assms(1) by (simp add: setting_ids_distinct_def settings_to_check_def distinct_map_filter)
  from enqueue_all_settings [OF this, of e now d] obtain g where
    g: "scheduler_settings (enqueue_all e now ?ss d) = map g (scheduler_settings d)"
      "\<forall>x. same_setting x (g x)" "\<forall>x. s_id x \<notin> s_id ` set ?ss \<longrightarrow> g x = x"
      "\<forall>s \<in> set ?ss. 0 < s_interval_minutes s \<longrightarrow> settled now (g s)" by blast
  obtain x where x: "x \<in> set (scheduler_settings d)" "y = g x"
    using y g(1) by (auto simp: enqueue_scheduled_alt)
  have "x \<in> set ?ss"
  proof (rule ccontr)
    assume n: "x \<notin> set ?ss"
    then have "s_id x \<notin> s_id ` set ?ss"
      using assms(1) x(1) distinct_map_eq [of s_id "scheduler_settings d" x]
      by (auto simp: setting_ids_distinct_def settings_to_check_def)
    with g(3) x(2) have "y = x" by simp
    with n act x(1) show False by (auto simp: settings_to_check_def)
  qed
  then have "settled now y" using g(4) assms(2) x by auto
  with act show "\<exists>n. s_next_run_at y = Some n \<and> now < n"
    by (auto simp: settled_def split: option.splits)
qed

section \<open>A due timer does queue its scan\<close>

lemma enqueue_setting_other:
  assumes "s_user_id x \<noteq> s_user_id (s :: scheduler_setting)"
  shows "open_runs (enqueue_setting e now x d) (s_user_id s) = open_runs d (s_user_id s)"
    "fires e now s (enqueue_setting e now x d) = fires e now s d"
proof -
  show o: "open_runs (enqueue_setting e now x d) (s_user_id s) = open_runs d (s_user_id s)"
    using assms by (simp add: open_runs_eq [OF enqueue_setting_runs])
  have "auto_project_ids (enqueue_setting e now x d) s = auto_project_ids d s"
    by (rule auto_project_ids_keep) simp_all
  then show "fires e now s (enqueue_setting e now x d) = fires e now s d"
    by (simp add: fires_def o)
qed

lemma enqueue_all_other:
  "s_user_id (s :: scheduler_setting) \<notin> s_user_id ` set ss \<Longrightarrow>
   open_runs (enqueue_all e now ss d) (s_user_id s) = open_runs d (s_user_id s)"
  by (induction ss arbitrary: d) (auto simp: enqueue_setting_other(1) [OF not_sym])

lemma enqueue_all_fires:
  assumes "s \<in> set ss" and "distinct (map s_user_id ss)" and "fires e now s d"
  shows "\<exists>r. open_runs (enqueue_all e now ss d) (s_user_id s) = [r] \<and> r_status r = QUEUED \<and>
     payload_of r = automatic_run_payload (auto_project_ids d s)"
  using assms
proof (induction ss arbitrary: d)
  case Nil
  then show ?case by simp
next
  case (Cons x ss)
  show ?case
  proof (cases "x = s")
    case True
    let ?r = "automatic_run (auto_project_ids d s) s now d"
    have rows: "scan_runs (enqueue_setting e now s d) = scan_runs d @ [?r]"
      using Cons.prems(3) by (simp add: enqueue_setting_runs)
    have "open_runs d (s_user_id s) = []" using Cons.prems(3) by (simp add: fires_def)
    then have "open_runs (enqueue_setting e now s d) (s_user_id s) = [?r]"
      by (simp add: open_runs_eq [OF rows] open_status_def)
    then show ?thesis
      using True Cons.prems(2) by (simp add: enqueue_all_other)
  next
    case False
    then have s: "s \<in> set ss" using Cons.prems(1) by simp
    then have "s_user_id x \<noteq> s_user_id s" using Cons.prems(2) by auto
    note other = enqueue_setting_other [OF this]
    have "auto_project_ids (enqueue_setting e now x d) s = auto_project_ids d s"
      by (rule auto_project_ids_keep) simp_all
    then show ?thesis
      using Cons.IH [OF s, of "enqueue_setting e now x d"] Cons.prems by (simp add: other)
  qed
qed

definition one_setting_per_user :: "db \<Rightarrow> bool" where
  "one_setting_per_user d \<longleftrightarrow> distinct (map s_user_id (scheduler_settings d))"

lemma prepare_settings:
  "snd (prepare_overdue_scheduler_catch_up now forced d) = d\<lparr>scheduler_settings :=
     update_where (catch_up_due d now forced) (\<lambda>s. s\<lparr>s_next_run_at := Some now\<rparr>)
       (scheduler_settings d)\<rparr>"
  by (simp add: prepare_overdue_scheduler_catch_up_def)

lemma settings_to_check_users:
  "one_setting_per_user d \<Longrightarrow> distinct (map s_user_id (settings_to_check d))"
  by (simp add: one_setting_per_user_def settings_to_check_def distinct_map_filter)

lemma prepared_due:
  assumes "s \<in> set (scheduler_settings d)" and "catch_up_due d now forced s"
  shows "s\<lparr>s_next_run_at := Some now\<rparr> \<in>
    set (settings_to_check (snd (prepare_overdue_scheduler_catch_up now forced d)))"
proof -
  have "s\<lparr>s_next_run_at := Some now\<rparr> \<in> set (update_where (catch_up_due d now forced)
      (\<lambda>s. s\<lparr>s_next_run_at := Some now\<rparr>) (scheduler_settings d))"
    using update_where_memI [OF assms(1), of "catch_up_due d now forced", OF assms(2),
        of "\<lambda>s. s\<lparr>s_next_run_at := Some now\<rparr>"] .
  then show ?thesis
    using assms(2)
    by (simp add: settings_to_check_def prepare_settings catch_up_due_def is_configured_def
        owner_is_active_def)
qed

text \<open>C8: a timer that fell due while the computer slept (or whose run the sleep interrupted) is
  caught up: when the shell prepares the resume and the worker ticks at that moment, its account
  gets exactly one open run, over its automatic projects, whatever the stored next time was.\<close>

theorem resume_catches_up:
  assumes "s \<in> set (scheduler_settings d)" and "catch_up_due d now forced s"
    and "one_setting_per_user d"
    and "auto_project_ids d s \<noteq> []" and "open_runs d (s_user_id s) = []"
  shows "\<exists>r. open_runs (enqueue_scheduled False True now
       (snd (prepare_overdue_scheduler_catch_up now forced d))) (s_user_id s) = [r] \<and>
     r_status r = QUEUED \<and> payload_of r = automatic_run_payload (auto_project_ids d s)"
proof -
  let ?d = "snd (prepare_overdue_scheduler_catch_up now forced d)"
  let ?s = "s\<lparr>s_next_run_at := Some now\<rparr>"
  have users: "one_setting_per_user ?d"
    using assms(3) by (simp add: one_setting_per_user_def prepare_settings map_update_where)
  have same: "open_runs ?d u = open_runs d u" "auto_project_ids ?d ?s = auto_project_ids d s" for u
    by (simp_all add: prepare_settings open_runs_def auto_project_ids_def)
  have "fires True now ?s ?d"
    using assms(2,4,5) same by (simp add: fires_def catch_up_due_def)
  from enqueue_all_fires [OF prepared_due [OF assms(1,2)] settings_to_check_users [OF users] this]
  show ?thesis by (simp add: enqueue_scheduled_alt same)
qed

section \<open>A finished scan rearms the timer\<close>

lemma setting_row:
  assumes "s \<in> set (scheduler_settings d)" and "setting_ids_distinct d"
    and "s' \<in> set (scheduler_settings (set_setting (s_id s) f d))"
    and "s_id s' = s_id s" and "\<And>x. s_id (f x) = s_id x"
  shows "s' = f s"
  using assms distinct_map_eq [of s_id "scheduler_settings d" _ s]
  by (auto simp: set_setting_settings setting_ids_distinct_def split: if_splits)

lemma enabled_setting_Some:
  "enabled_setting d u = Some s \<Longrightarrow>
   s \<in> set (scheduler_settings d) \<and> s_user_id s = u \<and> s_enabled s \<and> has_scheduled_project d s"
  by (auto simp: enabled_setting_def dest: first_row_Some split: option.splits if_splits)

lemma set_run_settings [simp]:
  "scheduler_settings (set_run i f d) = scheduler_settings d"
  by (simp add: set_run_def)

text \<open>C9: when a scan of all projects succeeds, whether it was started by the user or by the timer,
  its account's timer counts from that moment: a resume finds it overdue exactly one interval
  later, the next run is set to the same time, and no other timer moves.\<close>

theorem completed_scan_rearms_timer:
  assumes "setting_ids_distinct d" and "enabled_setting d (r_owner_id job) = Some s"
    and "r_status job = SUCCEEDED" and "r_kind job = ''PROJECTS''"
    and "dget (payload_of job) ''trigger'' = JStr ''MANUAL'' \<or> automatic_payload (payload_of job)"
    and "s' \<in> set (scheduler_settings (record_completed_scheduler_run job t d))"
  shows "if s_id s' = s_id s
     then s_user_id s' = r_owner_id job \<and> s_next_run_at s' = Some (t + minutes (s_interval_minutes s))
       \<and> scheduler_is_overdue_after_resume s' now = (t + minutes (s_interval_minutes s) \<le> now)
     else s' \<in> set (scheduler_settings d)"
proof -
  let ?f = "\<lambda>x. x\<lparr>s_last_completed_run_at := Some t,
                   s_next_run_at := Some (t + minutes (s_interval_minutes s))\<rparr>"
  have rows: "s' \<in> set (scheduler_settings (set_setting (s_id s) ?f d))"
    using assms(2-6) by (auto simp: record_completed_scheduler_run_def Let_def)
  have s: "s \<in> set (scheduler_settings d)" "s_user_id s = r_owner_id job"
    using enabled_setting_Some [OF assms(2)] by auto
  show ?thesis
  proof (cases "s_id s' = s_id s")
    case True
    have "s' = ?f s"
      by (rule setting_row [OF s(1) assms(1) rows True]) simp
    with True s(2) show ?thesis by (simp add: scheduler_is_overdue_after_resume_def)
  next
    case False
    with rows show ?thesis by (auto simp: set_setting_settings)
  qed
qed

section \<open>The scheduler form\<close>

lemma setting_of_Some: "setting_of d u = Some s \<Longrightarrow> s \<in> set (scheduler_settings d) \<and> s_user_id s = u"
  by (auto simp: setting_of_def dest: first_row_Some)

lemma fromkeys_subset [simp]: "set (fromkeys xs) \<subseteq> A \<longleftrightarrow> set xs \<subseteq> A"
  by simp

lemma apply_scheduler_in_simps [simp]:
  "s_id (apply_scheduler_in now b ids prev s) = s_id s"
  "s_user_id (apply_scheduler_in now b ids prev s) = s_user_id s"
  "s_enabled (apply_scheduler_in now b ids prev s) = si_enabled b"
  "s_paused (apply_scheduler_in now b ids prev s) = (si_enabled b \<and> si_paused b)"
  "s_interval_minutes (apply_scheduler_in now b ids prev s) = si_interval_minutes b"
  "s_performance_mode (apply_scheduler_in now b ids prev s) = si_performance_mode b"
  by (auto simp: apply_scheduler_in_def Let_def)

lemma setting_of_set_setting:
  assumes "\<And>x. s_user_id (f x) = s_user_id x"
  shows "setting_of (set_setting i f d) u =
    map_option (\<lambda>x. if s_id x = i then f x else x) (setting_of d u)"
  unfolding setting_of_def set_setting_settings by (rule first_row_map) (simp add: assms)

lemma scheduled_ids_replace:
  "scheduled_ids (d\<lparr>scheduled_projects := filter (\<lambda>x. sp_scheduler_id x \<noteq> i) xs @
      map (\<lambda>p. \<lparr>sp_scheduler_id = i, sp_project_id = p\<rparr>) ids\<rparr>) j =
   (if j = i then sort ids else sort (map sp_project_id (filter (\<lambda>x. sp_scheduler_id x = j) xs)))"
  by (auto simp: scheduled_ids_def filter_filter comp_def
      intro!: arg_cong [where f = "\<lambda>ys. sort (map sp_project_id ys)"] filter_cong)

definition setting_row_of :: "int \<Rightarrow> db \<Rightarrow> scheduler_setting" where
  "setting_row_of usr d = (case setting_of d usr of Some s \<Rightarrow> s | None \<Rightarrow> new_setting usr d)"

definition with_setting :: "int \<Rightarrow> db \<Rightarrow> db" where
  "with_setting usr d = (case setting_of d usr of
      Some s \<Rightarrow> d | None \<Rightarrow> d\<lparr>scheduler_settings := scheduler_settings d @ [new_setting usr d]\<rparr>)"

lemma setting_of_with_setting:
  "setting_of (with_setting usr d) u = (if u = usr then Some (setting_row_of usr d) else setting_of d u)"
proof (cases "setting_of d usr")
  case None
  have "setting_of (with_setting usr d) u =
      (case setting_of d u of Some s \<Rightarrow> Some s | None \<Rightarrow> if u = usr then Some (new_setting usr d) else None)"
  proof -
    have "with_setting usr d =
        d\<lparr>scheduler_settings := scheduler_settings d @ [new_setting usr d]\<rparr>"
      using None by (simp add: with_setting_def)
    then have "setting_of (with_setting usr d) u =
        first_row (\<lambda>s. s_user_id s = u) (scheduler_settings d @ [new_setting usr d])"
      by (simp add: setting_of_def)
    moreover have "first_row (\<lambda>s. s_user_id s = u) [new_setting usr d] =
        (if u = usr then Some (new_setting usr d) else None)"
      by (simp add: first_row_def new_setting_def)
    ultimately show ?thesis by (simp only: first_row_append setting_of_def)
  qed
  with None show ?thesis
    by (cases "u = usr") (auto simp: setting_row_of_def split: option.splits)
next
  case (Some s)
  then show ?thesis by (simp add: with_setting_def setting_row_of_def)
qed

lemma setting_row_of_user [simp]: "s_user_id (setting_row_of usr d) = usr"
  by (auto simp: setting_row_of_def new_setting_def dest: setting_of_Some split: option.splits)

lemma new_setting_id: "s_id (new_setting usr d) = fresh_id (map s_id (scheduler_settings d))"
  by (simp add: new_setting_def)

text \<open>The database and the reply of an accepted form.\<close>

definition saved_scheduler :: "time \<Rightarrow> scheduler_in \<Rightarrow> int \<Rightarrow> db \<Rightarrow> db" where
  "saved_scheduler now body usr d =
     (let s = setting_row_of usr d;
          d1 = with_setting usr d;
          d2 = set_setting (s_id s)
             (apply_scheduler_in now body (fromkeys (si_project_ids body)) (set (scheduled_ids d1 (s_id s)))) d1
      in d2\<lparr>scheduled_projects :=
           filter (\<lambda>x. sp_scheduler_id x \<noteq> s_id s) (scheduled_projects d2) @
           map (\<lambda>p. \<lparr>sp_scheduler_id = s_id s, sp_project_id = p\<rparr>) (fromkeys (si_project_ids body))\<rparr>)"

lemma set_scheduler_alt:
  "set_scheduler now body usr d =
     (if \<not> set (si_project_ids body) \<subseteq> owned_project_ids d usr
      then (Inl (HTTPException 404 ''project_not_found''), d)
      else if si_enabled body \<and> si_project_ids body = []
      then (Inl (HTTPException 422 ''scheduled_projects_required''), d)
      else (Inr (scheduler_out usr (saved_scheduler now body usr d)), saved_scheduler now body usr d))"
  by (simp add: set_scheduler_def saved_scheduler_def setting_row_of_def with_setting_def Let_def)

lemma saved_scheduler_setting:
  "setting_of (saved_scheduler now body usr d) usr =
     Some (apply_scheduler_in now body (fromkeys (si_project_ids body))
       (set (scheduled_ids (with_setting usr d) (s_id (setting_row_of usr d)))) (setting_row_of usr d))"
  by (simp add: saved_scheduler_def Let_def setting_of_def [of "_\<lparr>scheduled_projects := _\<rparr>"])
    (simp add: setting_of_def [symmetric] setting_of_set_setting setting_of_with_setting)

lemma saved_scheduler_ids:
  "scheduled_ids (saved_scheduler now body usr d) j =
     (if j = s_id (setting_row_of usr d) then sort (fromkeys (si_project_ids body))
      else scheduled_ids d j)"
  by (simp add: saved_scheduler_def Let_def scheduled_ids_replace)
    (simp add: scheduled_ids_def with_setting_def split: option.splits)

lemma saved_scheduler_other:
  assumes "u \<noteq> usr" and "setting_ids_distinct d"
  shows "setting_of (saved_scheduler now body usr d) u = setting_of d u \<and>
     (\<forall>s. setting_of d u = Some s \<longrightarrow> s_id s \<noteq> s_id (setting_row_of usr d))"
proof -
  have "s_id s \<noteq> s_id (setting_row_of usr d)" if "setting_of d u = Some s" for s
  proof (cases "setting_of d usr")
    case None
    then have "setting_row_of usr d = new_setting usr d" by (simp add: setting_row_of_def)
    moreover have "s_id s \<in> set (map s_id (scheduler_settings d))"
      using setting_of_Some [OF that] by simp
    ultimately show ?thesis
      using fresh_id_notin [of "map s_id (scheduler_settings d)"] by (metis new_setting_id)
  next
    case (Some x)
    then have "setting_row_of usr d = x" by (simp add: setting_row_of_def)
    then show ?thesis
      using setting_of_Some [OF that] setting_of_Some [OF Some] assms
        distinct_map_eq [of s_id "scheduler_settings d" s x]
      by (auto simp: setting_ids_distinct_def)
  qed
  moreover have "setting_of (saved_scheduler now body usr d) u =
      map_option (\<lambda>x. if s_id x = s_id (setting_row_of usr d) then
        apply_scheduler_in now body (fromkeys (si_project_ids body))
         (set (scheduled_ids (with_setting usr d) (s_id (setting_row_of usr d)))) x else x)
       (setting_of (with_setting usr d) u)"
    by (simp add: saved_scheduler_def Let_def setting_of_def [of "_\<lparr>scheduled_projects := _\<rparr>"])
      (simp add: setting_of_def [symmetric] setting_of_set_setting)
  ultimately show ?thesis
    using assms(1) by (cases "setting_of d u") (simp_all add: setting_of_with_setting)
qed

lemma sort_fromkeys: "sort (fromkeys xs) = sorted_list_of_set (set xs)"
  by (rule sorted_distinct_set_unique) simp_all

text \<open>C10: the scheduler form is saved faithfully. It is refused, without any change, exactly when it
  names a project the account does not own or enables the timer without a project; otherwise the
  reply (and every later reading) shows the submitted interval, mode and set of projects, each once and in
  the order of their identifiers, a pause only on an enabled timer, a next run exactly when the timer is
  enabled, and the timers of all other accounts and all other tables are untouched.\<close>

theorem scheduler_form_round_trip:
  assumes "setting_ids_distinct d"
  shows "case set_scheduler now body usr d of
     (Inl e, d') \<Rightarrow> d' = d \<and> (\<not> set (si_project_ids body) \<subseteq> owned_project_ids d usr \<or>
        (si_enabled body \<and> si_project_ids body = []))
   | (Inr v, d') \<Rightarrow> v = scheduler_out usr d' \<and> set (si_project_ids body) \<subseteq> owned_project_ids d usr \<and>
        sv_project_ids v = sorted_list_of_set (set (si_project_ids body)) \<and>
        sv_enabled v = si_enabled body \<and> sv_paused v = (si_enabled body \<and> si_paused body) \<and>
        sv_interval_minutes v = si_interval_minutes body \<and>
        sv_performance_mode v = si_performance_mode body \<and>
        (sv_next_run_at v \<noteq> None) = si_enabled body \<and>
        (\<forall>u. u \<noteq> usr \<longrightarrow> scheduler_out u d' = scheduler_out u d) \<and>
        d' = d\<lparr>scheduler_settings := scheduler_settings d', scheduled_projects := scheduled_projects d'\<rparr>"
proof -
  let ?d = "saved_scheduler now body usr d"
  have others: "scheduler_out u ?d = scheduler_out u d" if "u \<noteq> usr" for u
  proof (cases "setting_of d u")
    case None
    then have "setting_of ?d u = None" using saved_scheduler_other [OF that assms, of now body] by simp
    with None show ?thesis by (simp add: scheduler_out_def)
  next
    case (Some s)
    then have "setting_of ?d u = Some s" "s_id s \<noteq> s_id (setting_row_of usr d)"
      using saved_scheduler_other [OF that assms, of now body] by simp_all
    with Some show ?thesis by (simp add: scheduler_out_def saved_scheduler_ids)
  qed
  have view: "let v = scheduler_out usr ?d in
      sv_project_ids v = sorted_list_of_set (set (si_project_ids body)) \<and>
      sv_enabled v = si_enabled body \<and> sv_paused v = (si_enabled body \<and> si_paused body) \<and>
      sv_interval_minutes v = si_interval_minutes body \<and>
      sv_performance_mode v = si_performance_mode body \<and>
      (sv_next_run_at v \<noteq> None) = si_enabled body"
    if "\<not> (si_enabled body \<and> si_project_ids body = [])"
    using that
    by (simp add: scheduler_out_def saved_scheduler_setting saved_scheduler_ids sort_fromkeys)
      (auto simp: apply_scheduler_in_def Let_def)
  have frame: "?d = d\<lparr>scheduler_settings := scheduler_settings ?d, scheduled_projects := scheduled_projects ?d\<rparr>"
    by (simp add: saved_scheduler_def Let_def set_setting_def with_setting_def split: option.split)
  show ?thesis
  proof (cases "set (si_project_ids body) \<subseteq> owned_project_ids d usr \<and>
      \<not> (si_enabled body \<and> si_project_ids body = [])")
    case True
    then have "set_scheduler now body usr d = (Inr (scheduler_out usr ?d), ?d)"
      by (auto simp: set_scheduler_alt)
    with True view others frame show ?thesis by (simp add: Let_def)
  qed (auto simp: set_scheduler_alt)
qed

section \<open>The tray toggle\<close>

text \<open>C11: the tray toggle inverts the pause state it shows and keeps what is configured; resuming
  leaves no configured timer without a next run.\<close>

theorem toggle_inverts_pause:
  "case toggle_all_schedulers now d of (st, d') \<Rightarrow>
     st = tray_scheduler_status d' \<and>
     ts_enabled st = ts_enabled (tray_scheduler_status d) \<and>
     ts_paused st = (ts_enabled st \<and> \<not> ts_paused (tray_scheduler_status d)) \<and>
     map s_id (configured_settings d') = map s_id (configured_settings d) \<and>
     list_all (\<lambda>s. s_paused s = ts_paused st \<and> (case s_next_run_at s of None \<Rightarrow> s_paused s | Some n \<Rightarrow> True)) (configured_settings d')"
proof (cases "configured_settings d = []")
  case True
  then show ?thesis
    by (simp add: toggle_all_schedulers_def tray_scheduler_status_def)
next
  case False
  let ?p = "\<exists>s \<in> set (configured_settings d). \<not> s_paused s"
  let ?f = "\<lambda>s. s\<lparr>s_paused := ?p, s_next_run_at :=
     (if \<not> ?p \<and> s_next_run_at s = None then Some now else s_next_run_at s)\<rparr>"
  let ?d = "d\<lparr>scheduler_settings := update_where (is_configured d) ?f (scheduler_settings d)\<rparr>"
  have same: "is_configured ?d = is_configured d"
    by (auto simp: is_configured_def owner_is_active_def has_scheduled_project_def)
  have conf: "is_configured d (?f s) = is_configured d s" for s
    by (auto simp: is_configured_def owner_is_active_def has_scheduled_project_def)
  have "configured_settings ?d = map ?f (configured_settings d)"
  proof -
    have "filter (is_configured ?d) (update_where (is_configured d) ?f (scheduler_settings d)) =
        map ?f (filter (is_configured d) (scheduler_settings d))"
      unfolding same by (rule filter_update_where) (simp_all only: conf simp_thms)
    then show ?thesis by (simp add: configured_settings_def)
  qed
  moreover have "toggle_all_schedulers now d = (tray_scheduler_status ?d, ?d)"
    using False by (simp add: toggle_all_schedulers_def Let_def)
  ultimately show ?thesis
    using False by (auto simp: tray_scheduler_status_def Let_def list_all_iff comp_def
        neq_Nil_conv split: option.splits)
qed

section \<open>Witnesses\<close>

lemma tick_settles_timers_witness:
  "\<exists>s \<in> set (scheduler_settings (enqueue_scheduled False True 10 sample_timer)).
     s_user_id s = 7 \<and> s_enabled s \<and> (\<exists>n. s_next_run_at s = Some n \<and> 10 < n)"
proof -
  have hyp: "setting_ids_distinct sample_timer"
    "\<forall>s \<in> set (scheduler_settings sample_timer). 0 < s_interval_minutes s"
    by (simp_all add: sample_timer_def sample_setting_def setting_ids_distinct_def)
  have row: "\<exists>s. scheduler_settings (enqueue_scheduled False True 10 sample_timer) = [s] \<and>
      s_user_id s = 7 \<and> s_enabled s \<and> \<not> s_paused s"
    by (simp add: sample_timer_def sample_defs enqueue_scheduled_def settings_to_check_def
        owner_is_active_def enqueue_setting_def auto_project_ids_def Let_def open_runs_def
        set_setting_def add_run_def empty_db_def)
  have "owner_is_active sample_timer 7"
    by (simp add: sample_timer_def sample_defs owner_is_active_def)
  with row tick_settles_timers [OF hyp, of True 10] show ?thesis by force
qed

lemma resume_catches_up_witness:
  "\<exists>r. open_runs (enqueue_scheduled False True 10
      (snd (prepare_overdue_scheduler_catch_up 10 {} sample_timer))) 7 = [r] \<and> r_status r = QUEUED"
proof -
  let ?s = "sample_setting 1 7 (Some 5)"
  have "?s \<in> set (scheduler_settings sample_timer)" "catch_up_due sample_timer 10 {} ?s"
    "one_setting_per_user sample_timer" "auto_project_ids sample_timer ?s \<noteq> []"
    "open_runs sample_timer (s_user_id ?s) = []"
    by (simp_all add: sample_timer_def sample_defs catch_up_due_def is_configured_def
        owner_is_active_def has_scheduled_project_def scheduler_is_overdue_after_resume_def
        scheduler_is_overdue_def one_setting_per_user_def auto_project_ids_def open_runs_def empty_db_def)
  from resume_catches_up [OF this] show ?thesis
    by (auto simp: sample_setting_def)
qed

lemma completed_scan_rearms_timer_witness:
  "\<exists>s. record_completed_scheduler_run (sample_run 1 7 SUCCEEDED 3 [(''trigger'', JStr ''MANUAL'')])
       20 sample_timer = s \<and>
     s_next_run_at (hd (scheduler_settings s)) = Some (20 + minutes 180)"
proof -
  let ?j = "sample_run 1 7 SUCCEEDED 3 [(''trigger'', JStr ''MANUAL'')]"
  let ?s = "sample_setting 1 7 (Some 5)"
  let ?d' = "record_completed_scheduler_run ?j 20 sample_timer"
  have hyp: "setting_ids_distinct sample_timer"
    "enabled_setting sample_timer (r_owner_id ?j) = Some ?s" "r_status ?j = SUCCEEDED"
    "r_kind ?j = ''PROJECTS''"
    "dget (payload_of ?j) ''trigger'' = JStr ''MANUAL'' \<or> automatic_payload (payload_of ?j)"
    by (simp_all add: sample_timer_def sample_defs setting_ids_distinct_def enabled_setting_def
        first_row_def has_scheduled_project_def payload_of_def)
  have row: "\<exists>x. scheduler_settings ?d' = [x] \<and> s_id x = 1"
    using hyp(2) by (simp add: record_completed_scheduler_run_def Let_def set_setting_def)
      (simp add: sample_timer_def sample_defs payload_of_def)
  then have "hd (scheduler_settings ?d') \<in> set (scheduler_settings ?d')"
    "s_id (hd (scheduler_settings ?d')) = s_id ?s"
    by (auto simp: sample_setting_def)
  from completed_scan_rearms_timer [OF hyp this(1)] this(2) show ?thesis
    by (simp add: sample_setting_def)
qed

lemma scheduler_form_round_trip_witness:
  "\<exists>v d'. set_scheduler 10 \<lparr>si_enabled = True, si_paused = False, si_interval_minutes = 60,
        si_project_ids = [4, 4], si_performance_mode = ''ECO''\<rparr> 7 sample_timer = (Inr v, d') \<and>
     sv_project_ids v = [4] \<and> sv_enabled v"
proof -
  let ?b = "\<lparr>si_enabled = True, si_paused = False, si_interval_minutes = 60,
        si_project_ids = [4, 4], si_performance_mode = ''ECO''\<rparr>"
  have "setting_ids_distinct sample_timer"
    by (simp add: sample_timer_def sample_setting_def setting_ids_distinct_def)
  note rt = scheduler_form_round_trip [OF this, where now = 10 and body = "?b" and usr = 7]
  have "\<exists>v d'. set_scheduler 10 ?b 7 sample_timer = (Inr v, d')"
    unfolding set_scheduler_alt owned_project_ids_def image_set_filter
    by (simp add: sample_timer_def sample_project_def)
  with rt show ?thesis by auto
qed

end
