(* ===== verification/Reporting.thy ===== *)
theory Reporting
  imports Prelude "HOL-Library.Char_ord" "HOL-Library.List_Lexorder"
    "HOL-Library.Product_Lexorder" "HOL-Library.Option_ord"
begin

text \<open>
  \<^verbatim>\<open>backend/app/reporting.py\<close>: a scan report is a list of items (dictionaries); \<open>dedupe_report\<close>
  shows every changed physical vehicle once. The order in which items compete is a parameter of the
  code; the locale \<open>report_ranking\<close> states what it may depend on, and the lemmas about the result are
  proved inside it for every ranking.
\<close>

section \<open>The code\<close>

definition default_report_priority :: "dict \<Rightarrow> int" where
  "default_report_priority item =
     (if dget item ''change'' = JStr ''NEW'' then 0
      else if dget item ''change'' = JStr ''PRICE_DROP'' then 1
      else if dget item ''change'' = JStr ''PRICE_INCREASE'' then 1
      else if dget item ''change'' = JStr ''MATERIAL_UPDATE'' then 2
      else 9)"

definition registration_text :: "dict \<Rightarrow> string" where
  "registration_text item =
     (let v = dget item ''registration_number''
      in squeeze_upper (if truthy v then py_str v else []))"

definition report_key :: "dict \<Rightarrow> string \<times> json" where
  "report_key item =
     (let reg = registration_text item
      in if reg \<noteq> [] then (''registration'', JStr reg)
         else if dget item ''car_id'' \<noteq> JNull then (''car'', dget item ''car_id'')
         else if truthy (dget item ''encar_id'') then (''encar'', dget item ''encar_id'')
         else (''report'', JNull))"

text \<open>\<^verbatim>\<open>(project_id, project_name or f"#{project_id}")\<close>.\<close>

definition item_context :: "dict \<Rightarrow> json \<times> string" where
  "item_context item =
     (dget item ''project_id'',
      if truthy (dget item ''project_name'') then py_str (dget item ''project_name'')
      else ''#'' @ py_str (dget item ''project_id''))"

fun context_id :: "json \<Rightarrow> int" where
  "context_id (JInt i) = (if i = 0 then - 1 else i)"
| "context_id _ = - 1"

definition context_sort_key :: "json \<times> string \<Rightarrow> json \<times> string \<Rightarrow> bool \<times> string \<times> int" where
  "context_sort_key preferred c = (c \<noteq> preferred, snd c, context_id (fst c))"

definition project_context :: "dict list \<Rightarrow> dict \<Rightarrow> dict" where
  "project_context items preferred =
     (let contexts = fromkeys (map item_context
            (filter (\<lambda>i. \<not> (dget i ''project_id'' = JNull \<and> \<not> truthy (dget i ''project_name'')))
               items));
          contexts = sort_key (context_sort_key (item_context preferred)) contexts
      in if length contexts < 2 then []
         else [(''project_ids'', JList (filter (\<lambda>p. p \<noteq> JNull) (map fst contexts))),
               (''project_names'', JList (map (\<lambda>c. JStr (snd c)) contexts))])"

definition listing_context :: "dict list \<Rightarrow> dict \<Rightarrow> dict" where
  "listing_context items preferred =
     (let ids = fromkeys (map (\<lambda>i. py_str (dget i ''encar_id''))
            (filter (\<lambda>i. truthy (dget i ''encar_id'')) (preferred # items)))
      in if length ids > 1 then [(''encar_ids'', JList (map JStr ids))] else [])"

definition preferred_item :: "(dict \<Rightarrow> int) \<Rightarrow> dict list \<Rightarrow> dict" where
  "preferred_item priority items =
     foldl (\<lambda>pref item.
        if dget item ''change'' = JStr ''SOLD'' \<or>
           (dget pref ''change'' \<noteq> JStr ''SOLD'' \<and> priority item < priority pref)
        then item else pref) (hd items) (tl items)"

definition merge_group :: "(dict \<Rightarrow> int) \<Rightarrow> dict list \<Rightarrow> dict" where
  "merge_group priority items =
     (let preferred = preferred_item priority items
      in dmerge (dmerge preferred (project_context items preferred))
           (listing_context items preferred))"

text \<open>\<^verbatim>\<open>item.get("updated_at") or ""\<close>: a report item carries the ISO time of its check.\<close>

fun updated_key :: "json \<Rightarrow> time option" where
  "updated_key (JTime t) = Some t"
| "updated_key _ = None"

definition report_sort_key :: "(dict \<Rightarrow> int) \<Rightarrow> dict \<Rightarrow> int \<times> time option" where
  "report_sort_key priority item = (priority item, updated_key (dget item ''updated_at''))"

definition dedupe_report :: "(dict \<Rightarrow> int) \<Rightarrow> dict list \<Rightarrow> dict list" where
  "dedupe_report priority report =
     sort_key (report_sort_key priority)
       (map (\<lambda>(_, items). merge_group priority items)
          (group_by report_key
             (filter (\<lambda>i. dget i ''change'' \<noteq> JStr ''RELISTED'') report)))"

section \<open>Choosing the representative\<close>

definition is_sold :: "dict \<Rightarrow> bool" where
  "is_sold item \<longleftrightarrow> dget item ''change'' = JStr ''SOLD''"

lemma preferred_item_Cons [simp]: "preferred_item pr [x] = x"
  by (simp add: preferred_item_def)

lemma preferred_item_snoc:
  "xs \<noteq> [] \<Longrightarrow> preferred_item pr (xs @ [x]) =
     (if is_sold x \<or> (\<not> is_sold (preferred_item pr xs) \<and> pr x < pr (preferred_item pr xs))
      then x else preferred_item pr xs)"
  by (cases xs) (auto simp: preferred_item_def is_sold_def)

lemma preferred_item_props:
  "xs \<noteq> [] \<Longrightarrow> preferred_item pr xs \<in> set xs \<and>
     (is_sold (preferred_item pr xs) \<longleftrightarrow> (\<exists>x \<in> set xs. is_sold x)) \<and>
     ((\<nexists>x. x \<in> set xs \<and> is_sold x) \<longrightarrow> (\<forall>x \<in> set xs. pr (preferred_item pr xs) \<le> pr x))"
proof (induction xs rule: rev_induct)
  case Nil
  then show ?case by simp
next
  case (snoc x xs)
  show ?case
  proof (cases "xs = []")
    case True
    then show ?thesis by simp
  next
    case False
    then show ?thesis
      using snoc.IH [OF False] by (auto simp: preferred_item_snoc [OF False])
  qed
qed

lemmas preferred_item_in = preferred_item_props [THEN conjunct1]

text \<open>The keys \<open>merge_group\<close> may add.\<close>

lemma project_context_keys:
  "has_key (project_context items p) k \<Longrightarrow> k = ''project_ids'' \<or> k = ''project_names''"
  by (auto simp: project_context_def Let_def split: if_splits)

lemma listing_context_keys: "has_key (listing_context items p) k \<Longrightarrow> k = ''encar_ids''"
  by (auto simp: listing_context_def Let_def split: if_splits)

lemma merge_group_dget:
  assumes "k \<notin> {''project_ids'', ''project_names'', ''encar_ids''}"
  shows "dget (merge_group pr items) k = dget (preferred_item pr items) k"
  using assms project_context_keys listing_context_keys
  by (auto simp: merge_group_def Let_def dget_dmerge)

lemma report_key_merge_group [simp]:
  "report_key (merge_group pr items) = report_key (preferred_item pr items)"
  by (simp add: report_key_def registration_text_def Let_def merge_group_dget)

section \<open>What a deduplicated report shows\<close>

definition reported :: "dict list \<Rightarrow> dict list" where
  "reported report = filter (\<lambda>i. dget i ''change'' \<noteq> JStr ''RELISTED'') report"

lemma set_dedupe_report:
  "set (dedupe_report pr report) =
     (\<lambda>(_, items). merge_group pr items) ` set (group_by report_key (reported report))"
  by (simp add: dedupe_report_def reported_def)

lemma dedupe_report_member:
  assumes "x \<in> set (dedupe_report pr report)"
  obtains items where "items = filter (\<lambda>i. report_key i = report_key x) (reported report)"
    "items \<noteq> []" "x = merge_group pr items"
proof -
  from assms obtain k items where g: "(k, items) \<in> set (group_by report_key (reported report))"
    and x: "x = merge_group pr items" by (auto simp: set_dedupe_report)
  have "report_key (preferred_item pr items) = k"
    by (rule group_by_key [OF g preferred_item_in [OF group_by_nonempty [OF g]]])
  then have "report_key x = k" using x by simp
  then show ?thesis using that [OF _ group_by_nonempty [OF g] x] group_by_filter [OF g] by simp
qed

lemma merged_keys:
  "map report_key (map (\<lambda>(_, items). merge_group pr items) (group_by report_key xs)) =
     fromkeys (map report_key xs)"
proof -
  have "map report_key (map (\<lambda>(_, items). merge_group pr items) (group_by report_key xs)) =
      map fst (group_by report_key xs)"
    unfolding map_map
  proof (rule map_cong [OF refl])
    fix g assume "g \<in> set (group_by report_key xs)"
    then have g: "(fst g, snd g) \<in> set (group_by report_key xs)" by simp
    have "report_key (preferred_item pr (snd g)) = fst g"
      by (rule group_by_key [OF g preferred_item_in [OF group_by_nonempty [OF g]]])
    then show "(report_key \<circ> (\<lambda>(_, items). merge_group pr items)) g = fst g"
      by (simp add: case_prod_unfold)
  qed
  then show ?thesis by simp
qed

lemma distinct_sort_key_map:
  "distinct (map g (sort_key f xs)) \<longleftrightarrow> distinct (map g xs)"
  by (simp add: distinct_map)

lemma dedupe_report_keys:
  "distinct (map report_key (dedupe_report pr report)) \<and>
     report_key ` set (dedupe_report pr report) = report_key ` set (reported report)"
proof
  have "distinct (map report_key (map (\<lambda>(_, items). merge_group pr items)
          (group_by report_key (reported report))))"
    unfolding merged_keys by simp
  then show "distinct (map report_key (dedupe_report pr report))"
    unfolding dedupe_report_def reported_def distinct_sort_key_map .
  have "report_key ` set (dedupe_report pr report) =
      set (map report_key (map (\<lambda>(_, items). merge_group pr items)
        (group_by report_key (reported report))))"
    by (simp add: set_dedupe_report image_image)
  then show "report_key ` set (dedupe_report pr report) = report_key ` set (reported report)"
    unfolding merged_keys by simp
qed

lemmas dedupe_report_distinct = dedupe_report_keys [THEN conjunct1]

text \<open>C12: a deduplicated report shows every changed vehicle exactly once: its items have pairwise
  different keys, and the keys are those of the reported items that are not mere relistings.\<close>

theorem dedupe_report_once:
  "distinct (map report_key (dedupe_report pr report)) \<and>
     report_key ` set (dedupe_report pr report) =
       report_key ` {i \<in> set report. dget i ''change'' \<noteq> JStr ''RELISTED''}"
  using dedupe_report_keys [of pr report] by (simp add: reported_def)

lemma project_context_single [simp]: "project_context [x] x = []"
  by (auto simp: project_context_def Let_def)

lemma listing_context_single [simp]: "listing_context [x] x = []"
  by (auto simp: listing_context_def Let_def)

lemma merge_group_single [simp]: "merge_group pr [x] = x"
  by (simp add: merge_group_def Let_def)

text \<open>C13: deduplication is idempotent: a report that was deduplicated while the scan was running, stored,
  and deduplicated again when it is shown does not change.\<close>

theorem dedupe_report_idem:
  "dedupe_report pr (dedupe_report pr report) = dedupe_report pr report"
proof -
  let ?xs = "dedupe_report pr report"
  have d: "distinct (map report_key ?xs)"
    using dedupe_report_distinct by blast
  have kept: "filter (\<lambda>i. dget i ''change'' \<noteq> JStr ''RELISTED'') ?xs = ?xs"
  proof (rule filter_True, rule ballI)
    fix x assume "x \<in> set ?xs"
    then obtain items where items: "items = filter (\<lambda>i. report_key i = report_key x) (reported report)"
      "items \<noteq> []" "x = merge_group pr items" by (rule dedupe_report_member)
    have "set items \<subseteq> set (reported report)" using items(1) by auto
    then have "preferred_item pr items \<in> set (reported report)"
      using preferred_item_in [OF items(2), of pr] by blast
    then show "dget x ''change'' \<noteq> JStr ''RELISTED''"
      unfolding items(3) by (auto simp: reported_def merge_group_dget)
  qed
  have "sorted (map (report_sort_key pr) ?xs)"
    by (simp add: dedupe_report_def)
  then have "sort_key (report_sort_key pr) ?xs = ?xs"
    by (rule sort_key_sorted)
  moreover have "map (\<lambda>(_, items). merge_group pr items) (group_by report_key ?xs) = ?xs"
    by (simp add: group_by_distinct [OF d] comp_def)
  ultimately show ?thesis
    by (subst dedupe_report_def) (simp add: kept)
qed

section \<open>Rankings\<close>

text \<open>A ranking may look at the kind of change and at the favourite mark, nothing else.\<close>

locale report_ranking =
  fixes priority :: "dict \<Rightarrow> int"
  assumes by_change: "dget a ''change'' = dget b ''change'' \<Longrightarrow>
    dget a ''favorite'' = dget b ''favorite'' \<Longrightarrow> priority a = priority b"
begin

lemma priority_merge_group: "priority (merge_group priority items) = priority (preferred_item priority items)"
  by (rule by_change) (simp_all add: merge_group_dget)

lemma representative_best:
  assumes x: "x \<in> set (dedupe_report priority report)"
    and i: "i \<in> set report" "dget i ''change'' \<noteq> JStr ''RELISTED''" "report_key i = report_key x"
  shows "(is_sold i \<longrightarrow> is_sold x) \<and> (\<not> is_sold x \<longrightarrow> priority x \<le> priority i)"
proof -
  from x obtain items where items: "items = filter (\<lambda>i. report_key i = report_key x) (reported report)"
    "items \<noteq> []" "x = merge_group priority items" by (rule dedupe_report_member)
  have mem: "i \<in> set items" using i items(1) by (simp add: reported_def)
  have "is_sold x \<longleftrightarrow> is_sold (preferred_item priority items)"
    unfolding items(3) by (simp add: is_sold_def merge_group_dget)
  moreover have "priority x = priority (preferred_item priority items)"
    unfolding items(3) by (rule priority_merge_group)
  moreover note preferred_item_props [OF items(2), of priority] mem
  ultimately show ?thesis by metis
qed

end

interpretation default_ranking: report_ranking default_report_priority
  by unfold_locales (simp add: default_report_priority_def)

text \<open>C14: the item shown for a vehicle is a sale notice whenever one of its items is, and otherwise no item
  of that vehicle ranks before it.\<close>

theorem dedupe_report_representative:
  assumes "x \<in> set (dedupe_report default_report_priority report)"
    and "i \<in> set report" and "dget i ''change'' \<noteq> JStr ''RELISTED''"
    and "report_key i = report_key x"
  shows "(is_sold i \<longrightarrow> is_sold x) \<and>
    (\<not> is_sold x \<longrightarrow> default_report_priority x \<le> default_report_priority i)"
  using assms by (rule default_ranking.representative_best)

lemma dedupe_report_representative_witness:
  "\<exists>x. x \<in> set (dedupe_report default_report_priority
      [[(''car_id'', JInt 3), (''change'', JStr ''NEW'')],
       [(''car_id'', JInt 3), (''change'', JStr ''SOLD'')]]) \<and> is_sold x"
proof -
  let ?i = "[(''car_id'', JInt 3), (''change'', JStr ''SOLD'')]"
  let ?report = "[[(''car_id'', JInt 3), (''change'', JStr ''NEW'')], ?i]"
  have "report_key ?i \<in> report_key ` set (dedupe_report default_report_priority ?report)"
    unfolding dedupe_report_keys [THEN conjunct2] by (simp add: reported_def)
  then obtain x where x: "x \<in> set (dedupe_report default_report_priority ?report)"
    "report_key ?i = report_key x" by auto
  have "is_sold ?i" by (simp add: is_sold_def)
  then show ?thesis
    using dedupe_report_representative [OF x(1) _ _ x(2)] x(1) by auto
qed

end
