(* ===== verification/Worker.thy ===== *)
theory Worker
  imports Observations Scheduler Reporting
begin

text \<open>
  \<^verbatim>\<open>process_job\<close> of \<^verbatim>\<open>backend/app/worker.py\<close>: one scan run from its claim to its result.

  The record \<open>worker\<close> is the database session (the tables as the session sees them, the last commit a
  rollback returns to, the run object the session holds and its notion whether the owner is active)
  together with the local variables of \<^verbatim>\<open>process_job\<close>. Sessions keep loaded objects across commits
  (\<^verbatim>\<open>expire_on_commit=False\<close>), so the run's object is stale until \<^verbatim>\<open>_raise_if_cancelled\<close> refreshes its
  status and payload; an assignment writes the column from what the object holds. Other sessions
  (requests, the heartbeat, the tray) act between two transactions of the worker: each commit is
  followed by the next entry of \<open>wk_others\<close>, a time and a transaction.

  Each write is accepted by the database. What the code meets otherwise is not modelled: a row of the
  scan deleted by another session (\<^verbatim>\<open>StaleDataError\<close> at the commit, also in the handlers of
  exceptions, where it leaves the run open until the next recovery; here the update changes no row),
  and a number of the site that SQLite cannot store.

  The web site and the browsers are the record \<open>site\<close>: what a result page, a list row and a reading
  of a listing return or raise, and in which order the detail workers deliver.
\<close>

section \<open>Floating point progress\<close>

type_synonym flt = "int \<times> int"

definition fadd :: "flt \<Rightarrow> flt \<Rightarrow> flt" where
  "fadd a b = fl (fst a * snd b + fst b * snd a, snd a * snd b)"

definition fmul :: "flt \<Rightarrow> flt \<Rightarrow> flt" where
  "fmul a b = fl (fst a * fst b, snd a * snd b)"

definition fdiv :: "flt \<Rightarrow> nat \<Rightarrow> flt" where
  "fdiv a n = fl (fst a, snd a * int n)"

definition fnat :: "nat \<Rightarrow> flt" where
  "fnat n = (int n, 1)"

text \<open>\<^verbatim>\<open>round(units / total_units * 100)\<close>.\<close>

definition percent_done :: "flt \<Rightarrow> nat \<Rightarrow> int" where
  "percent_done units total_units = (let x = fmul (fdiv units total_units) (100, 1) in round_half_even (fst x) (snd x))"

definition page_fraction :: "nat \<Rightarrow> nat \<Rightarrow> flt" where
  "page_fraction current pages = (let x = fl (int current, int pages) in if fst x < snd x then x else (1, 1))"

definition page_progress :: "nat \<Rightarrow> nat \<Rightarrow> nat \<Rightarrow> nat \<Rightarrow> int" where
  "page_progress completed total_units current pages =
     percent_done (fadd (fnat completed) (fmul (fl (15, 100)) (page_fraction current pages))) total_units"

definition part_progress :: "flt \<Rightarrow> nat \<Rightarrow> nat \<Rightarrow> nat \<Rightarrow> nat \<Rightarrow> int" where
  "part_progress share completed total_units finished n =
     percent_done (fadd (fadd (fnat completed) (fl (15, 100)))
       (fdiv (fmul share (fnat finished)) (max 1 n))) total_units"

definition unit_progress :: "nat \<Rightarrow> nat \<Rightarrow> int" where
  "unit_progress completed total_units = min 99 (percent_done (fnat completed) total_units)"

section \<open>The state\<close>

record detail_context =
  dc_source_id :: string
  dc_known_car_id :: "int option"
  dc_previous :: "observation option"
  dc_mark_search_found :: bool

record detail_task =
  dt_key :: string
  dt_row :: dict
  dt_known_price :: "int option"
  dt_context :: detail_context
  dt_read_kind :: read_kind

record site =
  site_below :: "string \<Rightarrow> string option"
  site_entitlement :: "scan_exc + unit"
  site_browser :: "scan_exc + unit"
  site_page :: "time \<Rightarrow> string \<Rightarrow> string \<Rightarrow> int \<Rightarrow> scan_exc + search_page"
  site_price_filter :: "string \<Rightarrow> int option \<Rightarrow> int option \<Rightarrow> scan_exc + string"
  site_list_row :: "dict \<Rightarrow> dict"
  site_pool :: "time \<Rightarrow> scan_exc + unit"
  site_read :: "time \<Rightarrow> read_kind \<Rightarrow> dict \<Rightarrow> nat \<Rightarrow> scan_exc + dict"
  site_order :: "time \<Rightarrow> nat list"
  site_relaunch :: "time \<Rightarrow> scan_exc + unit"

record worker =
  wk_db :: db
  wk_saved :: db
  wk_job :: scan_run
  wk_owner_active :: bool
  wk_others :: "(time \<times> (db \<Rightarrow> db)) list"
  wk_clock :: time
  wk_published :: "(int \<times> int) list"
  wk_payload :: dict
  wk_total :: nat
  wk_completed :: nat
  wk_failures :: "string list"
  wk_failure_details :: "dict list"
  wk_successes :: nat
  wk_report :: "dict list"
  wk_statuses :: dict
  wk_found :: "string set"
  wk_seen :: "string set"
  wk_confirmed_sold :: "string set"
  wk_tasks :: "detail_task list"
  wk_rows_done :: nat

text \<open>What the scan of one project fixes at its start.\<close>

record project_scan =
  pj_project :: project
  pj_scan_mode :: string
  pj_page_mode :: string
  pj_initial_full_scan :: bool
  pj_needs_baseline :: bool
  pj_revision :: int
  pj_previous_new :: "int set"

section \<open>The session\<close>

definition job_id :: "worker \<Rightarrow> int" where
  "job_id w = r_id (wk_job w)"

definition on_db :: "(time \<Rightarrow> db \<Rightarrow> db) \<Rightarrow> (worker, unit) proc" where
  "on_db f = update (\<lambda>w. w\<lparr>wk_db := f (wk_clock w) (wk_db w)\<rparr>)"

text \<open>An assignment to columns of the run: \<open>g job\<close> sets them from what the object \<open>job\<close> holds.\<close>

definition assign :: "(scan_run \<Rightarrow> scan_run \<Rightarrow> scan_run) \<Rightarrow> (worker, unit) proc" where
  "assign g = update (\<lambda>w. w\<lparr>wk_job := g (wk_job w) (wk_job w),
     wk_db := set_run (job_id w) (g (wk_job w)) (wk_db w)\<rparr>)"

definition commit :: "(worker, unit) proc" where
  "commit = update (\<lambda>w. case wk_others w of
       [] \<Rightarrow> w\<lparr>wk_saved := wk_db w\<rparr>
     | (t, f) # later \<Rightarrow> w\<lparr>wk_db := f (wk_db w), wk_saved := f (wk_db w), wk_others := later,
         wk_clock := max t (wk_clock w)\<rparr>)"

text \<open>A rollback expires every loaded object: the run and its owner are read again.\<close>

definition rollback :: "(worker, unit) proc" where
  "rollback = update (\<lambda>w. w\<lparr>wk_db := wk_saved w,
     wk_job := (case get_run (wk_saved w) (job_id w) of Some r \<Rightarrow> r | None \<Rightarrow> wk_job w),
     wk_owner_active := owner_is_active (wk_saved w) (r_owner_id (wk_job w))\<rparr>)"

definition publish_scan_update :: "(worker, unit) proc" where
  "publish_scan_update = update (\<lambda>w.
     w\<lparr>wk_published := wk_published w @ [(r_owner_id (wk_job w), job_id w)]\<rparr>)"

definition invalid_request_error :: scan_exc where
  "invalid_request_error = OtherError ''InvalidRequestError'' None ''Could not refresh instance''"

definition refresh_job :: "scan_run \<Rightarrow> worker \<Rightarrow> worker" where
  "refresh_job r w = w\<lparr>wk_job := (wk_job w)\<lparr>r_status := r_status r, r_payload := r_payload r\<rparr>\<rparr>"

definition raise_if_cancelled :: "(worker, unit) proc" where
  "raise_if_cancelled = asks (\<lambda>w.
     case get_run (wk_db w) (job_id w) of
       None \<Rightarrow> throw invalid_request_error
     | Some r \<Rightarrow>
         seq (update (refresh_job r))
           (if r_status r \<in> {CANCEL_REQUESTED, CANCELLED} then throw ScanCancelled
            else seq (assign (\<lambda>_ j. j\<lparr>r_heartbeat_at := Some (wk_clock w)\<rparr>))
              (if wk_owner_active w then ret ()
               else block [assign (\<lambda>_ j. j\<lparr>r_status := CANCEL_REQUESTED\<rparr>), commit,
                           throw ScanCancelled])))"

definition merge_payload :: "(dict \<Rightarrow> dict) \<Rightarrow> dict \<Rightarrow> (worker, unit) proc" where
  "merge_payload new fallback = assign (\<lambda>job j.
     let base = (if payload_of job = [] then fallback else payload_of job)
     in j\<lparr>r_payload := Some (dmerge base (new base))\<rparr>)"

definition set_progress :: "int \<Rightarrow> (worker, unit) proc" where
  "set_progress n = assign (\<lambda>_ j. j\<lparr>r_progress := n\<rparr>)"

definition set_project_run ::
  "int \<Rightarrow> int \<Rightarrow> (project_scan_run \<Rightarrow> project_scan_run) \<Rightarrow> db \<Rightarrow> db" where
  "set_project_run i p f d = d\<lparr>project_scan_runs :=
     update_where (\<lambda>x. psr_scan_run_id x = i \<and> psr_project_id x = p) f (project_scan_runs d)\<rparr>"

definition attribute_error :: "string \<Rightarrow> scan_exc" where
  "attribute_error name = (let q = (\<lambda>s. [CHR 0x27] @ s @ [CHR 0x27]) in
     OtherError ''AttributeError'' None (q ''NoneType'' @ '' object has no attribute '' @ q name))"


section \<open>Results in the payload\<close>

fun status_name :: "run_status \<Rightarrow> string" where
  "status_name QUEUED = ''QUEUED''"
| "status_name RUNNING = ''RUNNING''"
| "status_name CANCEL_REQUESTED = ''CANCEL_REQUESTED''"
| "status_name SUCCEEDED = ''SUCCEEDED''"
| "status_name PARTIAL = ''PARTIAL''"
| "status_name FAILED = ''FAILED''"
| "status_name CANCELLED = ''CANCELLED''"
| "status_name INTERRUPTED = ''INTERRUPTED''"
| "status_name INTERRUPTED_SLEEP = ''INTERRUPTED_SLEEP''"

definition count_changes :: "string list \<Rightarrow> dict list \<Rightarrow> int" where
  "count_changes kinds report =
     int (length (filter (\<lambda>i. dget i ''change'' \<in> JStr ` set kinds) report))"

definition report_summary :: "dict list \<Rightarrow> nat \<Rightarrow> json" where
  "report_summary report failed = JObj
     [(''changed'', JInt (int (length report))),
      (''new'', JInt (count_changes [''NEW''] report)),
      (''price_changes'', JInt (count_changes [''PRICE_DROP'', ''PRICE_INCREASE''] report)),
      (''failed'', JInt (int failed))]"

definition result_fields :: "dict list \<Rightarrow> dict list \<Rightarrow> nat \<Rightarrow> dict" where
  "result_fields report failure_details failed =
     [(''report'', JList (map JObj report)),
      (''failures'', JList (map JObj failure_details)),
      (''summary'', report_summary report failed)]"

definition live_fields :: "worker \<Rightarrow> dict \<Rightarrow> json \<Rightarrow> dict" where
  "live_fields w statuses current_project_id =
     [(''current_project_id'', current_project_id), (''project_statuses'', JObj statuses)]
     @ result_fields (dedupe_report default_report_priority (wk_report w)) (wk_failure_details w)
         (length (wk_failures w))"

definition publish_live_results :: "dict \<Rightarrow> json \<Rightarrow> (worker, unit) proc" where
  "publish_live_results statuses current_project_id = asks (\<lambda>w.
     merge_payload (\<lambda>_. live_fields w statuses current_project_id) (wk_payload w))"

definition publish_project_results :: "dict \<Rightarrow> (worker, unit) proc" where
  "publish_project_results statuses = publish_live_results statuses JNull"

definition add_failure :: "string \<Rightarrow> dict \<Rightarrow> worker \<Rightarrow> worker" where
  "add_failure text detail w = w\<lparr>wk_failures := wk_failures w @ [text],
     wk_failure_details := wk_failure_details w @ [detail]\<rparr>"

definition joined_failures :: "worker \<Rightarrow> string" where
  "joined_failures w = join [CHR 0x0A] (wk_failures w)"

section \<open>Ending a run\<close>

definition interrupted_by_sleep :: "scan_run \<Rightarrow> bool" where
  "interrupted_by_sleep job \<longleftrightarrow> dget (payload_of job) ''cancellation_reason'' = JStr ''SYSTEM_SLEEP''"

definition cancel_status :: "scan_run \<Rightarrow> run_status" where
  "cancel_status job = (if interrupted_by_sleep job then INTERRUPTED_SLEEP else CANCELLED)"

definition cancel_project_run :: "scan_run \<Rightarrow> project_scan_run \<Rightarrow> project_scan_run" where
  "cancel_project_run job x =
     (if psr_status x \<in> {QUEUED, RUNNING}
      then x\<lparr>psr_status := cancel_status job,
             psr_error_code := (if interrupted_by_sleep job then Some ''SYSTEM_SLEEP'' else None)\<rparr>
      else x)"

definition run_statuses :: "int \<Rightarrow> db \<Rightarrow> dict \<Rightarrow> dict" where
  "run_statuses i d statuses =
     foldl (\<lambda>s x. dset s (show_int (psr_project_id x)) (JStr (status_name (psr_status x)))) statuses
       (filter (\<lambda>x. psr_scan_run_id x = i) (project_scan_runs d))"

definition cancelled_fields :: "worker \<Rightarrow> dict" where
  "cancelled_fields w =
     (let report = dedupe_report default_report_priority (wk_report w)
      in [(''current_project_id'', JNull),
          (''project_statuses'', JObj (run_statuses (job_id w) (wk_db w)
             (get_obj (payload_of (wk_job w)) ''project_statuses'')))]
         @ (if interrupted_by_sleep (wk_job w)
            then [(''interrupted_at'', JTime (wk_clock w)),
                  (''interruption_reason'', JStr ''SYSTEM_SLEEP''), (''partial_report'', JBool True)]
            else [(''cancelled_at'', JTime (wk_clock w))])
         @ result_fields report (wk_failure_details w) (length (wk_failures w)))"

definition cancelled_error :: "worker \<Rightarrow> string option" where
  "cancelled_error w =
     (if joined_failures w \<noteq> [] then Some (joined_failures w)
      else if interrupted_by_sleep (wk_job w)
        then Some ''Computer entered sleep before the scan finished'' else None)"

definition reanchor_scheduler :: "(worker, unit) proc" where
  "reanchor_scheduler = update (\<lambda>w.
     let d = reanchor_scheduler_after_manual_projects (wk_job w) (wk_clock w) (wk_db w)
     in w\<lparr>wk_db := d, wk_job := (case get_run d (job_id w) of
            Some r \<Rightarrow> (wk_job w)\<lparr>r_payload := r_payload r\<rparr> | None \<Rightarrow> wk_job w)\<rparr>)"

definition record_completed_run :: "(worker, unit) proc" where
  "record_completed_run = update (\<lambda>w.
     let d = record_completed_scheduler_run (wk_job w) (wk_clock w) (wk_db w)
     in w\<lparr>wk_db := d, wk_job := (case get_run d (job_id w) of
            Some r \<Rightarrow> (wk_job w)\<lparr>r_payload := r_payload r\<rparr> | None \<Rightarrow> wk_job w)\<rparr>)"

text \<open>The columns every end of a run writes together.\<close>

definition end_run :: "run_status \<Rightarrow> time \<Rightarrow> string option \<Rightarrow> dict \<Rightarrow> scan_run \<Rightarrow> scan_run" where
  "end_run status t err payload j = j\<lparr>r_status := status, r_finished_at := Some t,
     r_heartbeat_at := Some t, r_error := err, r_payload := Some payload\<rparr>"

definition cancelled_columns :: "worker \<Rightarrow> scan_run \<Rightarrow> scan_run \<Rightarrow> scan_run" where
  "cancelled_columns w job = end_run (cancel_status job) (wk_clock w) (cancelled_error w)
     (dmerge (dmerge (wk_payload w) (payload_of job)) (cancelled_fields w))"

definition cancel_project_runs :: "worker \<Rightarrow> worker" where
  "cancel_project_runs w = w\<lparr>wk_db := (wk_db w)\<lparr>project_scan_runs :=
     update_where (\<lambda>x. psr_scan_run_id x = job_id w) (cancel_project_run (wk_job w))
       (project_scan_runs (wk_db w))\<rparr>\<rparr>"

definition finish_cancelled_job :: "(worker, unit) proc" where
  "finish_cancelled_job = block [
     update cancel_project_runs,
     asks (\<lambda>w. assign (cancelled_columns w)),
     reanchor_scheduler,
     commit]"

definition base_payload :: "worker \<Rightarrow> dict" where
  "base_payload w = (if payload_of (wk_job w) = [] then wk_payload w else payload_of (wk_job w))"

definition completed_status :: "worker \<Rightarrow> run_status" where
  "completed_status w = (if wk_failures w = [] then SUCCEEDED
     else if wk_successes w \<noteq> 0 then PARTIAL else FAILED)"

definition dedupe_own_report :: "(worker, unit) proc" where
  "dedupe_own_report = update (\<lambda>w.
     w\<lparr>wk_report := dedupe_report default_report_priority (wk_report w)\<rparr>)"

definition completed_columns :: "worker \<Rightarrow> scan_run \<Rightarrow> scan_run \<Rightarrow> scan_run" where
  "completed_columns w _ = end_run (completed_status w) (wk_clock w)
     (if joined_failures w = [] then None else Some (joined_failures w))
     (dmerge (base_payload w)
        (result_fields (wk_report w) (wk_failure_details w) (length (wk_failures w))))"

definition complete_job :: "(worker, unit) proc" where
  "complete_job = block [
     raise_if_cancelled,
     dedupe_own_report,
     set_progress 100,
     asks (\<lambda>w. assign (completed_columns w)),
     record_completed_run,
     reanchor_scheduler,
     commit,
     publish_scan_update]"

definition failed_columns :: "scan_exc \<Rightarrow> worker \<Rightarrow> scan_run \<Rightarrow> scan_run \<Rightarrow> scan_run" where
  "failed_columns e w _ = end_run FAILED (wk_clock w) (Some (exc_class e @ '': '' @ exc_text e))
     (dmerge (base_payload w)
        (result_fields (wk_report w) (wk_failure_details w @ [failure_detail e ''RUN'' None None None])
           (Suc (length (wk_failure_details w)))))"

definition fail_job :: "scan_exc \<Rightarrow> (worker, unit) proc" where
  "fail_job e = block [
     dedupe_own_report,
     asks (\<lambda>w. assign (failed_columns e w)),
     reanchor_scheduler,
     commit,
     publish_scan_update]"


section \<open>Observing one car\<close>

text \<open>Report what changed since \<open>previous\<close> and remember the new observation; \<open>otherwise\<close> gives the
  items that stand in for an absent change.\<close>

definition report_observation ::
  "project \<Rightarrow> observation option \<Rightarrow> (worker \<Rightarrow> car \<Rightarrow> int option \<Rightarrow> dict list) \<Rightarrow> int \<Rightarrow> (worker, unit) proc" where
  "report_observation p previous otherwise cid = asks (\<lambda>w.
     case (get_car (wk_db w) cid, get_project_car (wk_db w) (p_id p) cid) of
       (Some c, Some l) \<Rightarrow>
         let snapshot = latest_snapshot_id (wk_db w) cid;
             item = change_report (wk_clock w) c p previous (pc_search_status l) snapshot
         in update (\<lambda>w. w\<lparr>
              wk_report := wk_report w @ (case item of Some i \<Rightarrow> [i] | None \<Rightarrow> otherwise w c snapshot),
              wk_db := remember_observation (wk_clock w) (p_id p) c snapshot (wk_db w)\<rparr>)
     | _ \<Rightarrow> throw (attribute_error ''search_status''))"

definition observe_in_search :: "project \<Rightarrow> observation option \<Rightarrow> int \<Rightarrow> (worker, unit) proc" where
  "observe_in_search p previous cid = report_observation p previous (\<lambda>_ _ _. []) cid"

definition encar_of :: "db \<Rightarrow> int \<Rightarrow> string set" where
  "encar_of d cid = (case get_car d cid of Some c \<Rightarrow> {c_canonical_encar_id c} | None \<Rightarrow> {})"

definition add_found :: "int \<Rightarrow> (worker, unit) proc" where
  "add_found cid = update (\<lambda>w. w\<lparr>wk_found := wk_found w \<union> encar_of (wk_db w) cid\<rparr>)"

definition count_row :: "(worker, unit) proc" where
  "count_row = update (\<lambda>w. w\<lparr>wk_rows_done := Suc (wk_rows_done w)\<rparr>)"

definition mark_found :: "project \<Rightarrow> car \<Rightarrow> (worker, unit) proc" where
  "mark_found p c = on_db (\<lambda>t d. snd (mark_found_without_detail t (p_id p) c d))"

section \<open>Rows of the search\<close>

definition publish_row_progress :: "project \<Rightarrow> nat \<Rightarrow> (worker, unit) proc" where
  "publish_row_progress p n = block [
     asks (\<lambda>w. set_progress (part_progress (fl (30, 100)) (wk_completed w) (wk_total w) (wk_rows_done w) n)),
     asks (\<lambda>w. publish_live_results (wk_statuses w) (JInt (p_id p))),
     commit,
     publish_scan_update]"

definition update_page_progress :: "project_scan \<Rightarrow> dict \<Rightarrow> (worker, unit) proc" where
  "update_page_progress j info = block [
     asks (\<lambda>w. merge_payload (\<lambda>_.
       [(''pagination'', JObj (dset (get_obj (payload_of (wk_job w)) ''pagination'')
          (show_int (p_id (pj_project j)))
          (JObj (dmerge info [(''mode'', JStr (pj_page_mode j)),
             (''initial_full_scan'', JBool (pj_initial_full_scan j))]))))]) (wk_payload w)),
     asks (\<lambda>w.
       let current = nat (case int_opt (dget info ''current_page'') of Some n \<Rightarrow> n | None \<Rightarrow> 1);
           pages = nat (case int_opt (dget info ''total_pages'') of Some n \<Rightarrow> n | None \<Rightarrow> 1)
       in set_progress (page_progress (wk_completed w) (wk_total w) current (max pages current))),
     commit,
     publish_scan_update]"

fun kind_name :: "read_kind \<Rightarrow> string" where
  "kind_name FULL = ''FULL''"
| "kind_name PRICE_STATUS = ''PRICE_STATUS''"

definition row_read_kind :: "string \<Rightarrow> car option \<Rightarrow> dict \<Rightarrow> read_kind option" where
  "row_read_kind scan_mode known list_data =
     (let price = dget list_data ''price_krw'';
          missing = (price = JNull)
      in detail_read_kind scan_mode (known = None)
           (case known of None \<Rightarrow> False
            | Some c \<Rightarrow> \<not> missing \<and> \<not> py_eq price (jint (c_current_price c)))
           (case known of None \<Rightarrow> False
            | Some c \<Rightarrow> missing \<or> c_current_price c = None)
           False False)"

definition row_task ::
  "project \<Rightarrow> nat \<Rightarrow> string \<Rightarrow> dict \<Rightarrow> car option \<Rightarrow> observation option \<Rightarrow> read_kind \<Rightarrow> detail_task" where
  "row_task p index source_id row known previous kind =
     \<lparr>dt_key = show_int (p_id p) @ '':'' @ source_id @ '':'' @ show_nat index,
      dt_row = dset row ''_searchcar_read_kind'' (JStr (kind_name kind)),
      dt_known_price = (case known of Some c \<Rightarrow> c_current_price c | None \<Rightarrow> None),
      dt_context = \<lparr>dc_source_id = source_id, dc_known_car_id = map_option c_id known,
        dc_previous = previous, dc_mark_search_found = True\<rparr>,
      dt_read_kind = kind\<rparr>"

definition add_task :: "detail_task \<Rightarrow> (worker, unit) proc" where
  "add_task task = update (\<lambda>w. w\<lparr>wk_tasks := wk_tasks w @ [task]\<rparr>)"

definition skipped_row :: "db \<Rightarrow> int \<Rightarrow> car option \<Rightarrow> bool" where
  "skipped_row d p known =
     (case known of None \<Rightarrow> False | Some c \<Rightarrow>
        c_excluded c \<or> c_status c = ''SOLD'' \<or>
        (case get_project_car d p (c_id c) of None \<Rightarrow> False | Some l \<Rightarrow> \<not> pc_tracking_enabled l))"

definition link_of :: "db \<Rightarrow> int \<Rightarrow> car option \<Rightarrow> project_car option" where
  "link_of d p known = (case known of None \<Rightarrow> None | Some c \<Rightarrow> get_project_car d p (c_id c))"

definition found_row ::
  "site \<Rightarrow> project_scan \<Rightarrow> nat \<Rightarrow> nat \<Rightarrow> dict \<Rightarrow> string \<Rightarrow> car option \<Rightarrow> observation option \<Rightarrow> (worker, unit) proc" where
  "found_row si j n index row source_id known previous =
     (case row_read_kind (pj_scan_mode j) known (site_list_row si row) of
        Some kind \<Rightarrow> add_task (row_task (pj_project j) index source_id row known previous kind)
      | None \<Rightarrow>
          (case known of
             None \<Rightarrow> throw (attribute_error ''id'')
           | Some c \<Rightarrow> block [
               mark_found (pj_project j) c,
               observe_in_search (pj_project j) previous (c_id c),
               add_found (c_id c),
               count_row,
               publish_row_progress (pj_project j) n,
               raise_if_cancelled]))"

definition new_row :: "site \<Rightarrow> project_scan \<Rightarrow> nat \<Rightarrow> nat \<Rightarrow> dict \<Rightarrow> string \<Rightarrow> (worker, unit) proc" where
  "new_row si j n index row source_id = asks (\<lambda>w.
     let p = p_id (pj_project j); known = known_car (wk_db w) source_id
     in only_if (\<not> skipped_row (wk_db w) p known) (block [
          update (\<lambda>w. w\<lparr>wk_found := wk_found w \<union> c_canonical_encar_id ` set_option known\<rparr>),
          found_row si j n index row source_id known
            (previous_state (wk_db w) known (link_of (wk_db w) p known))]))"

definition process_row :: "site \<Rightarrow> project_scan \<Rightarrow> nat \<Rightarrow> nat \<times> dict \<Rightarrow> (worker, unit) proc" where
  "process_row si j n irow =
     (let source_id = py_str (dget (snd irow) ''source_car_id'')
      in seq raise_if_cancelled (asks (\<lambda>w.
           only_if (source_id \<notin> wk_seen w) (block [
             update (\<lambda>w. w\<lparr>wk_seen := insert source_id (wk_seen w)\<rparr>),
             new_row si j n (fst irow) (snd irow) source_id]))))"

section \<open>Cars missing from the search\<close>

definition missing_task :: "project \<Rightarrow> db \<Rightarrow> nat \<Rightarrow> car \<Rightarrow> detail_task" where
  "missing_task p d index c =
     \<lparr>dt_key = show_int (p_id p) @ '':missing:'' @ show_int (c_id c) @ '':'' @ show_nat index,
      dt_row = [(''url'', JStr (if c_url c = [] then ''https://fem.encar.com/cars/detail/'' @ c_canonical_encar_id c
                                else c_url c)),
        (''source_car_id'', JStr (c_canonical_encar_id c)),
        (''source'', JStr (p_name p)),
        (''list_text'', JStr []),
        (''_searchcar_read_kind'', JStr ''PRICE_STATUS'')],
      dt_known_price = c_current_price c,
      dt_context = \<lparr>dc_source_id = c_canonical_encar_id c, dc_known_car_id = Some (c_id c),
        dc_previous = previous_state d (Some c) (get_project_car d (p_id p) (c_id c)),
        dc_mark_search_found = False\<rparr>,
      dt_read_kind = PRICE_STATUS\<rparr>"

definition add_missing_tasks :: "project_scan \<Rightarrow> (worker, unit) proc" where
  "add_missing_tasks j = update (\<lambda>w.
     let p = pj_project j;
         missing = (if pj_needs_baseline j then [] else missing_cars (wk_db w) (p_id p) (wk_found w))
     in w\<lparr>wk_tasks := wk_tasks w @
            map (\<lambda>(i, c). missing_task p (wk_db w) i c) (enumerate 0 missing)\<rparr>)"

section \<open>Detail readings\<close>

definition publish_detail_progress :: "project \<Rightarrow> int \<Rightarrow> nat \<Rightarrow> (worker, unit) proc" where
  "publish_detail_progress p workers total_details = block [
     asks (\<lambda>w. merge_payload (\<lambda>_.
       [(''detail_progress'', JObj (dset (get_obj (payload_of (wk_job w)) ''detail_progress'')
          (show_int (p_id p))
          (JObj [(''completed'', JInt (int (wk_rows_done w))), (''total'', JInt (int total_details)),
             (''checking'', JInt (min workers (int total_details - int (wk_rows_done w))))])))])
       (wk_payload w)),
     asks (\<lambda>w. set_progress (part_progress (fl (80, 100)) (wk_completed w) (wk_total w)
       (wk_rows_done w) total_details)),
     asks (\<lambda>w. publish_live_results (wk_statuses w) (JInt (p_id p))),
     commit,
     publish_scan_update]"

fun is_scan_error :: "scan_exc \<Rightarrow> bool" where
  "is_scan_error (ScanError cls code msg) = True"
| "is_scan_error _ = False"

definition is_captcha :: "scan_exc \<Rightarrow> bool" where
  "is_captcha e \<longleftrightarrow> is_scan_error e \<and> own_code e = Some ''CAPTCHA''"

definition detail_failure :: "project \<Rightarrow> detail_task \<Rightarrow> car option \<Rightarrow> scan_exc \<Rightarrow> dict" where
  "detail_failure p task known e =
     dset (failure_detail e
         (if dc_mark_search_found (dt_context task) then ''SEARCH_CAR'' else ''MISSING_CAR'')
         (Some p) known (str_opt (dget (dt_row task) ''url'')))
       ''encar_id'' (JStr (dc_source_id (dt_context task)))"

definition detail_failure_text :: "project \<Rightarrow> detail_task \<Rightarrow> scan_exc \<Rightarrow> string" where
  "detail_failure_text p task e =
     (if dc_mark_search_found (dt_context task) then p_name p else ''missing'')
       @ '':'' @ dc_source_id (dt_context task) @ '':'' @ failure_code e @ '': '' @ exc_text e"

definition known_of :: "db \<Rightarrow> detail_task \<Rightarrow> car option" where
  "known_of d task = Option.bind (dc_known_car_id (dt_context task)) (get_car d)"

definition detail_error ::
  "project \<Rightarrow> int \<Rightarrow> nat \<Rightarrow> detail_task \<Rightarrow> scan_exc \<Rightarrow> (worker, unit) proc" where
  "detail_error p workers n task e = asks (\<lambda>w.
     let known = known_of (wk_db w) task; searched = dc_mark_search_found (dt_context task)
     in if searched \<and> \<not> is_scan_error e then throw e
        else block [
          (case known of
             Some c \<Rightarrow> only_if (searched \<and> get_project_car (wk_db w) (p_id p) (c_id c) \<noteq> None)
               (block [mark_found p c, add_found (c_id c)])
           | None \<Rightarrow> ret ()),
          update (add_failure (detail_failure_text p task e) (detail_failure p task known e)),
          count_row,
          publish_detail_progress p workers n,
          only_if (is_captcha e) (throw e)])"

definition upsert_reading :: "site \<Rightarrow> project \<Rightarrow> detail_task \<Rightarrow> dict \<Rightarrow> worker \<Rightarrow> (track_error + int) \<times> db" where
  "upsert_reading si p task detail w =
     (if dt_read_kind task = PRICE_STATUS
      then upsert_price_status (site_below si) (wk_clock w) (dc_mark_search_found (dt_context task))
             (p_id p) detail (wk_db w)
      else upsert_detail (site_below si) (wk_clock w) (dc_mark_search_found (dt_context task))
             (p_id p) detail (wk_db w))"

definition cross_listing_error :: "dict \<Rightarrow> scan_exc" where
  "cross_listing_error detail = OtherError ''ValueError'' None
     (''Refusing cross-listing update: requested '' @ source_id_of detail @ '', displayed '' @
      py_str (dget detail ''canonical_car_id''))"

definition key_error :: scan_exc where
  "key_error = OtherError ''KeyError'' None (CHR 0x27 # ''canonical_car_id'' @ [CHR 0x27])"

definition accept_detail ::
  "project \<Rightarrow> int \<Rightarrow> nat \<Rightarrow> detail_task \<Rightarrow> bool \<Rightarrow> int \<Rightarrow> (worker, unit) proc" where
  "accept_detail p workers n task sold cid = block [
     only_if sold (update (\<lambda>w. w\<lparr>wk_confirmed_sold := wk_confirmed_sold w \<union>
       {dc_source_id (dt_context task)} \<union> encar_of (wk_db w) cid\<rparr>)),
     observe_in_search p (dc_previous (dt_context task)) cid,
     only_if (dc_mark_search_found (dt_context task)) (add_found cid),
     count_row,
     publish_detail_progress p workers n,
     raise_if_cancelled]"

definition store_detail ::
  "site \<Rightarrow> project \<Rightarrow> int \<Rightarrow> nat \<Rightarrow> detail_task \<Rightarrow> dict \<Rightarrow> (worker, unit) proc" where
  "store_detail si p workers n task raw = asks (\<lambda>w.
     let detail = dset raw ''scan_run_id'' (JInt (job_id w)); res = upsert_reading si p task detail w
     in case fst res of
          Inl TrackingDisabledError \<Rightarrow> block [rollback, count_row, publish_detail_progress p workers n]
        | Inl ValueError \<Rightarrow> throw (cross_listing_error detail)
        | Inl KeyError \<Rightarrow> throw key_error
        | Inr cid \<Rightarrow> block [on_db (\<lambda>_ _. snd res),
            accept_detail p workers n task (sold_detail detail) cid])"

definition detail_result ::
  "site \<Rightarrow> project \<Rightarrow> int \<Rightarrow> nat \<Rightarrow> detail_task \<Rightarrow> (worker, unit) proc" where
  "detail_result si p workers n task = seq raise_if_cancelled (asks (\<lambda>w.
     case read_verified_detail (site_read si (wk_clock w) (dt_read_kind task) (dt_row task))
            (dt_known_price task) of
       Inl e \<Rightarrow> detail_error p workers n task e
     | Inr detail \<Rightarrow> store_detail si p workers n task detail))"

text \<open>The order in which the workers deliver: the next index is taken modulo the number of results that
  are still to come, so every order of the tasks arises and each task is delivered once.\<close>

fun deliver :: "nat list \<Rightarrow> 'a list \<Rightarrow> 'a list" where
  "deliver [] xs = xs"
| "deliver (i # is) xs =
     (if xs = [] then []
      else let k = i mod length xs in xs ! k # deliver is (take k xs @ drop (Suc k) xs))"

definition and_finally :: "('s, unit) proc \<Rightarrow> ('s, unit) proc \<Rightarrow> ('s, unit) proc" where
  "and_finally m cleanup = seq (handle m (\<lambda>e. seq cleanup (throw e))) cleanup"

definition read_details :: "site \<Rightarrow> project_scan \<Rightarrow> (worker, unit) proc" where
  "read_details si j = seq commit (and_finally (asks (\<lambda>w.
       let p = pj_project j;
           workers = detail_worker_count (wk_db w) (r_owner_id (wk_job w));
           n = wk_rows_done w + length (wk_tasks w)
       in block [
            publish_detail_progress p workers n,
            asks (\<lambda>w. lift (site_pool si (wk_clock w))),
            for_each (detail_result si p workers n) (deliver (site_order si (wk_clock w)) (wk_tasks w))]))
     (asks (\<lambda>w. lift (site_relaunch si (wk_clock w)))))"


section \<open>The end of a project\<close>

definition absence_item :: "time \<Rightarrow> project \<Rightarrow> db \<Rightarrow> int \<times> string \<Rightarrow> dict list" where
  "absence_item t p d change =
     (case get_car d (fst change) of
        None \<Rightarrow> []
      | Some c \<Rightarrow> [[(''car_id'', JInt (c_id c)), (''project_id'', JInt (p_id p)),
          (''project_name'', JStr (p_name p)), (''encar_id'', JStr (c_canonical_encar_id c)),
          (''title'', jstr (c_title c)), (''change'', JStr (snd change)),
          (''changes'', JList (if snd change = ''RELISTED''
             then [field_change ''search_status'' (JStr ''NOT_FOUND_IN_SEARCH'') (JStr ''FOUND'')] else [])),
          (''price'', jint (c_current_price c)), (''updated_at'', JTime t)]])"

definition apply_absence :: "project_scan \<Rightarrow> (worker, unit) proc" where
  "apply_absence j = asks (\<lambda>w.
     let p = pj_project j;
         res = mark_absent (wk_clock w) (p_id p) (wk_found w) True (wk_confirmed_sold w) (wk_db w)
     in block [
          update (\<lambda>w. w\<lparr>wk_db := snd res,
            wk_report := wk_report w @ concat (map (absence_item (wk_clock w) p (snd res)) (fst res))\<rparr>),
          only_if (fst res \<noteq> []) (block [
            publish_live_results (wk_statuses w) (JInt (p_id p)), commit, publish_scan_update])])"

definition stored_revision :: "db \<Rightarrow> int \<Rightarrow> int option" where
  "stored_revision d p = map_option p_price_filter_revision (first_row (\<lambda>x. p_id x = p) (projects d))"

definition update_project :: "int \<Rightarrow> (project \<Rightarrow> project) \<Rightarrow> db \<Rightarrow> db" where
  "update_project i f d = d\<lparr>projects := update_where (\<lambda>x. p_id x = i) f (projects d)\<rparr>"

definition scanned_project :: "project_scan \<Rightarrow> time \<Rightarrow> db \<Rightarrow> db" where
  "scanned_project j t d =
     update_project (p_id (pj_project j)) (\<lambda>x. x\<lparr>p_updated_at := t,
       p_price_filter_baseline_revision :=
         (if pj_page_mode j = ''ALL_PAGES'' \<and> stored_revision d (p_id (pj_project j)) = Some (pj_revision j)
          then pj_revision j else p_price_filter_baseline_revision x)\<rparr>) d"

definition succeed_project :: "project_scan \<Rightarrow> (worker, unit) proc" where
  "succeed_project j = block [
     on_db (scanned_project j),
     on_db (\<lambda>_. expire_previous_new_relations (p_id (pj_project j)) (pj_previous_new j)),
     update (\<lambda>w. w\<lparr>wk_db := set_project_run (job_id w) (p_id (pj_project j))
         (\<lambda>x. x\<lparr>psr_status := SUCCEEDED\<rparr>) (wk_db w),
       wk_successes := Suc (wk_successes w)\<rparr>),
     commit]"

definition failed_project_run :: "string \<Rightarrow> project_scan_run \<Rightarrow> project_scan_run" where
  "failed_project_run code x = x\<lparr>psr_status := FAILED, psr_error_code := Some code\<rparr>"

definition project_failure_text :: "project \<Rightarrow> scan_exc \<Rightarrow> string" where
  "project_failure_text p e =
     p_name p @ '':'' @ (if is_scan_error e then failure_code e else exc_class e) @ '': '' @ exc_text e"

text \<open>The \<^verbatim>\<open>except\<close> clauses of a project: whether the run stops for a captcha.\<close>

definition project_exception :: "project \<Rightarrow> scan_exc \<Rightarrow> (worker, bool) proc" where
  "project_exception p e =
     (if e = ScanCancelled then throw e
      else seq (update (\<lambda>w. add_failure (project_failure_text p e)
                  (failure_detail e ''PROJECT'' (Some p) None None)
                  (w\<lparr>wk_db := set_project_run (job_id w) (p_id p)
                       (failed_project_run (failure_code e)) (wk_db w)\<rparr>)))
           (seq commit (ret (is_captcha e))))"

section \<open>One project\<close>

definition collect_project :: "site \<Rightarrow> project_scan \<Rightarrow> string \<Rightarrow> (worker, search_collection) proc" where
  "collect_project si j url =
     collect_search_pages (pj_page_mode j = ''ALL_PAGES'') raise_if_cancelled (update_page_progress j)
       (\<lambda>i. asks (\<lambda>w. lift (site_page si (wk_clock w) url (p_name (pj_project j)) i))) 50"

definition reset_project :: "(worker, unit) proc" where
  "reset_project = update (\<lambda>w. w\<lparr>wk_found := {}, wk_seen := {}, wk_confirmed_sold := {},
     wk_tasks := [], wk_rows_done := 0\<rparr>)"

definition scan_rows :: "site \<Rightarrow> project_scan \<Rightarrow> dict list \<Rightarrow> (worker, unit) proc" where
  "scan_rows si j rows = block [
     raise_if_cancelled,
     reset_project,
     for_each (process_row si j (length rows)) (enumerate 0 rows),
     add_missing_tasks j,
     asks (\<lambda>w. only_if (wk_tasks w \<noteq> []) (read_details si j)),
     raise_if_cancelled,
     only_if (\<not> pj_needs_baseline j \<and> should_apply_search_absence (pj_page_mode j)) (apply_absence j),
     succeed_project j]"

definition scan_project :: "site \<Rightarrow> project_scan \<Rightarrow> (worker, bool) proc" where
  "scan_project si j = handle
     (bind (lift (effective_search_url (site_price_filter si) (pj_project j))) (\<lambda>url.
        bind (collect_project si j url) (\<lambda>collection.
          seq (scan_rows si j (map snd (sc_rows collection))) (ret False))))
     (project_exception (pj_project j))"

definition job_statuses :: "worker \<Rightarrow> dict" where
  "job_statuses w = get_obj (payload_of (wk_job w)) ''project_statuses''"

definition project_run_of :: "worker \<Rightarrow> int \<Rightarrow> project_scan_run option" where
  "project_run_of w p =
     first_row (\<lambda>x. psr_scan_run_id x = job_id w \<and> psr_project_id x = p) (project_scan_runs (wk_db w))"

definition start_project :: "int \<Rightarrow> (worker, unit) proc" where
  "start_project p = block [
     update (\<lambda>w. w\<lparr>wk_db := set_project_run (job_id w) p (\<lambda>x. x\<lparr>psr_status := RUNNING\<rparr>) (wk_db w)\<rparr>),
     update (\<lambda>w. w\<lparr>wk_statuses := job_statuses w\<rparr>),
     asks (\<lambda>w. merge_payload (\<lambda>_. [(''current_project_id'', JInt p),
       (''project_statuses'', JObj (wk_statuses w))]) (wk_payload w)),
     commit,
     publish_scan_update]"

definition fail_pending_projects :: "(worker, unit) proc" where
  "fail_pending_projects = seq
     (update (\<lambda>w. w\<lparr>wk_db := (wk_db w)\<lparr>project_scan_runs :=
        update_where (\<lambda>x. psr_scan_run_id x = job_id w \<and> psr_status x = QUEUED)
          (failed_project_run ''CAPTCHA'') (project_scan_runs (wk_db w))\<rparr>\<rparr>))
     commit"

definition count_unit :: "(worker, unit) proc" where
  "count_unit = seq (update (\<lambda>w. w\<lparr>wk_completed := Suc (wk_completed w)\<rparr>))
     (asks (\<lambda>w. set_progress (unit_progress (wk_completed w) (wk_total w))))"

definition finish_project :: "int \<Rightarrow> bool \<Rightarrow> (worker, unit) proc" where
  "finish_project p stop = block [
     asks (\<lambda>w. publish_project_results (case project_run_of w p of
         None \<Rightarrow> job_statuses w
       | Some x \<Rightarrow> dset (job_statuses w) (show_int p) (JStr (status_name (psr_status x))))),
     count_unit,
     commit,
     publish_scan_update,
     raise_if_cancelled,
     only_if stop fail_pending_projects]"

definition project_scan_of :: "db \<Rightarrow> project \<Rightarrow> project_scan" where
  "project_scan_of d p =
     (let initial = requires_initial_full_scan d (p_id p);
          baseline = price_filter_needs_baseline p;
          modes = project_scan_modes p initial baseline
      in \<lparr>pj_project = p, pj_scan_mode = fst modes, pj_page_mode = snd modes,
          pj_initial_full_scan = initial, pj_needs_baseline = baseline,
          pj_revision = (if p_price_filter_revision p = 0 then 1 else p_price_filter_revision p),
          pj_previous_new = previous_new_car_ids d (p_id p)\<rparr>)"

definition missing_unit :: "string \<Rightarrow> json \<Rightarrow> json \<Rightarrow> string \<Rightarrow> int \<Rightarrow> worker \<Rightarrow> worker" where
  "missing_unit scope project_id car_id technical i = add_failure
     ((if scope = ''PROJECT'' then ''project:'' else ''car:'') @ show_int i @ '':NOT_FOUND'')
     [(''scope'', JStr scope), (''project_id'', project_id), (''project_name'', JNull),
      (''car_id'', car_id), (''encar_id'', JNull), (''code'', JStr ''NOT_FOUND''),
      (''technical'', JStr technical)]"

definition lost_project :: "int \<Rightarrow> (worker, bool) proc" where
  "lost_project i = seq (update (\<lambda>w. (missing_unit ''PROJECT'' (JInt i) JNull ''Project no longer exists'' i w)
     \<lparr>wk_completed := Suc (wk_completed w)\<rparr>)) (ret False)"

definition run_project :: "site \<Rightarrow> int \<Rightarrow> (worker, bool) proc" where
  "run_project si i = seq raise_if_cancelled (asks (\<lambda>w.
     case owned_project (wk_db w) i (r_owner_id (wk_job w)) of
       None \<Rightarrow> lost_project i
     | Some p \<Rightarrow>
         if project_run_of w (p_id p) = None then throw (attribute_error ''status'')
         else seq (start_project (p_id p))
           (bind (scan_project si (project_scan_of (wk_db w) p)) (\<lambda>stop.
              seq (finish_project (p_id p) stop) (ret stop)))))"

fun run_projects :: "site \<Rightarrow> int list \<Rightarrow> (worker, unit) proc" where
  "run_projects si [] = ret ()"
| "run_projects si (i # is) =
     bind (run_project si i) (\<lambda>stop. if stop then ret () else run_projects si is)"

section \<open>Manual refresh of cars\<close>

definition manual_item :: "project \<Rightarrow> observation option \<Rightarrow> worker \<Rightarrow> car \<Rightarrow> int option \<Rightarrow> dict list" where
  "manual_item p previous w c snapshot =
     [[(''car_id'', JInt (c_id c)), (''project_id'', JInt (p_id p)), (''project_name'', JStr (p_name p)),
       (''encar_id'', JStr (c_canonical_encar_id c)), (''title'', jstr (c_title c)),
       (''change'', JStr ''MANUAL_REFRESH''), (''changes'', JList []),
       (''before_snapshot_id'', jint (Option.bind previous ps_snapshot_id)),
       (''after_snapshot_id'', jint snapshot), (''price'', jint (c_current_price c)),
       (''updated_at'', JTime (wk_clock w))]]"

definition manual_row :: "project \<Rightarrow> car \<Rightarrow> dict" where
  "manual_row p c = [(''url'', JStr (c_url c)), (''source_car_id'', JStr (c_canonical_encar_id c)),
     (''source'', JStr (p_name p)), (''list_text'', JStr [])]"

definition tracking_error :: "dict \<Rightarrow> project \<Rightarrow> car \<Rightarrow> track_error \<Rightarrow> scan_exc" where
  "tracking_error detail p c e = (case e of
     ValueError \<Rightarrow> cross_listing_error detail
   | KeyError \<Rightarrow> key_error
   | TrackingDisabledError \<Rightarrow> OtherError ''TrackingDisabledError'' None
       (''Tracking disabled for project='' @ show_int (p_id p) @ '', car='' @ show_int (c_id c)))"

definition refreshed_car :: "project \<Rightarrow> observation option \<Rightarrow> int \<Rightarrow> (worker, unit) proc" where
  "refreshed_car p previous cid = block [
     asks (\<lambda>w. on_db (\<lambda>t. add_event t cid ''MANUAL_REFRESH'' (Some (r_owner_id (wk_job w))) (Some (p_id p))
       [(''scan_run_id'', JInt (job_id w))])),
     report_observation p previous (manual_item p previous) cid,
     update (\<lambda>w. w\<lparr>wk_successes := Suc (wk_successes w)\<rparr>),
     commit]"

definition refresh_car :: "site \<Rightarrow> project \<Rightarrow> car \<Rightarrow> (worker, unit) proc" where
  "refresh_car si p c = asks (\<lambda>w0.
     let previous = previous_state (wk_db w0) (Some c) (get_project_car (wk_db w0) (p_id p) (c_id c))
     in seq commit (asks (\<lambda>w.
       case read_verified_detail (site_read si (wk_clock w) FULL (manual_row p c)) (c_current_price c) of
         Inl e \<Rightarrow> throw e
       | Inr raw \<Rightarrow>
           let detail = dset raw ''scan_run_id'' (JInt (job_id w));
               res = upsert_detail (site_below si) (wk_clock w) False (p_id p) detail (wk_db w)
           in case fst res of
                Inl e \<Rightarrow> throw (tracking_error detail p c e)
              | Inr cid \<Rightarrow> seq (on_db (\<lambda>_ _. snd res)) (refreshed_car p previous cid))))"

definition refresh_exception :: "project \<Rightarrow> car \<Rightarrow> scan_exc \<Rightarrow> (worker, unit) proc" where
  "refresh_exception p c e =
     (if e = ScanCancelled then throw e
      else seq (update (add_failure (c_canonical_encar_id c @ '':'' @ exc_class e @ '': '' @ exc_text e)
                  (failure_detail e ''CAR'' (Some p) (Some c) None)))
             rollback)"

definition refresh_project :: "worker \<Rightarrow> int \<Rightarrow> project option" where
  "refresh_project w cid =
     (case dget (wk_payload w) ''project_id'' of
        JInt i \<Rightarrow> if i = 0 then first_row (\<lambda>p. p_owner_id p = r_owner_id (wk_job w) \<and>
            (\<exists>l \<in> set (project_cars (wk_db w)). pc_project_id l = p_id p \<and> pc_car_id l = cid \<and>
               pc_tracking_enabled l)) (projects (wk_db w))
          else owned_project (wk_db w) i (r_owner_id (wk_job w))
      | _ \<Rightarrow> first_row (\<lambda>p. p_owner_id p = r_owner_id (wk_job w) \<and>
            (\<exists>l \<in> set (project_cars (wk_db w)). pc_project_id l = p_id p \<and> pc_car_id l = cid \<and>
               pc_tracking_enabled l)) (projects (wk_db w)))"

definition refresh_unit :: "site \<Rightarrow> int \<Rightarrow> (worker, unit) proc" where
  "refresh_unit si i = asks (\<lambda>w.
     case get_car (wk_db w) i of
       None \<Rightarrow> update (missing_unit ''CAR'' (dget (wk_payload w) ''project_id'') (JInt i)
                 ''Car no longer exists'' i)
     | Some c \<Rightarrow>
         (case refresh_project w (c_id c) of
            None \<Rightarrow> ret ()
          | Some p \<Rightarrow> handle (refresh_car si p c) (refresh_exception p c)))"

definition run_car :: "site \<Rightarrow> int \<Rightarrow> (worker, unit) proc" where
  "run_car si i = block [
     raise_if_cancelled,
     refresh_unit si i,
     count_unit,
     asks (\<lambda>w. publish_live_results (job_statuses w) JNull),
     commit,
     publish_scan_update,
     raise_if_cancelled]"

section \<open>The whole run\<close>

definition id_list :: "dict \<Rightarrow> string \<Rightarrow> int list" where
  "id_list payload k = fromkeys (List.map_filter int_opt (jlist (dget payload k)))"

definition run_car_ids :: "dict \<Rightarrow> int list" where
  "run_car_ids payload = id_list payload ''car_ids''"

definition run_project_ids :: "dict \<Rightarrow> int list" where
  "run_project_ids payload =
     (if truthy (dget payload ''project_id'') \<and> run_car_ids payload = []
      then List.map_filter int_opt [dget payload ''project_id'']
      else id_list payload ''project_ids'')"

definition add_project_runs :: "int list \<Rightarrow> worker \<Rightarrow> worker" where
  "add_project_runs is w = w\<lparr>wk_db := (wk_db w)\<lparr>project_scan_runs := project_scan_runs (wk_db w) @
     map (\<lambda>p. \<lparr>psr_scan_run_id = job_id w, psr_project_id = p, psr_status = QUEUED, psr_error_code = None\<rparr>)
       (filter (\<lambda>p. owned_project (wk_db w) p (r_owner_id (wk_job w)) \<noteq> None) is)\<rparr>\<rparr>"

definition begin_run :: "time \<Rightarrow> scan_run \<Rightarrow> scan_run \<Rightarrow> scan_run" where
  "begin_run t job j = j\<lparr>
     r_status := (if r_status job = QUEUED then RUNNING else r_status j),
     r_attempt_count := (if r_status job = QUEUED
        then Some ((case r_attempt_count job of Some n \<Rightarrow> n | None \<Rightarrow> 0) + 1) else r_attempt_count j),
     r_started_at := Some (case r_started_at job of Some t' \<Rightarrow> t' | None \<Rightarrow> t),
     r_heartbeat_at := Some t\<rparr>"

definition start_run :: "(worker, unit) proc" where
  "start_run = block [
     asks (\<lambda>w. assign (begin_run (wk_clock w))),
     commit,
     publish_scan_update,
     update (\<lambda>w. w\<lparr>wk_payload := payload_of (wk_job w)\<rparr>),
     asks (\<lambda>w. update (add_project_runs (run_project_ids (wk_payload w)))),
     commit,
     update (\<lambda>w. w\<lparr>wk_total := max 1 (length (run_project_ids (wk_payload w)) +
       length (run_car_ids (wk_payload w)))\<rparr>)]"

definition run_units :: "site \<Rightarrow> (worker, unit) proc" where
  "run_units si = block [
     lift (site_entitlement si),
     lift (site_browser si),
     raise_if_cancelled,
     asks (\<lambda>w. run_projects si (run_project_ids (wk_payload w))),
     asks (\<lambda>w. for_each (run_car si) (run_car_ids (wk_payload w))),
     complete_job]"

definition run_exception :: "scan_exc \<Rightarrow> (worker, unit) proc" where
  "run_exception e =
     (if e = ScanCancelled then seq finish_cancelled_job publish_scan_update else fail_job e)"

definition run_job :: "site \<Rightarrow> (worker, unit) proc" where
  "run_job si = seq start_run (handle (run_units si) run_exception)"

definition open_session :: "(time \<times> (db \<Rightarrow> db)) list \<Rightarrow> time \<Rightarrow> scan_run \<Rightarrow> db \<Rightarrow> worker" where
  "open_session others t job d = \<lparr>wk_db = d, wk_saved = d, wk_job = job, wk_owner_active = True,
     wk_others = others, wk_clock = t, wk_published = [], wk_payload = [], wk_total = 1,
     wk_completed = 0, wk_failures = [], wk_failure_details = [], wk_successes = 0, wk_report = [],
     wk_statuses = [], wk_found = {}, wk_seen = {}, wk_confirmed_sold = {}, wk_tasks = [], wk_rows_done = 0\<rparr>"

definition cancel_inactive :: "time \<Rightarrow> scan_run \<Rightarrow> scan_run" where
  "cancel_inactive t j = j\<lparr>r_status := CANCELLED, r_finished_at := Some t, r_heartbeat_at := Some t,
     r_payload := Some (dmerge (payload_of j)
       [(''cancelled_at'', JTime t), (''cancellation_reason'', JStr ''ACCOUNT_INACTIVE'')])\<rparr>"

definition process_job ::
  "site \<Rightarrow> (time \<times> (db \<Rightarrow> db)) list \<Rightarrow> time \<Rightarrow> int \<Rightarrow> db \<Rightarrow> db \<times> (int \<times> int) list" where
  "process_job si others t i d =
     (case get_run d i of
        None \<Rightarrow> (d, [])
      | Some job \<Rightarrow>
          if r_status job \<notin> {QUEUED, RUNNING} then (d, [])
          else if \<not> owner_is_active d (r_owner_id job)
          then (set_run i (cancel_inactive t) d, [(r_owner_id job, i)])
          else let w = snd (run_job si (open_session others t job d)) in (wk_db w, wk_published w))"

end
