(* ===== verification/WorkerFacts.thy ===== *)
theory WorkerFacts
  imports Worker
begin

text \<open>
  What \<^verbatim>\<open>process_job\<close> guarantees. An invariant of the worker's state (\<open>worker_ok\<close>) is kept by every procedure
  of a run, whatever it raises; with it a run ends as long as the database accepts the worker's writes,
  and a run that succeeded has no failed project. The transactions of other sessions are arbitrary as long as they are fair: they move runs
  along their life cycle (which the operations of the job queue do) and leave the marking of failed
  project runs to the worker.
\<close>

section \<open>What a scan keeps\<close>

text \<open>What the other sessions may do to the runs: move them along their life cycle; only the worker
  marks project runs as failed.\<close>

definition failed_units :: "int \<Rightarrow> db \<Rightarrow> project_scan_run set" where
  "failed_units i d = {x \<in> set (project_scan_runs d). psr_scan_run_id x = i \<and> psr_status x = FAILED}"

definition fair_session :: "(db \<Rightarrow> db) \<Rightarrow> bool" where
  "fair_session f \<longleftrightarrow> (\<forall>d. runs_follow d (f d) \<and> (\<forall>i. failed_units i (f d) \<subseteq> failed_units i d))"

text \<open>The run's row is there, and a project run that failed (other than those in \<open>U\<close>) has left a failure; with \<open>nz\<close> there is a failure.\<close>

definition db_ok :: "int \<Rightarrow> project_scan_run set \<Rightarrow> string list \<Rightarrow> db \<Rightarrow> bool" where
  "db_ok i U failures d \<longleftrightarrow> get_run d i \<noteq> None \<and> (failures = [] \<longrightarrow> failed_units i d \<subseteq> U)"

definition worker_ok :: "int \<Rightarrow> project_scan_run set \<Rightarrow> bool \<Rightarrow> worker \<Rightarrow> bool" where
  "worker_ok i U nz w \<longleftrightarrow> job_id w = i \<and> (nz \<longrightarrow> wk_failures w \<noteq> []) \<and> db_ok i U (wk_failures w) (wk_db w) \<and> db_ok i U (wk_failures w) (wk_saved w) \<and>
     list_all (\<lambda>(t, f). fair_session f) (wk_others w)"

lemma runs_follow_get:
  assumes "runs_follow d d'" and "get_run d i = Some r"
  shows "\<exists>r'. get_run d' i = Some r' \<and> row_follows r r'"
proof -
  let ?n = "length (scan_runs d)"
  have all2: "list_all2 row_follows (scan_runs d) (take ?n (scan_runs d'))"
    using assms(1) by (simp add: runs_follow_def Let_def)
  have "list_all2 row_follows xs ys \<Longrightarrow> first_row (\<lambda>r. r_id r = i) xs = Some r \<Longrightarrow>
      \<exists>r'. first_row (\<lambda>r. r_id r = i) ys = Some r' \<and> row_follows r r'" for xs ys
    by (induction xs ys rule: list_all2_induct)
      (auto simp: first_row_def row_follows_def same_identity_def split: if_splits)
  then obtain r' where "first_row (\<lambda>r. r_id r = i) (take ?n (scan_runs d')) = Some r'" "row_follows r r'"
    using all2 assms(2) by (auto simp: get_run_def)
  then have "first_row (\<lambda>r. r_id r = i) (take ?n (scan_runs d') @ drop ?n (scan_runs d')) = Some r'"
    by (simp only: first_row_append) simp
  with \<open>row_follows r r'\<close> show ?thesis by (simp add: get_run_def)
qed

lemma fair_session_ok: "fair_session f \<Longrightarrow> db_ok i U fs d \<Longrightarrow> db_ok i U fs (f d)"
  using runs_follow_get [of d "f d" i] by (fastforce simp: fair_session_def db_ok_def)

lemma get_run_set_run:
  "(\<And>r. r_id (f r) = r_id r) \<Longrightarrow> get_run (set_run j f d) i = map_option (\<lambda>r. if r_id r = j then f r else r) (get_run d i)"
  by (simp add: get_run_def set_run_def first_row_update)

lemma failed_units_same: "project_scan_runs d' = project_scan_runs d \<Longrightarrow> failed_units i d' = failed_units i d"
  by (simp add: failed_units_def)

lemma db_ok_same:
  "scan_runs d' = scan_runs d \<Longrightarrow> project_scan_runs d' = project_scan_runs d \<Longrightarrow> db_ok i U fs d' = db_ok i U fs d"
  by (simp add: db_ok_def get_run_def failed_units_def)

lemma db_ok_set_run [simp]:
  "(\<And>r. r_id (f r) = r_id r) \<Longrightarrow> db_ok i U fs (set_run j f d) = db_ok i U fs d"
  by (simp add: db_ok_def get_run_set_run) (simp add: failed_units_def set_run_def)

lemma db_ok_more: "db_ok i U fs d \<Longrightarrow> db_ok i U (fs @ [x]) d"
  by (simp add: db_ok_def)

lemma keeps_assign [keeps_intros]:
  assumes "\<And>c r. r_id (g c r) = r_id r"
  shows "keeps (worker_ok i U nz) (assign g)"
  by (auto simp: assign_def worker_ok_def job_id_def assms intro!: keeps_update)

lemma keeps_commit [keeps_intros]: "keeps (worker_ok i U nz) commit"
  unfolding commit_def
  by (rule keeps_update) (auto simp: worker_ok_def job_id_def fair_session_ok split: list.split)

lemma keeps_rollback [keeps_intros]: "keeps (worker_ok i U nz) rollback"
  unfolding rollback_def
  by (rule keeps_update) (auto simp: worker_ok_def job_id_def db_ok_def dest: get_run_id split: option.split)

text \<open>Any other update of local variables, or of tables other than the runs.\<close>

lemma worker_ok_local:
  assumes "job_id (f w) = job_id w" and "wk_saved (f w) = wk_saved w" and "wk_others (f w) = wk_others w"
    and "wk_failures (f w) = wk_failures w" and "scan_runs (wk_db (f w)) = scan_runs (wk_db w)"
    and "project_scan_runs (wk_db (f w)) = project_scan_runs (wk_db w)" and "worker_ok i U nz w"
  shows "worker_ok i U nz (f w)"
  using assms db_ok_same [OF assms(5,6)] by (simp add: worker_ok_def)

lemma keeps_on_db [keeps_intros]:
  assumes "\<And>t d. scan_runs (f t d) = scan_runs d" and "\<And>t d. project_scan_runs (f t d) = project_scan_runs d"
  shows "keeps (worker_ok i U nz) (on_db f)"
  unfolding on_db_def by (rule keeps_update, rule worker_ok_local) (simp_all add: assms job_id_def)

lemma keeps_publish [keeps_intros]: "keeps (worker_ok i U nz) publish_scan_update"
  unfolding publish_scan_update_def by (rule keeps_update, rule worker_ok_local) (simp_all add: job_id_def)

lemma keeps_merge_payload [keeps_intros]: "keeps (worker_ok i U nz) (merge_payload new fallback)"
  unfolding merge_payload_def by (rule keeps_assign) (simp add: Let_def)

lemma keeps_set_progress [keeps_intros]: "keeps (worker_ok i U nz) (set_progress n)"
  unfolding set_progress_def by (rule keeps_assign) simp

lemma keeps_raise_if_cancelled [keeps_intros]: "keeps (worker_ok i U nz) raise_if_cancelled"
  unfolding raise_if_cancelled_def
proof (rule keeps_asks)
  fix w assume ok: "worker_ok i U nz w"
  have refresh: "worker_ok i U nz (refresh_job r w)" for r
    by (rule worker_ok_local [OF _ _ _ _ _ _ ok]) (simp_all add: refresh_job_def job_id_def)
  show "keeps_from (worker_ok i U nz) w (case get_run (wk_db w) (job_id w) of
       None \<Rightarrow> throw invalid_request_error
     | Some r \<Rightarrow> seq (update (refresh_job r))
           (if r_status r \<in> {CANCEL_REQUESTED, CANCELLED} then throw ScanCancelled
            else seq (assign (\<lambda>_ j. j\<lparr>r_heartbeat_at := Some (wk_clock w)\<rparr>))
              (if wk_owner_active w then ret ()
               else block [assign (\<lambda>_ j. j\<lparr>r_status := CANCEL_REQUESTED\<rparr>), commit, throw ScanCancelled])))"
    using ok by (auto intro!: from_keeps keeps_intros refresh split: option.split)
qed


named_theorems ok_simps \<open>the tables of runs are not touched\<close>

lemma runs_upsert [ok_simps]:
  "scan_runs (snd (upsert_detail below t m p raw d)) = scan_runs d"
  "project_scan_runs (snd (upsert_detail below t m p raw d)) = project_scan_runs d"
  by (rule rest_eqD [OF upsert.rest_kept])+

lemma runs_reading [ok_simps]:
  "scan_runs (snd (upsert_reading si p task det w)) = scan_runs (wk_db w)"
  "project_scan_runs (snd (upsert_reading si p task det w)) = project_scan_runs (wk_db w)"
  by (simp_all add: upsert_reading_def upsert_price_status_def ok_simps)

lemma runs_absent [ok_simps]:
  "scan_runs (snd (mark_absent t p f su conf d)) = scan_runs d"
  "project_scan_runs (snd (mark_absent t p f su conf d)) = project_scan_runs d"
  by (rule rest_eqD [OF absent.rest_kept])+

lemma runs_found [ok_simps]:
  "scan_runs (snd (mark_found_without_detail t p c d)) = scan_runs d"
  "project_scan_runs (snd (mark_found_without_detail t p c d)) = project_scan_runs d"
  by (rule rest_eqD [OF found.rest_kept])+

lemma runs_other_tables [ok_simps]:
  "scan_runs (remember_observation t p c s d) = scan_runs d"
  "project_scan_runs (remember_observation t p c s d) = project_scan_runs d"
  "scan_runs (add_event t cid k u pr pl d) = scan_runs d"
  "project_scan_runs (add_event t cid k u pr pl d) = project_scan_runs d"
  "scan_runs (expire_previous_new_relations p cs d) = scan_runs d"
  "project_scan_runs (expire_previous_new_relations p cs d) = project_scan_runs d"
  "scan_runs (scanned_project j t d) = scan_runs d"
  "project_scan_runs (scanned_project j t d) = project_scan_runs d"
  by (simp_all add: remember_observation_def update_link_def add_event_def
      expire_previous_new_relations_def scanned_project_def update_project_def)

lemma ok_locals [simp]:
  "worker_ok i U nz (w\<lparr>wk_report := a1\<rparr>) = worker_ok i U nz w" "worker_ok i U nz (w\<lparr>wk_statuses := a2\<rparr>) = worker_ok i U nz w"
  "worker_ok i U nz (w\<lparr>wk_found := a3\<rparr>) = worker_ok i U nz w" "worker_ok i U nz (w\<lparr>wk_seen := a4\<rparr>) = worker_ok i U nz w"
  "worker_ok i U nz (w\<lparr>wk_confirmed_sold := a5\<rparr>) = worker_ok i U nz w" "worker_ok i U nz (w\<lparr>wk_tasks := a6\<rparr>) = worker_ok i U nz w"
  "worker_ok i U nz (w\<lparr>wk_rows_done := a7\<rparr>) = worker_ok i U nz w" "worker_ok i U nz (w\<lparr>wk_completed := a8\<rparr>) = worker_ok i U nz w"
  "worker_ok i U nz (w\<lparr>wk_successes := a9\<rparr>) = worker_ok i U nz w" "worker_ok i U nz (w\<lparr>wk_total := b1\<rparr>) = worker_ok i U nz w"
  "worker_ok i U nz (w\<lparr>wk_payload := b2\<rparr>) = worker_ok i U nz w" "worker_ok i U nz (w\<lparr>wk_published := b3\<rparr>) = worker_ok i U nz w"
  by (simp_all add: worker_ok_def job_id_def)

lemma ok_tables [simp]:
  "scan_runs d = scan_runs (wk_db w) \<Longrightarrow> project_scan_runs d = project_scan_runs (wk_db w) \<Longrightarrow>
   worker_ok i U nz (w\<lparr>wk_db := d\<rparr>) = worker_ok i U nz w"
  using db_ok_same [of d "wk_db w" i U "wk_failures w"] by (simp add: worker_ok_def job_id_def)

lemma ok_add_failure [simp]: "worker_ok i U nz w \<Longrightarrow> worker_ok i U nz (add_failure a b w)"
  by (simp add: worker_ok_def job_id_def add_failure_def db_ok_more)

lemma ok_missing_unit [simp]: "worker_ok i U nz w \<Longrightarrow> worker_ok i U nz (missing_unit sc pj c te n w)"
  by (simp add: missing_unit_def)

lemma keeps_publish_live [keeps_intros]: "keeps (worker_ok i U nz) (publish_live_results st cp)"
  unfolding publish_live_results_def by (auto intro!: keeps_intros from_keeps)

lemma keeps_publish_project [keeps_intros]: "keeps (worker_ok i U nz) (publish_project_results st)"
  unfolding publish_project_results_def by (rule keeps_publish_live)

lemma keeps_report_observation [keeps_intros]: "keeps (worker_ok i U nz) (report_observation p prev other cid)"
  unfolding report_observation_def
  by (auto simp: ok_simps Let_def intro!: keeps_asks from_update intro: from_keeps keeps_intros split: option.split)

lemma keeps_count_row [keeps_intros]: "keeps (worker_ok i U nz) count_row"
  unfolding count_row_def by (auto intro!: keeps_update)

lemma keeps_add_found [keeps_intros]: "keeps (worker_ok i U nz) (add_found cid)"
  unfolding add_found_def by (auto intro!: keeps_update)

lemma keeps_mark_found [keeps_intros]: "keeps (worker_ok i U nz) (mark_found p c)"
  unfolding mark_found_def by (auto intro!: keeps_intros simp: ok_simps)

lemma keeps_add_task [keeps_intros]: "keeps (worker_ok i U nz) (add_task task)"
  unfolding add_task_def by (auto intro!: keeps_update)

lemma keeps_row_progress [keeps_intros]: "keeps (worker_ok i U nz) (publish_row_progress p n)"
  unfolding publish_row_progress_def by (auto intro!: keeps_intros intro: from_keeps)

lemma keeps_page_progress [keeps_intros]: "keeps (worker_ok i U nz) (update_page_progress j info)"
  unfolding update_page_progress_def
  by (auto simp: Let_def intro!: keeps_intros intro: from_keeps)

lemma keeps_found_row [keeps_intros]: "keeps (worker_ok i U nz) (found_row si j n k row s known prev)"
  unfolding found_row_def observe_in_search_def
  by (auto intro!: keeps_intros intro: from_keeps split: option.split)

lemma keeps_process_row [keeps_intros]: "keeps (worker_ok i U nz) (process_row si j n irow)"
proof -
  have "keeps (worker_ok i U nz) (new_row si j n k row s)" for k row s
    unfolding new_row_def Let_def by (auto intro!: keeps_intros from_only_if)
  then show ?thesis
    unfolding process_row_def Let_def by (auto intro!: keeps_intros)
qed

lemma keeps_detail_progress [keeps_intros]: "keeps (worker_ok i U nz) (publish_detail_progress p ws n)"
  unfolding publish_detail_progress_def by (auto intro!: keeps_intros intro: from_keeps)

lemma keeps_detail_error [keeps_intros]: "keeps (worker_ok i U nz) (detail_error p ws n task e)"
proof -
  have "keeps (worker_ok i U nz) (case known of
      Some c \<Rightarrow> only_if (b c) (block [mark_found p c, add_found (c_id c)]) | None \<Rightarrow> ret ())" for known b
    by (auto intro!: keeps_intros split: option.split)
  moreover have "keeps (worker_ok i U nz) (update (add_failure a b))" for a b
    by (rule keeps_update) simp
  ultimately show ?thesis
    unfolding detail_error_def Let_def by (auto intro!: keeps_asks from_keeps keeps_intros)
qed

lemma keeps_accept_detail [keeps_intros]: "keeps (worker_ok i U nz) (accept_detail p ws n task sold cid)"
  unfolding accept_detail_def observe_in_search_def by (auto intro!: keeps_intros keeps_update)


lemma keeps_store_detail [keeps_intros]: "keeps (worker_ok i U nz) (store_detail si p ws n task raw)"
  unfolding store_detail_def Let_def
proof (rule keeps_asks)
  fix w assume ok: "worker_ok i U nz w"
  let ?det = "dset raw ''scan_run_id'' (JInt (job_id w))"
  let ?res = "upsert_reading si p task ?det w"
  have store: "keeps_from (worker_ok i U nz) w (block [on_db (\<lambda>_ _. snd ?res),
      accept_detail p ws n task (sold_detail ?det) cid])" for cid
    unfolding on_db_def using ok by (auto intro!: from_block keeps_intros simp: ok_simps)
  show "keeps_from (worker_ok i U nz) w (case fst ?res of
      Inl KeyError \<Rightarrow> throw key_error
    | Inl ValueError \<Rightarrow> throw (cross_listing_error ?det)
    | Inl TrackingDisabledError \<Rightarrow> block [rollback, count_row, publish_detail_progress p ws n]
    | Inr cid \<Rightarrow> block [on_db (\<lambda>_ _. snd ?res), accept_detail p ws n task (sold_detail ?det) cid])"
    using ok by (auto intro!: store from_keeps keeps_intros split: sum.split track_error.split)
qed

lemma keeps_detail_result [keeps_intros]: "keeps (worker_ok i U nz) (detail_result si p ws n task)"
  unfolding detail_result_def by (auto intro!: keeps_intros intro: from_keeps split: sum.split)

lemma keeps_and_finally [keeps_intros]: "keeps P m \<Longrightarrow> keeps P c \<Longrightarrow> keeps P (and_finally m c)"
  unfolding and_finally_def by (auto intro!: keeps_intros)

lemma keeps_read_details [keeps_intros]: "keeps (worker_ok i U nz) (read_details si j)"
  unfolding read_details_def Let_def by (auto intro!: keeps_intros intro: from_keeps)

lemma keeps_apply_absence [keeps_intros]: "keeps (worker_ok i U nz) (apply_absence j)"
  unfolding apply_absence_def Let_def
  by (auto simp: ok_simps intro!: keeps_intros intro: from_keeps)

lemma failed_set_project_run:
  assumes "\<And>x. psr_scan_run_id (f x) = psr_scan_run_id x" and "\<And>x. psr_status (f x) \<noteq> FAILED"
  shows "failed_units i (set_project_run j p f d) \<subseteq> failed_units i d"
  using assms by (auto simp: failed_units_def set_project_run_def set_update_where)

lemma db_ok_fewer:
  "scan_runs d' = scan_runs d \<Longrightarrow> failed_units i d' \<subseteq> failed_units i d \<Longrightarrow> db_ok i U fs d \<Longrightarrow> db_ok i U fs d'"
  by (auto simp: db_ok_def get_run_def)

lemma ok_fewer:
  assumes "worker_ok i U nz w" and "scan_runs d = scan_runs (wk_db w)"
    and "failed_units i d \<subseteq> failed_units i (wk_db w)"
  shows "worker_ok i U nz (w\<lparr>wk_db := d\<rparr>)"
  using assms db_ok_fewer [OF assms(2,3)] by (simp add: worker_ok_def job_id_def)

lemma scan_runs_set_project_run [simp]: "scan_runs (set_project_run j p f d) = scan_runs d"
  by (simp add: set_project_run_def)

lemma ok_set_project_run [intro]:
  assumes "worker_ok i U nz w" and "\<And>x. psr_scan_run_id (f x) = psr_scan_run_id x" and "\<And>x. psr_status (f x) \<noteq> FAILED"
  shows "worker_ok i U nz (w\<lparr>wk_db := set_project_run j p f (wk_db w)\<rparr>)"
  using ok_fewer [OF assms(1), of "set_project_run j p f (wk_db w)"]
    failed_set_project_run [OF assms(2,3)] by simp

lemma keeps_succeed_project [keeps_intros]: "keeps (worker_ok i U nz) (succeed_project j)"
proof -
  have "keeps (worker_ok i U nz) (update (\<lambda>w. w\<lparr>wk_db := set_project_run (job_id w) q
      (\<lambda>x. x\<lparr>psr_status := SUCCEEDED\<rparr>) (wk_db w), wk_successes := Suc (wk_successes w)\<rparr>))" for q
    by (rule keeps_update) auto
  then show ?thesis
    unfolding succeed_project_def by (auto simp: ok_simps intro!: keeps_intros)
qed

lemma ok_with_failure:
  assumes "worker_ok i U nz w" and "scan_runs d = scan_runs (wk_db w)"
  shows "worker_ok i U nz (add_failure a b (w\<lparr>wk_db := d\<rparr>))"
  using assms by (simp add: worker_ok_def job_id_def add_failure_def db_ok_def get_run_def)

lemma keeps_project_exception [keeps_intros]: "keeps (worker_ok i U nz) (project_exception p e)"
proof -
  have "keeps (worker_ok i U nz) (update (\<lambda>w. add_failure a b
      (w\<lparr>wk_db := set_project_run (job_id w) q f (wk_db w)\<rparr>)))" for a b q f
    by (rule keeps_update) (simp add: ok_with_failure)
  then show ?thesis unfolding project_exception_def by (auto intro!: keeps_intros)
qed

lemma keeps_scan_rows [keeps_intros]: "keeps (worker_ok i U nz) (scan_rows si j rows)"
proof -
  have "keeps (worker_ok i U nz) reset_project" "keeps (worker_ok i U nz) (add_missing_tasks j)"
    unfolding reset_project_def add_missing_tasks_def Let_def by (auto intro!: keeps_update)
  then show ?thesis
    unfolding scan_rows_def by (auto intro!: keeps_intros from_only_if intro: from_keeps)
qed

lemma keeps_scan_project [keeps_intros]: "keeps (worker_ok i U nz) (scan_project si j)"
  unfolding scan_project_def collect_project_def by (auto intro!: keeps_intros)

lemma keeps_start_project [keeps_intros]: "keeps (worker_ok i U nz) (start_project p)"
proof -
  have "keeps (worker_ok i U nz) (update (\<lambda>w. w\<lparr>wk_db := set_project_run (job_id w) p
      (\<lambda>x. x\<lparr>psr_status := RUNNING\<rparr>) (wk_db w)\<rparr>))"
    by (rule keeps_update) auto
  moreover have "keeps (worker_ok i U nz) (update (\<lambda>w. w\<lparr>wk_statuses := job_statuses w\<rparr>))"
    by (rule keeps_update) simp
  ultimately show ?thesis
    unfolding start_project_def by (auto intro!: keeps_intros intro: from_keeps)
qed

lemma keeps_count_unit [keeps_intros]: "keeps (worker_ok i U nz) count_unit"
proof -
  have "keeps (worker_ok i U nz) (update (\<lambda>w. w\<lparr>wk_completed := Suc (wk_completed w)\<rparr>))"
    by (rule keeps_update) simp
  then show ?thesis unfolding count_unit_def by (auto intro!: keeps_intros intro: from_keeps)
qed


lemma ok_any_units:
  "worker_ok i U True w \<Longrightarrow> scan_runs d = scan_runs (wk_db w) \<Longrightarrow> worker_ok i U True (w\<lparr>wk_db := d\<rparr>)"
  by (simp add: worker_ok_def job_id_def db_ok_def get_run_def)

lemma keeps_fail_pending: "keeps (worker_ok i U True) fail_pending_projects"
proof -
  have "keeps (worker_ok i U True) (update (\<lambda>w. w\<lparr>wk_db := (wk_db w)\<lparr>project_scan_runs := f w\<rparr>\<rparr>))" for f
    by (rule keeps_update) (rule ok_any_units, simp_all)
  then show ?thesis unfolding fail_pending_projects_def by (auto intro!: keeps_intros)
qed

lemma keeps_finish_project:
  assumes "stop \<Longrightarrow> nz"
  shows "keeps (worker_ok i U nz) (finish_project p stop)"
proof -
  have "keeps (worker_ok i U nz) (only_if stop fail_pending_projects)"
    using assms keeps_fail_pending by (cases stop) (auto simp: only_if_def intro!: keeps_intros)
  then show ?thesis
    unfolding finish_project_def by (auto intro!: keeps_intros intro: from_keeps)
qed

text \<open>A project only stops the run after it recorded a failure.\<close>

lemma worker_ok_weaken: "worker_ok i U True w \<Longrightarrow> worker_ok i U nz w"
  by (simp add: worker_ok_def)

lemma scan_project_stop:
  assumes "worker_ok i U nz s" and "scan_project si j s = (Inr stop, s')"
  shows "worker_ok i U (nz \<or> stop) s'"
proof (cases stop)
  case False
  then show ?thesis
    using keepsD [OF keeps_scan_project assms(1), of si j] assms(2) by simp
next
  case True
  let ?m = "bind (lift (effective_search_url (site_price_filter si) (pj_project j))) (\<lambda>url.
        bind (collect_project si j url) (\<lambda>collection.
          seq (scan_rows si j (map snd (sc_rows collection))) (ret False)))"
  have "keeps (worker_ok i U nz) ?m"
    unfolding collect_project_def by (auto intro!: keeps_intros)
  then have ok: "worker_ok i U nz (snd (?m s))" using assms(1) by (rule keepsD)
  have ret_False: "fst (?m s) = Inr a \<Longrightarrow> a = False" for a
    by (auto simp: bind_def seq_def ret_def split: prod.splits sum.splits)
  then obtain e where e: "fst (?m s) = Inl e"
    using True assms(2) by (cases "?m s"; cases "fst (?m s)") (auto simp: scan_project_def handle_def)
  have run: "project_exception (pj_project j) e (snd (?m s)) = (Inr stop, s')"
    using assms(2) e by (cases "?m s") (auto simp: scan_project_def handle_def)
  let ?f = "\<lambda>w. add_failure (project_failure_text (pj_project j) e)
      (failure_detail e ''PROJECT'' (Some (pj_project j)) None None)
      (w\<lparr>wk_db := set_project_run (job_id w) (p_id (pj_project j)) (failed_project_run (failure_code e)) (wk_db w)\<rparr>)"
  have "e \<noteq> ScanCancelled" using run by (auto simp: project_exception_def throw_def)
  then have "s' = snd (seq (update ?f) commit (snd (?m s)))"
    using run by (auto simp: project_exception_def seq_def bind_def update_def ret_def commit_def
        split: prod.splits sum.splits)
  moreover have "worker_ok i U True (?f (snd (?m s)))"
    using ok_with_failure [OF ok] by (simp add: worker_ok_def add_failure_def)
  then have "worker_ok i U True (snd (seq (update ?f) commit (snd (?m s))))"
    using keepsD [OF keeps_commit, of i U True] by (simp add: seq_def bind_def update_def)
  ultimately show ?thesis by (simp add: True)
qed

lemma keeps_run_project [keeps_intros]: "keeps (worker_ok i U nz) (run_project si k)"
proof -
  have scan: "keeps (worker_ok i U nz) (bind (scan_project si j) (\<lambda>stop. seq (finish_project q stop) (ret stop)))"
    for j q
    unfolding keeps_def
  proof (intro allI impI)
    fix s assume ok: "worker_ok i U nz s"
    show "worker_ok i U nz (snd (bind (scan_project si j) (\<lambda>stop. seq (finish_project q stop) (ret stop)) s))"
    proof (cases "scan_project si j s")
      case (Pair r s')
      show ?thesis
      proof (cases r)
        case (Inl e)
        then show ?thesis
          using Pair keepsD [OF keeps_scan_project ok, of si j] by (simp add: bind_def)
      next
        case (Inr stop)
        have "worker_ok i U (nz \<or> stop) s'" using scan_project_stop [OF ok] Pair Inr by blast
        moreover have "keeps (worker_ok i U (nz \<or> stop)) (seq (finish_project q stop) (ret stop))"
          by (auto intro!: keeps_intros keeps_finish_project)
        ultimately have "worker_ok i U (nz \<or> stop) (snd (seq (finish_project q stop) (ret stop) s'))"
          by (rule keepsD [rotated])
        then show ?thesis using Pair Inr by (cases nz) (auto simp: bind_def intro: worker_ok_weaken, simp add: worker_ok_def)
      qed
    qed
  qed
  have lost: "keeps (worker_ok i U nz) (lost_project k)"
    unfolding lost_project_def by (auto intro!: keeps_intros keeps_update)
  show ?thesis
    unfolding run_project_def
    by (auto intro!: keeps_intros from_keeps lost scan split: option.split)
qed


lemma keeps_run_projects [keeps_intros]: "keeps (worker_ok i U nz) (run_projects si ks)"
proof (induction ks)
  case (Cons k ks)
  have "keeps (worker_ok i U nz) (if stop then ret () else run_projects si ks)" for stop
    using Cons by (simp add: keeps_ret)
  then show ?case by (auto intro!: keeps_bind keeps_run_project)
qed (simp add: keeps_ret)

lemma keeps_refreshed_car [keeps_intros]: "keeps (worker_ok i U nz) (refreshed_car p prev cid)"
  unfolding refreshed_car_def
  by (auto intro!: keeps_asks keeps_update from_keeps [OF keeps_on_db] keeps_intros simp: ok_simps)

lemma keeps_refresh_car [keeps_intros]: "keeps (worker_ok i U nz) (refresh_car si p c)"
  unfolding refresh_car_def Let_def on_db_def
  by (rule keeps_asks, rule from_seq, rule from_keeps [OF keeps_commit], assumption)
    (auto intro!: keeps_asks from_seq from_update keeps_refreshed_car simp: ok_simps split: sum.split)

lemma keeps_refresh_unit [keeps_intros]: "keeps (worker_ok i U nz) (refresh_unit si k)"
proof -
  have exc: "keeps (worker_ok i U nz) (refresh_exception p c e)" for p c e
  proof -
    have "keeps (worker_ok i U nz) (update (add_failure a b))" for a b by (rule keeps_update) simp
    then show ?thesis unfolding refresh_exception_def by (auto intro!: keeps_intros)
  qed
  show ?thesis
    unfolding refresh_unit_def
    by (auto intro!: keeps_asks from_update from_handle from_keeps [OF keeps_refresh_car] exc split: option.split)
qed

lemma keeps_run_car [keeps_intros]: "keeps (worker_ok i U nz) (run_car si k)"
  unfolding run_car_def by (auto intro!: keeps_intros intro: from_keeps)

section \<open>The end of a run\<close>

definition run_status_of :: "db \<Rightarrow> int \<Rightarrow> run_status option" where
  "run_status_of d i = map_option r_status (get_run d i)"

definition ended :: "int \<Rightarrow> project_scan_run set \<Rightarrow> run_status \<Rightarrow> worker \<Rightarrow> bool" where
  "ended i U st w \<longleftrightarrow> worker_ok i U False w \<and> run_status_of (wk_db w) i = Some st \<and>
     terminal_status st \<and> (st = SUCCEEDED \<longrightarrow> wk_failures w = [])"

lemma fair_terminal:
  assumes "fair_session f" and "run_status_of d i = Some st" and "terminal_status st"
  shows "run_status_of (f d) i = Some st"
proof -
  obtain r where "get_run d i = Some r" "r_status r = st" using assms(2) by (auto simp: run_status_of_def)
  then show ?thesis
    using runs_follow_get [of d "f d" i r] assms(1,3)
    by (auto simp: fair_session_def row_follows_def run_status_of_def dest: run_follows_terminal)
qed

lemma ended_commit: "keeps (ended i U st) commit"
proof -
  have "ended i U st (snd (commit w))" if "ended i U st w" for w
    using that keepsD [OF keeps_commit, of i U False w]
    by (auto simp: ended_def commit_def update_def worker_ok_def split: list.splits
        intro: fair_terminal)
  then show ?thesis by (simp add: keeps_def)
qed

lemma ended_publish: "keeps (ended i U st) publish_scan_update"
  unfolding publish_scan_update_def by (rule keeps_update) (simp add: ended_def)

lemma get_run_set_setting [simp]: "get_run (set_setting s f d) i = get_run d i"
  by (simp add: get_run_def set_setting_def)

lemma reanchor_run:
  "run_status_of (reanchor_scheduler_after_manual_projects job t d) i =
     run_status_of d i"
  "project_scan_runs (reanchor_scheduler_after_manual_projects job t d) = project_scan_runs d"
  "run_status_of (record_completed_scheduler_run job t d) i =
     run_status_of d i"
  "project_scan_runs (record_completed_scheduler_run job t d) = project_scan_runs d"
  by (auto simp: run_status_of_def reanchor_scheduler_after_manual_projects_def record_completed_scheduler_run_def Let_def
      get_run_set_run option.map_comp comp_def intro!: option.map_cong0 split: option.split)
    (simp_all add: set_run_def set_setting_def)

lemma ended_timer:
  assumes "\<And>j. run_status_of (g w) j = run_status_of (wk_db w) j"
    and "project_scan_runs (g w) = project_scan_runs (wk_db w)" and "ended i U st w"
  shows "ended i U st (w\<lparr>wk_db := g w, wk_job := (case get_run (g w) (job_id w) of
    Some r \<Rightarrow> (wk_job w)\<lparr>r_payload := r_payload r\<rparr> | None \<Rightarrow> wk_job w)\<rparr>)"
proof -
  have "get_run (g w) j \<noteq> None \<longleftrightarrow> get_run (wk_db w) j \<noteq> None" for j
    using assms(1) [of j] by (metis run_status_of_def option.map_disc_iff)
  then show ?thesis
    using assms by (auto simp: ended_def worker_ok_def db_ok_def job_id_def failed_units_def
        split: option.split)
qed

lemma ended_timers: "keeps (ended i U st) reanchor_scheduler" "keeps (ended i U st) record_completed_run"
  unfolding reanchor_scheduler_def record_completed_run_def Let_def
  by (rule keeps_update, rule ended_timer; simp add: reanchor_run)+

lemma ended_assign:
  assumes "worker_ok i U False w" and "\<And>c r. r_id (g c r) = r_id r" and "\<And>r. r_status (g (wk_job w) r) = st"
    and "terminal_status st" and "st = SUCCEEDED \<Longrightarrow> wk_failures w = []"
  shows "ended i U st (snd (assign g w))"
proof -
  have "worker_ok i U False (snd (assign g w))"
    using keepsD [OF keeps_assign assms(1)] assms(2) by blast
  moreover have "run_status_of (set_run i (g (wk_job w)) (wk_db w)) i = Some st"
  proof -
    obtain r where "get_run (wk_db w) i = Some r" "r_id r = i"
      using assms(1) by (auto simp: worker_ok_def db_ok_def dest: get_run_id)
    then show ?thesis using assms(2,3) by (simp add: run_status_of_def get_run_set_run)
  qed
  ultimately show ?thesis
    using assms by (simp add: ended_def assign_def update_def worker_ok_def)
qed


lemma seq_update [simp]: "seq (update f) k w = k (f w)"
  by (simp add: seq_def bind_def update_def)

lemma seq_asks [simp]: "seq (asks k) m w = seq (k w) m w"
  by (simp add: seq_def bind_def asks_def)

lemma snd_ret [simp]: "snd (ret a w) = w"
  by (simp add: ret_def)

lemma block_Nil [simp]: "block [] = ret ()"
  by (simp add: block_def)

lemma seq_throw [simp]: "seq (throw e) k = throw e"
  by (simp add: fun_eq_iff seq_def bind_def throw_def)

lemma seq_assoc: "seq (seq m k) n = seq m (seq k n)"
  by (auto simp: fun_eq_iff seq_def bind_def split: prod.split sum.split)

lemma seq_assign: "seq (assign g) k w = k (snd (assign g w))"
  by (simp add: assign_def) (simp add: update_def)

lemmas run_block = block_Cons

lemma ended_columns [simp]:
  "r_id (cancelled_columns w c r) = r_id r" "r_status (cancelled_columns w c r) = cancel_status c"
  "r_id (completed_columns w c r) = r_id r" "r_status (completed_columns w c r) = completed_status w"
  "r_id (failed_columns e w c r) = r_id r" "r_status (failed_columns e w c r) = FAILED"
  by (simp_all add: cancelled_columns_def completed_columns_def failed_columns_def end_run_def)

lemma ended_tail: "keeps (ended i U st) (block [reanchor_scheduler, commit, publish_scan_update])"
  by (auto intro!: keeps_intros ended_timers ended_commit ended_publish)

lemma cancelled_run_ends:
  assumes "worker_ok i U nz w"
  shows "\<exists>st. st \<noteq> SUCCEEDED \<and> ended i U st (snd (seq finish_cancelled_job publish_scan_update w))"
proof -
  define v where "v = cancel_project_runs w"
  let ?st = "cancel_status (wk_job v)"
  have st: "?st \<noteq> SUCCEEDED" "terminal_status ?st" by (simp_all add: cancel_status_def terminal_status_def)
  have "failed_units i (wk_db v) \<subseteq> failed_units i (wk_db w)"
    by (auto simp: v_def cancel_project_runs_def failed_units_def set_update_where cancel_project_run_def
        cancel_status_def split: if_splits)
  then have "worker_ok i U nz v"
    using ok_fewer [OF assms, of "wk_db v"] by (simp add: v_def cancel_project_runs_def)
  then have ok: "worker_ok i U False v" by (simp add: worker_ok_def)
  have e: "ended i U ?st (snd (assign (cancelled_columns v) v))"
    by (rule ended_assign [OF ok]) (use st in simp_all)
  have step: "snd (seq finish_cancelled_job publish_scan_update w) =
      snd (seq (block [reanchor_scheduler, commit]) publish_scan_update (snd (assign (cancelled_columns v) v)))"
    by (simp add: finish_cancelled_job_def run_block v_def seq_assoc seq_assign)
  have k: "keeps (ended i U ?st) (seq (block [reanchor_scheduler, commit]) publish_scan_update)"
    by (auto intro!: keeps_intros ended_timers ended_commit ended_publish)
  show ?thesis unfolding step using keepsD [OF k e] st(1) by blast
qed

lemma failed_run_ends:
  assumes "worker_ok i U nz w"
  shows "ended i U FAILED (snd (fail_job e w))"
proof -
  define v where "v = w\<lparr>wk_report := dedupe_report default_report_priority (wk_report w)\<rparr>"
  have ok: "worker_ok i U False v" using assms by (simp add: v_def) (simp add: worker_ok_def)
  have e: "ended i U FAILED (snd (assign (failed_columns e v) v))"
    by (rule ended_assign [OF ok]) (simp_all add: terminal_status_def)
  have step: "snd (fail_job e w) =
      snd (block [reanchor_scheduler, commit, publish_scan_update] (snd (assign (failed_columns e v) v)))"
    by (simp add: fail_job_def run_block dedupe_own_report_def seq_assign v_def)
  show ?thesis unfolding step by (rule keepsD [OF ended_tail e])
qed

lemma check_keeps_failures: "wk_failures (snd (raise_if_cancelled w)) = wk_failures w"
proof -
  have a: "wk_failures (snd (assign g v)) = wk_failures v" for g v by (simp add: assign_def update_def)
  have t: "snd (throw e v) = v" for e :: scan_exc and v :: worker by (simp add: throw_def)
  show ?thesis
    by (simp add: raise_if_cancelled_def asks_def seq_assign a t refresh_job_def run_block commit_def
        split: option.split list.split)
qed

lemma keeps_complete_checks: "keeps (worker_ok i U nz) dedupe_own_report"
  unfolding dedupe_own_report_def by (rule keeps_update) simp

lemma completed_run_ends:
  assumes "worker_ok i U nz w" and "complete_job w = (Inr (), w')"
  shows "\<exists>st. ended i U st w' \<and> (wk_failures w = [] \<longrightarrow> st = SUCCEEDED)"
proof -
  obtain u where c: "raise_if_cancelled w = (Inr (), u)"
    using assms(2) by (cases "raise_if_cancelled w"; cases "fst (raise_if_cancelled w)")
      (auto simp: complete_job_def run_block seq_def bind_def)
  have "worker_ok i U nz u" using keepsD [OF keeps_raise_if_cancelled assms(1)] c by simp
  then have "worker_ok i U nz (snd (block [dedupe_own_report, set_progress 100] u))"
    by (rule keepsD [rotated]) (auto intro!: keeps_intros keeps_complete_checks)
  moreover define v where "v = snd (block [dedupe_own_report, set_progress 100] u)"
  ultimately have ok: "worker_ok i U False v" by (simp add: worker_ok_def)
  have e: "ended i U (completed_status v) (snd (assign (completed_columns v) v))"
    by (rule ended_assign [OF ok]) (auto simp: completed_status_def terminal_status_def split: if_splits)
  let ?rest = "seq record_completed_run (block [reanchor_scheduler, commit, publish_scan_update])"
  have step: "snd (complete_job w) = snd (?rest (snd (assign (completed_columns v) v)))"
    using c by (simp add: complete_job_def run_block seq_def [of raise_if_cancelled] bind_def v_def
        dedupe_own_report_def set_progress_def seq_assign)
  have k: "keeps (ended i U (completed_status v)) ?rest"
    by (intro keeps_seq ended_timers ended_tail)
  have "wk_failures u = wk_failures w" using check_keeps_failures [of w] c by simp
  then have "wk_failures v = wk_failures w"
    by (simp add: v_def run_block dedupe_own_report_def set_progress_def seq_assign) (simp add: assign_def update_def)
  then show ?thesis
    using keepsD [OF k e] assms(2) step
    by (auto simp: completed_status_def simp del: seq_update seq_asks)
qed


lemma keeps_timers [keeps_intros]:
  "keeps (worker_ok i U nz) reanchor_scheduler" "keeps (worker_ok i U nz) record_completed_run"
proof -
  have ok: "worker_ok i U nz (w\<lparr>wk_db := d, wk_job := (case get_run d (job_id w) of
      Some r \<Rightarrow> (wk_job w)\<lparr>r_payload := r_payload r\<rparr> | None \<Rightarrow> wk_job w)\<rparr>)"
    if "\<And>j. run_status_of d j = run_status_of (wk_db w) j" "project_scan_runs d = project_scan_runs (wk_db w)"
      "worker_ok i U nz w" for d w
  proof -
    have "get_run d j \<noteq> None \<longleftrightarrow> get_run (wk_db w) j \<noteq> None" for j
      using that(1) [of j] by (metis run_status_of_def option.map_disc_iff)
    then show ?thesis
      using that by (auto simp: worker_ok_def db_ok_def job_id_def failed_units_def split: option.split)
  qed
  show "keeps (worker_ok i U nz) reanchor_scheduler" "keeps (worker_ok i U nz) record_completed_run"
    unfolding reanchor_scheduler_def record_completed_run_def Let_def
    by (rule keeps_update, rule ok; simp add: reanchor_run)+
qed

lemma keeps_units [keeps_intros]:
  "keeps (worker_ok i U nz) (asks (\<lambda>w. run_projects si (run_project_ids (wk_payload w))))"
  "keeps (worker_ok i U nz) (asks (\<lambda>w. for_each (run_car si) (run_car_ids (wk_payload w))))"
  by (rule keeps_asks, rule from_keeps, intro keeps_intros, assumption)+

lemma keeps_complete_job [keeps_intros]: "keeps (worker_ok i U nz) complete_job"
proof -
  have "keeps (worker_ok i U nz) (asks (\<lambda>w. assign (completed_columns w)))"
    by (rule keeps_asks, rule from_keeps [OF keeps_assign]) simp_all
  then show ?thesis
    unfolding complete_job_def by (auto intro!: keeps_complete_checks keeps_timers keeps_publish keeps_commit
        keeps_set_progress keeps_raise_if_cancelled keeps_block)
qed

lemma keeps_run_units: "keeps (worker_ok i U nz) (run_units si)"
  unfolding run_units_def by (auto intro!: keeps_block keeps_units keeps_lift keeps_raise_if_cancelled keeps_complete_job)

lemma block_last:
  assumes "block (ms @ [m]) w = (Inr (), w')"
  shows "\<exists>u. block ms w = (Inr (), u) \<and> m u = (Inr (), w')"
  using assms
  by (induction ms arbitrary: w) (auto simp: block_Cons seq_def bind_def ret_def split: prod.splits sum.splits)

lemma run_units_completed:
  assumes "worker_ok i U nz w" and "run_units si w = (Inr (), w')"
  shows "\<exists>st. ended i U st w'"
proof -
  let ?ms = "[lift (site_entitlement si), lift (site_browser si), raise_if_cancelled,
     asks (\<lambda>w. run_projects si (run_project_ids (wk_payload w))),
     asks (\<lambda>w. for_each (run_car si) (run_car_ids (wk_payload w)))]"
  have "run_units si = block (?ms @ [complete_job])" by (simp add: run_units_def)
  then obtain u where u: "block ?ms w = (Inr (), u)" "complete_job u = (Inr (), w')"
    using block_last [of ?ms complete_job w w'] assms(2) by auto
  have "keeps (worker_ok i U nz) (block ?ms)"
    by (auto intro!: keeps_block keeps_units keeps_lift keeps_raise_if_cancelled)
  then have "worker_ok i U nz (snd (block ?ms w))" using assms(1) by (rule keepsD)
  then have "worker_ok i U nz u" using u(1) by simp
  then show ?thesis using completed_run_ends u(2) by blast
qed

lemma keeps_start_run: "keeps (worker_ok i U False) start_run"
proof -
  have "worker_ok i U False (add_project_runs ids v)" if "worker_ok i U False v" for ids v
  proof -
    have "failed_units i (wk_db (add_project_runs ids v)) \<subseteq> failed_units i (wk_db v)"
      by (auto simp: add_project_runs_def failed_units_def)
    then show ?thesis
      using ok_fewer [OF that, of "wk_db (add_project_runs ids v)"] by (simp add: add_project_runs_def)
  qed
  then have "keeps (worker_ok i U False) (asks (\<lambda>w. update (add_project_runs (run_project_ids (wk_payload w)))))"
    by (intro keeps_asks from_update)
  moreover have "keeps (worker_ok i U False) (update (\<lambda>w. w\<lparr>wk_payload := payload_of (wk_job w)\<rparr>))"
    "keeps (worker_ok i U False) (update (\<lambda>w. w\<lparr>wk_total := max 1 (length (run_project_ids (wk_payload w)) +
       length (run_car_ids (wk_payload w)))\<rparr>))"
    by (rule keeps_update, simp)+
  moreover have "keeps (worker_ok i U False) (asks (\<lambda>w. assign (begin_run (wk_clock w))))"
    by (rule keeps_asks, rule from_keeps [OF keeps_assign]) (simp_all add: begin_run_def)
  ultimately show ?thesis
    unfolding start_run_def by (auto intro!: keeps_block keeps_commit keeps_publish)
qed

lemma start_run_returns: "fst (start_run w) = Inr ()"
  by (simp add: start_run_def run_block commit_def publish_scan_update_def seq_assign)

lemma run_job_ends:
  assumes "worker_ok i U False w"
  shows "\<exists>st. ended i U st (snd (run_job si w))"
proof -
  define v where "v = snd (start_run w)"
  have ok: "worker_ok i U False v" using keepsD [OF keeps_start_run assms] by (simp add: v_def)
  have run: "run_job si w = handle (run_units si) run_exception v"
    using start_run_returns [of w] by (cases "start_run w") (simp add: run_job_def seq_def bind_def v_def)
  have ok': "worker_ok i U False (snd (run_units si v))" by (rule keepsD [OF keeps_run_units ok])
  show ?thesis
  proof (cases "run_units si v")
    case (Pair r u)
    show ?thesis
    proof (cases r)
      case (Inl e)
      then have "snd (run_job si w) = snd (run_exception e u)" using Pair by (simp add: run handle_def)
      then show ?thesis
        using cancelled_run_ends [of i U False u] failed_run_ends [of i U False u e] ok' Pair
        by (auto simp: run_exception_def simp del: seq_update seq_asks)
    next
      case (Inr x)
      then have "run_units si v = (Inr (), u)" using Pair by simp
      then show ?thesis
        using run_units_completed [OF ok] by (simp add: run handle_def)
    qed
  qed
qed

lemma open_session_ok:
  assumes "get_run d i = Some job" and "list_all (\<lambda>(t, f). fair_session f) others"
  shows "worker_ok i (failed_units i d) False (open_session others t job d)"
  using assms get_run_id [OF assms(1)] by (simp add: worker_ok_def job_id_def db_ok_def open_session_def)

text \<open>In executions in which the database accepts every write of the worker, a run that is handed to it ends
  with a terminal status, whatever the site returns or raises and whatever fair transactions other
  sessions commit in between. The restriction matters: when a project is deleted during its scan, the
  commit in the handler of the project's error finds the project's row of results gone and raises
  itself, and so does the handler around it; the run then stays open until the next recovery. A
  reading with a number that SQLite cannot store has the same effect. The model has neither
  exception: it updates no row.\<close>

theorem process_job_ends:
  assumes "get_run d i = Some job" and "r_status job \<in> {QUEUED, RUNNING}"
    and "list_all (\<lambda>(t, f). fair_session f) others"
  shows "\<exists>st. run_status_of (fst (process_job si others t i d)) i = Some st \<and> terminal_status st"
proof (cases "owner_is_active d (r_owner_id job)")
  case True
  obtain st where "ended i (failed_units i d) st (snd (run_job si (open_session others t job d)))"
    using run_job_ends [OF open_session_ok [OF assms(1,3)]] by blast
  then show ?thesis
    using assms True by (auto simp: process_job_def Let_def ended_def)
next
  case False
  then show ?thesis
    using assms get_run_id [OF assms(1)]
    by (auto simp: process_job_def run_status_of_def get_run_set_run cancel_inactive_def terminal_status_def)
qed

text \<open>C24: a run that ends as SUCCEEDED has marked none of its projects as failed.\<close>

theorem succeeded_run_failed_no_project:
  assumes "get_run d i = Some job" and "r_status job \<in> {QUEUED, RUNNING}"
    and "list_all (\<lambda>(t, f). fair_session f) others"
    and "run_status_of (fst (process_job si others t i d)) i = Some SUCCEEDED"
  shows "failed_units i (fst (process_job si others t i d)) \<subseteq> failed_units i d"
proof (cases "owner_is_active d (r_owner_id job)")
  case True
  obtain st where "ended i (failed_units i d) st (snd (run_job si (open_session others t job d)))"
    using run_job_ends [OF open_session_ok [OF assms(1,3)]] by blast
  then show ?thesis
    using assms True by (auto simp: process_job_def Let_def ended_def worker_ok_def db_ok_def)
next
  case False
  then show ?thesis
    using assms get_run_id [OF assms(1)]
    by (auto simp: process_job_def run_status_of_def get_run_set_run cancel_inactive_def)
qed


section \<open>A run that succeeds\<close>

definition empty_site :: site where
  "empty_site = \<lparr>site_below = (\<lambda>_. None), site_entitlement = Inr (), site_browser = Inr (),
     site_page = (\<lambda>_ _ _ _. Inr \<lparr>sp_rows = [], sp_total_pages = 1, sp_total_results = Some 0, sp_has_next = False\<rparr>),
     site_price_filter = (\<lambda>u _ _. Inr u), site_list_row = (\<lambda>_. []), site_pool = (\<lambda>_. Inr ()),
     site_read = (\<lambda>_ _ _ _. Inl ScanCancelled), site_order = (\<lambda>_. []), site_relaunch = (\<lambda>_. Inr ())\<rparr>"
definition empty_run :: scan_run where "empty_run = sample_run 1 7 RUNNING 5 [(''project_ids'', JList [])]"
definition empty_run_db :: db where
  "empty_run_db = empty_db\<lparr>users := [sample_user 7 USER ACTIVE], scan_runs := [empty_run]\<rparr>"

lemma empty_run_ids: "run_project_ids (payload_of empty_run) = []" "run_car_ids (payload_of empty_run) = []"
 by (simp_all add: empty_run_def sample_run_def payload_of_def run_project_ids_def run_car_ids_def id_list_def List.map_filter_simps)

lemma begin_run_simps [simp]:
  "r_id (begin_run t j r) = r_id r" "r_owner_id (begin_run t j r) = r_owner_id r" "payload_of (begin_run t j r) = payload_of r"
  by (simp_all add: begin_run_def payload_of_def)

lemma get_run_other [simp]: "get_run (d\<lparr>project_scan_runs := x\<rparr>) i = get_run d i"
  by (simp add: get_run_def)

definition ready :: "worker \<Rightarrow> bool" where
  "ready w \<longleftrightarrow> (\<exists>r. get_run (wk_db w) (job_id w) = Some r \<and> r_status r = RUNNING) \<and> wk_owner_active w \<and> wk_failures w = [] \<and> wk_others w = []"

lemma ready_check: "ready w \<Longrightarrow> \<exists>w'. raise_if_cancelled w = (Inr (), w') \<and> ready w' \<and> wk_payload w' = wk_payload w"
  by (auto simp: ready_def raise_if_cancelled_def asks_def assign_def update_def refresh_job_def job_id_def
     get_run_set_run seq_assign ret_def dest: get_run_id)

lemma ready_complete:
  assumes "ready w" and "worker_ok i U nz w"
  shows "\<exists>w'. complete_job w = (Inr (), w') \<and> ended i U SUCCEEDED w'"
proof -
  obtain v where "raise_if_cancelled w = (Inr (), v)" using ready_check [OF assms(1)] by blast
  then have "fst (complete_job w) = Inr ()"
    by (simp add: complete_job_def run_block seq_def [of raise_if_cancelled] bind_def dedupe_own_report_def
        set_progress_def seq_assign record_completed_run_def reanchor_scheduler_def commit_def
        publish_scan_update_def)
  then obtain w' where w': "complete_job w = (Inr (), w')" by (cases "complete_job w") auto
  then show ?thesis
    using completed_run_ends [OF assms(2) w'] assms(1) by (auto simp: ready_def)
qed

lemma empty_run_succeeds: "run_status_of (fst (process_job empty_site [] 10 1 empty_run_db)) 1 = Some SUCCEEDED"
proof -
  have job: "get_run empty_run_db 1 = Some empty_run" "owner_is_active empty_run_db 7" "r_id empty_run = 1" "r_owner_id empty_run = 7" "r_status empty_run = RUNNING"
    by (simp_all add: empty_run_db_def empty_run_def get_run_def sample_run_def owner_is_active_def sample_user_def)
  define w where "w = snd (start_run (open_session [] 10 empty_run empty_run_db))"
  have w: "wk_payload w = payload_of empty_run" "get_run (wk_db w) 1 = Some (begin_run 10 empty_run empty_run)"
     "job_id w = 1" "wk_owner_active w" "wk_failures w = []" "wk_others w = []"
    using job by (simp_all add: w_def start_run_def run_block seq_assign commit_def publish_scan_update_def open_session_def
      assign_def update_def empty_run_ids job_id_def add_project_runs_def get_run_set_run )
  then have "ready w" using job by (simp add: ready_def begin_run_def)
  have ok: "worker_ok 1 (failed_units 1 empty_run_db) False (open_session [] 10 empty_run empty_run_db)"
    by (rule open_session_ok [OF job(1)]) simp
  have ok: "worker_ok 1 (failed_units 1 empty_run_db) False w"
    unfolding w_def by (rule keepsD [OF keeps_start_run ok])
  obtain v where v: "raise_if_cancelled w = (Inr (), v)" "ready v" "wk_payload v = wk_payload w"
    using ready_check [OF \<open>ready w\<close>] by blast
  have "worker_ok 1 (failed_units 1 empty_run_db) False v"
    using keepsD [OF keeps_raise_if_cancelled ok] v(1) by simp
  then obtain u where u: "complete_job v = (Inr (), u)" "ended 1 (failed_units 1 empty_run_db) SUCCEEDED u"
    using ready_complete [OF v(2)] by blast
  have "run_units empty_site w = (Inr (), u)"
    using v u(1) w(1) by (simp add: run_units_def run_block seq_def [of "lift _"] seq_def [of raise_if_cancelled]
      bind_def lift_def empty_site_def empty_run_ids) (simp add: seq_def bind_def ret_def)
  then have "run_job empty_site (open_session [] 10 empty_run empty_run_db) = (Inr (), u)"
    by (simp add: run_job_def seq_def bind_def handle_def start_run_returns w_def prod.case_eq_if)
  then show ?thesis using u(2) job by (simp add: process_job_def ended_def)
qed

lemma empty_run_job:
  "get_run empty_run_db 1 = Some empty_run" "r_status empty_run \<in> {QUEUED, RUNNING}"
  by (simp_all add: empty_run_db_def empty_run_def get_run_def sample_run_def)

lemma process_job_ends_witness:
  "\<exists>st. run_status_of (fst (process_job empty_site [(11, id)] 10 1 empty_run_db)) 1 = Some st \<and> terminal_status st"
  by (rule process_job_ends [OF empty_run_job]) (simp add: fair_session_def)

lemma succeeded_run_failed_no_project_witness:
  "failed_units 1 (fst (process_job empty_site [] 10 1 empty_run_db)) \<subseteq> failed_units 1 empty_run_db"
  by (rule succeeded_run_failed_no_project [OF empty_run_job _ empty_run_succeeds]) simp

end
