(* ===== verification/WorkerProgress.thy ===== *)
theory WorkerProgress
  imports Worker
begin

text \<open>
  The progress numbers of a run, computed as the code does in floating point, stay within bounds: each
  rounding adds at most a small relative error (\<open>good_flt\<close>), so the percentage never rounds beyond 100.
\<close>

section \<open>Progress stays within its bounds\<close>

definition good_flt :: "flt \<Rightarrow> real \<Rightarrow> bool" where
  "good_flt x v \<longleftrightarrow> 0 \<le> fst x \<and> 0 < snd x \<and> frac_of x \<le> v"

lemma good_fl: "good_flt x v \<Longrightarrow> good_flt (fl x) (v * (2001 / 2000))"
proof -
  assume x: "good_flt x v"
  then have p: "0 \<le> fst x" "0 < snd x" "frac_of x \<le> v" "0 \<le> frac_of x"
    by (simp_all add: good_flt_def frac_of_def)
  note e = fl_error [OF p(1,2)]
  have "frac_of x / 2 ^ 53 \<le> frac_of x / 2000" using p(4) by (simp add: field_simps)
  then have "frac_of (fl x) \<le> frac_of x * (2001 / 2000)" using abs_le_D1 [OF e(1)] by linarith
  then have "frac_of (fl x) \<le> v * (2001 / 2000)" using p(3) by linarith
  moreover have "0 \<le> fst (fl x)" using e(2,3) by (simp add: frac_of_def zero_le_divide_iff)
  ultimately show "good_flt (fl x) (v * (2001 / 2000))" using e(2) by (simp add: good_flt_def)
qed

lemma good_more: "good_flt x v \<Longrightarrow> v \<le> v' \<Longrightarrow> good_flt x v'"
  by (simp add: good_flt_def)

lemma good_flt_val: "good_flt x v \<Longrightarrow> 0 \<le> v"
  by (auto simp: good_flt_def frac_of_def intro: order_trans [rotated])

lemma good_fnat: "good_flt (fnat n) (real n)"
  by (simp add: good_flt_def fnat_def frac_of_def)

lemma good_fadd: "good_flt a v \<Longrightarrow> good_flt b w \<Longrightarrow> good_flt (fadd a b) ((v + w) * (2001 / 2000))"
  unfolding fadd_def
proof (rule good_fl)
  assume a: "good_flt a v" and b: "good_flt b w"
  then have "frac_of (fst a * snd b + fst b * snd a, snd a * snd b) = frac_of a + frac_of b"
    by (simp add: frac_of_def good_flt_def add_divide_distrib)
  then show "good_flt (fst a * snd b + fst b * snd a, snd a * snd b) (v + w)"
    using a b by (simp add: good_flt_def)
qed

lemma good_fmul: "good_flt a v \<Longrightarrow> good_flt b w \<Longrightarrow> good_flt (fmul a b) (v * w * (2001 / 2000))"
  unfolding fmul_def
proof (rule good_fl)
  assume a: "good_flt a v" and b: "good_flt b w"
  have "frac_of (fst a * fst b, snd a * snd b) = frac_of a * frac_of b" by (simp add: frac_of_def)
  moreover have "frac_of a * frac_of b \<le> v * w"
    using a b by (intro mult_mono) (auto simp: good_flt_def frac_of_def intro: order_trans [rotated])
  ultimately show "good_flt (fst a * fst b, snd a * snd b) (v * w)"
    using a b by (simp add: good_flt_def)
qed

lemma good_fdiv: "good_flt a v \<Longrightarrow> 0 < n \<Longrightarrow> good_flt (fdiv a n) (v / real n * (2001 / 2000))"
  unfolding fdiv_def
  by (rule good_fl) (auto simp: good_flt_def frac_of_def divide_right_mono simp flip: divide_divide_eq_left)

lemma round_bounds:
  assumes "good_flt x (100 + 49 / 100)"
  shows "0 \<le> round_half_even (fst x) (snd x) \<and> round_half_even (fst x) (snd x) \<le> 100"
proof -
  have q: "0 < snd x" "0 \<le> frac_of x" "frac_of x \<le> 100 + 49 / 100"
    using assms by (simp_all add: good_flt_def frac_of_def)
  have "\<bar>of_int (round_half_even (fst x) (snd x)) - frac_of x\<bar> \<le> 1 / 2"
    using round_half_even_error [OF q(1), of "fst x"] by (simp add: frac_of_def)
  then have "-1 < (of_int (round_half_even (fst x) (snd x)) :: real)"
    "(of_int (round_half_even (fst x) (snd x)) :: real) < 101" using q unfolding abs_le_iff by linarith+
  then show ?thesis by linarith
qed

lemma percent_bounds:
  assumes "good_flt u (real total_units * (1003 / 1000))" and "0 < total_units"
  shows "0 \<le> percent_done u total_units \<and> percent_done u total_units \<le> 100"
proof -
  have "good_flt (fdiv u total_units) (1003 / 1000 * (2001 / 2000))"
    using good_fdiv [OF assms] assms(2) by simp
  moreover have "good_flt (100, 1) 100" by (simp add: good_flt_def frac_of_def)
  ultimately have "good_flt (fmul (fdiv u total_units) (100, 1)) (1003 / 1000 * (2001 / 2000) * 100 * (2001 / 2000))"
    by (rule good_fmul)
  then have "good_flt (fmul (fdiv u total_units) (100, 1)) (100 + 49 / 100)"
    by (rule good_more) simp
  then show ?thesis using round_bounds by (simp add: percent_done_def Let_def)
qed

lemma good_share: "0 \<le> p \<Longrightarrow> good_flt (fl (p, 100)) (of_int p / 100 * (2001 / 2000))"
  by (rule good_fl) (simp add: good_flt_def frac_of_def)

text \<open>The progress a run shows while it works stays between 0 and 100 percent, computed in floating
  point as the code does: for a page, for a row or a detail of the current unit, and after a unit.\<close>

theorem progress_within_bounds:
  assumes "completed < total_units" and "0 < pages" and "finished \<le> n" and "share \<in> {30, 80}"
  shows "page_progress completed total_units current pages \<in> {0..100} \<and>
    part_progress (fl (share, 100)) completed total_units finished n \<in> {0..100} \<and>
    unit_progress (Suc completed) total_units \<in> {0..99}"
proof -
  have t: "0 < total_units" "real completed + 1 \<le> real total_units" "0 \<le> real completed" using assms(1) by linarith+
  have "good_flt (fl (int current, int pages)) (real current / real pages * (2001 / 2000))"
    by (rule good_fl) (use assms(2) in \<open>simp add: good_flt_def frac_of_def\<close>)
  then have "good_flt (page_fraction current pages) 1"
    by (auto simp: page_fraction_def Let_def good_flt_def frac_of_def)
  then have "good_flt (fmul (fl (15, 100)) (page_fraction current pages))
      (of_int 15 / 100 * (2001 / 2000) * 1 * (2001 / 2000))"
    by (intro good_fmul good_share) simp_all
  then have "good_flt (fmul (fl (15, 100)) (page_fraction current pages)) (16 / 100)"
    by (rule good_more) simp
  from good_fadd [OF good_fnat [of completed] this]
  have "good_flt (fadd (fnat completed) (fmul (fl (15, 100)) (page_fraction current pages)))
      (real total_units * (1003 / 1000))"
    by (rule good_more) (use t in \<open>simp add: field_simps\<close>)
  then have page: "page_progress completed total_units current pages \<in> {0..100}"
    using percent_bounds t(1) by (simp add: page_progress_def)
  have "good_flt (fmul (fl (share, 100)) (fnat finished)) (801 / 1000 * real finished)"
  proof (rule good_more)
    show "good_flt (fmul (fl (share, 100)) (fnat finished)) (of_int share / 100 * (2001 / 2000) * real finished * (2001 / 2000))"
      by (intro good_fmul good_share good_fnat) (use assms(4) in auto)
    have "of_int share / 100 * (2001 / 2000) * (2001 / 2000) * real finished \<le> 801 / 1000 * real finished"
      using assms(4) by (intro mult_right_mono) auto
    then show "of_int share / 100 * (2001 / 2000) * real finished * (2001 / 2000) \<le> 801 / 1000 * real finished"
      by (simp add: mult_ac)
  qed
  from good_fdiv [OF this, of "max 1 n"]
  have "good_flt (fdiv (fmul (fl (share, 100)) (fnat finished)) (max 1 n)) (802 / 1000)"
  proof (rule good_more)
    have "real finished / real (max 1 n) \<le> 1" using assms(3) by simp
    then have "801 / 1000 * (real finished / real (max 1 n)) \<le> 801 / 1000 * 1"
      by (rule mult_left_mono) simp
    then have "801 / 1000 * real finished / real (max 1 n) \<le> 801 / 1000" by simp
    then have "801 / 1000 * real finished / real (max 1 n) * (2001 / 2000) \<le> 801 / 1000 * (2001 / 2000)"
      by (rule mult_right_mono) simp
    then show "801 / 1000 * real finished / real (max 1 n) * (2001 / 2000) \<le> 802 / 1000" by linarith
  qed simp
  then have "good_flt (fadd (fadd (fnat completed) (fl (15, 100)))
      (fdiv (fmul (fl (share, 100)) (fnat finished)) (max 1 n)))
      (((real completed + of_int 15 / 100 * (2001 / 2000)) * (2001 / 2000) + 802 / 1000) * (2001 / 2000))"
    by (intro good_fadd good_fnat good_share) simp_all
  then have "good_flt (fadd (fadd (fnat completed) (fl (15, 100)))
      (fdiv (fmul (fl (share, 100)) (fnat finished)) (max 1 n))) (real total_units * (1003 / 1000))"
    by (rule good_more) (use t in \<open>simp add: field_simps\<close>)
  then have part: "part_progress (fl (share, 100)) completed total_units finished n \<in> {0..100}"
    using percent_bounds t(1) by (simp add: part_progress_def)
  have "good_flt (fnat (Suc completed)) (real total_units * (1003 / 1000))"
    using t(2) by (auto intro: good_more [OF good_fnat])
  then have "unit_progress (Suc completed) total_units \<in> {0..99}"
    using percent_bounds [OF _ t(1)] by (fastforce simp: unit_progress_def min_def)
  with page part show ?thesis by blast
qed

lemma progress_within_bounds_witness:
  "page_progress 2 3 1 4 \<in> {0..100} \<and> part_progress (fl (80, 100)) 2 3 5 5 \<in> {0..100} \<and> unit_progress 3 3 \<in> {0..99}"
  using progress_within_bounds [of 2 3 4 5 5 80 1] by (simp add: eval_nat_numeral)
end
