(* ===== verification/DetailWorkers.thy ===== *)
theory DetailWorkers
  imports Worker "HOL-Library.Multiset"
begin

text \<open>
  The pool of browser threads of \<^verbatim>\<open>backend/app/detail_workers.py\<close> as a step relation: the threads, the bounded
  task queue, the result queue and the coordinator interleave freely. The specification of the pool is a bag
  of open tasks from which answers are taken in any order; the pool refines it, and therefore what the
  coordinator reads is a prefix of \<open>deliver order tasks\<close> for some order, which is how the worker model sees it.

  A task is a value of type \<open>'a\<close>, its result one of type \<open>'r\<close>; \<open>answer t r\<close> says that reading \<open>t\<close> may return (or
  raise) \<open>r\<close>. An entry \<open>None\<close> of the task queue is the stop marker.
\<close>

section \<open>The pool\<close>

datatype 'a detail_thread = Starting | Waiting | Looping | Getting | Turn 'a | Reading 'a | Gone

datatype ('a, 'r) coordinator = Entering | Filling "('a \<times> 'r) option" | Consuming | Closed

record ('a, 'r) pool =
  pl_tasks :: "'a list"
  pl_threads :: "'a detail_thread list"
  pl_pending :: "'a list"
  pl_queue :: "'a option list"
  pl_results :: "('a \<times> 'r) list"
  pl_ready :: "bool list"
  pl_start :: bool
  pl_stop :: bool
  pl_phase :: "('a, 'r) coordinator"
  pl_yielded :: "('a \<times> 'r) list"

definition pool_size :: "int \<Rightarrow> nat" where
  "pool_size workers = nat (max 1 (min workers 2))"

text \<open>The tasks that \<^verbatim>\<open>submit_all\<close> will be given are pending from the start; nothing takes them before.\<close>

definition new_pool :: "int \<Rightarrow> 'a list \<Rightarrow> ('a, 'r) pool" where
  "new_pool workers tasks = \<lparr>pl_tasks = tasks, pl_threads = replicate (pool_size workers) Starting, pl_pending = tasks,
     pl_queue = [], pl_results = [], pl_ready = [], pl_start = False, pl_stop = False, pl_phase = Entering,
     pl_yielded = []\<rparr>"

definition task_queue_size :: "('a, 'r) pool \<Rightarrow> nat" where
  "task_queue_size p = length (pl_threads p) * 3"

definition set_thread :: "nat \<Rightarrow> 'a detail_thread \<Rightarrow> ('a, 'r) pool \<Rightarrow> ('a, 'r) pool" where
  "set_thread i w p = p\<lparr>pl_threads := (pl_threads p)[i := w]\<rparr>"

text \<open>A thread \<open>i\<close> in state \<open>w\<close>.\<close>

definition thread_is :: "nat \<Rightarrow> 'a detail_thread \<Rightarrow> ('a, 'r) pool \<Rightarrow> bool" where
  "thread_is i w p \<longleftrightarrow> i < length (pl_threads p) \<and> pl_threads p ! i = w"

text \<open>\<^verbatim>\<open>_wait_for_source_turn\<close>: the delay of this start and the earliest time of the next one.\<close>

definition source_turn :: "time \<Rightarrow> time \<Rightarrow> time \<Rightarrow> time \<times> time" where
  "source_turn interval now next_start = (max 0 (next_start - now), max now next_start + interval)"

definition stop_markers :: "('a, 'r) pool \<Rightarrow> nat" where
  "stop_markers p = min (length (pl_threads p)) (task_queue_size p - length (pl_queue p))"

text \<open>\<^verbatim>\<open>close\<close>: a stop marker per thread, as many as the queue takes.\<close>

definition close_pool :: "('a, 'r) pool \<Rightarrow> ('a, 'r) pool" where
  "close_pool p = p\<lparr>pl_stop := True, pl_start := True, pl_queue := pl_queue p @ replicate (stop_markers p) None,
     pl_phase := Closed\<rparr>"

inductive pool_step :: "('a \<Rightarrow> 'r \<Rightarrow> bool) \<Rightarrow> ('a, 'r) pool \<Rightarrow> ('a, 'r) pool \<Rightarrow> bool" for answer where
  opened: "thread_is i Starting p \<Longrightarrow>
    pool_step answer p (set_thread i Waiting (p\<lparr>pl_ready := pl_ready p @ [True]\<rparr>))"
| failed: "thread_is i Starting p \<Longrightarrow>
    pool_step answer p (set_thread i Gone (p\<lparr>pl_ready := pl_ready p @ [False]\<rparr>))"
| released: "thread_is i Waiting p \<Longrightarrow> pl_start p \<Longrightarrow> pool_step answer p (set_thread i Looping p)"
| stopped: "thread_is i Looping p \<Longrightarrow> pl_stop p \<Longrightarrow> pool_step answer p (set_thread i Gone p)"
| looped: "thread_is i Looping p \<Longrightarrow> \<not> pl_stop p \<Longrightarrow> pool_step answer p (set_thread i Getting p)"
| taken: "thread_is i Getting p \<Longrightarrow> pl_queue p = Some t # q \<Longrightarrow>
    pool_step answer p (set_thread i (Turn t) (p\<lparr>pl_queue := q\<rparr>))"
| marker: "thread_is i Getting p \<Longrightarrow> pl_queue p = None # q \<Longrightarrow>
    pool_step answer p (set_thread i Gone (p\<lparr>pl_queue := q\<rparr>))"
| granted: "thread_is i (Turn t) p \<Longrightarrow> \<not> pl_stop p \<Longrightarrow> pool_step answer p (set_thread i (Reading t) p)"
| dropped: "thread_is i (Turn t) p \<Longrightarrow> pl_stop p \<Longrightarrow> pool_step answer p (set_thread i Gone p)"
| read_done: "thread_is i (Reading t) p \<Longrightarrow> answer t r \<Longrightarrow>
    pool_step answer p (set_thread i Looping (p\<lparr>pl_results := pl_results p @ [(t, r)]\<rparr>))"
| entered: "pl_phase p = Entering \<Longrightarrow> length (pl_ready p) = length (pl_threads p) \<Longrightarrow> True \<in> set (pl_ready p) \<Longrightarrow>
    pool_step answer p (p\<lparr>pl_start := True, pl_phase := Filling None\<rparr>)"
| refused: "pl_phase p = Entering \<Longrightarrow> pool_step answer p (close_pool p)"
| filled: "pl_phase p = Filling x \<Longrightarrow> pl_pending p = t # ts \<Longrightarrow> \<not> pl_stop p \<Longrightarrow>
    length (pl_queue p) < task_queue_size p \<Longrightarrow>
    pool_step answer p (p\<lparr>pl_queue := pl_queue p @ [Some t], pl_pending := ts\<rparr>)"
| full: "pl_phase p = Filling x \<Longrightarrow> pl_pending p = [] \<or> pl_stop p \<or> task_queue_size p \<le> length (pl_queue p) \<Longrightarrow>
    pool_step answer p (p\<lparr>pl_phase := Consuming,
      pl_yielded := pl_yielded p @ (case x of Some r \<Rightarrow> [r] | None \<Rightarrow> [])\<rparr>)"
| received: "pl_phase p = Consuming \<Longrightarrow> \<not> pl_stop p \<Longrightarrow> length (pl_yielded p) < length (pl_tasks p) \<Longrightarrow>
    pl_results p = r # rs \<Longrightarrow>
    pool_step answer p (p\<lparr>pl_results := rs, pl_phase := Filling (Some r)\<rparr>)"
| cancelled: "pl_phase p = Consuming \<Longrightarrow> pool_step answer p (p\<lparr>pl_stop := True\<rparr>)"
| closed: "pl_phase p = Consuming \<Longrightarrow> pool_step answer p (close_pool p)"

section \<open>The specification\<close>

record ('a, 'r) delivery =
  dv_open :: "'a multiset"
  dv_done :: "('a \<times> 'r) multiset"
  dv_out :: "('a \<times> 'r) list"
  dv_stopped :: bool

inductive delivery_step :: "('a \<Rightarrow> 'r \<Rightarrow> bool) \<Rightarrow> ('a, 'r) delivery \<Rightarrow> ('a, 'r) delivery \<Rightarrow> bool" for answer where
  answered: "t \<in># dv_open s \<Longrightarrow> answer t r \<Longrightarrow>
    delivery_step answer s (s\<lparr>dv_open := dv_open s - {#t#}, dv_done := dv_done s + {#(t, r)#}\<rparr>)"
| delivered: "x \<in># dv_done s \<Longrightarrow>
    delivery_step answer s (s\<lparr>dv_done := dv_done s - {#x#}, dv_out := dv_out s @ [x]\<rparr>)"
| stop: "delivery_step answer s (s\<lparr>dv_stopped := True\<rparr>)"
| lost: "t \<in># dv_open s \<Longrightarrow> dv_stopped s \<Longrightarrow> delivery_step answer s (s\<lparr>dv_open := dv_open s - {#t#}\<rparr>)"

section \<open>The pool refines it\<close>

fun hand :: "'a detail_thread \<Rightarrow> 'a list" where
  "hand (Turn t) = [t]"
| "hand (Reading t) = [t]"
| "hand _ = []"

definition in_hand :: "('a, 'r) pool \<Rightarrow> 'a multiset" where
  "in_hand p = mset (concat (map hand (pl_threads p)))"

definition queued_tasks :: "('a, 'r) pool \<Rightarrow> 'a multiset" where
  "queued_tasks p = mset (List.map_filter id (pl_queue p))"

definition received_result :: "('a, 'r) pool \<Rightarrow> ('a \<times> 'r) list" where
  "received_result p = (case pl_phase p of Filling (Some r) \<Rightarrow> [r] | _ \<Rightarrow> [])"

definition delivery_of :: "('a, 'r) pool \<Rightarrow> ('a, 'r) delivery" where
  "delivery_of p = \<lparr>dv_open = mset (pl_pending p) + queued_tasks p + in_hand p,
     dv_done = mset (pl_results p) + mset (received_result p), dv_out = pl_yielded p, dv_stopped = pl_stop p\<rparr>"

lemma mset_concat_update:
  "i < length xs \<Longrightarrow> mset (concat (map f (xs[i := x]))) + mset (f (xs ! i)) = mset (concat (map f xs)) + mset (f x)"
proof (induction xs arbitrary: i)
  case Nil
  then show ?case by simp
next
  case (Cons y ys)
  then show ?case by (cases i) (simp_all add: add.assoc)
qed

lemma in_hand_set_thread:
  assumes "thread_is i w p"
  shows "in_hand (set_thread i w' p) + mset (hand w) = in_hand p + mset (hand w')"
  using mset_concat_update [of i "pl_threads p" hand w'] assms
  by (simp add: in_hand_def set_thread_def thread_is_def)

lemma set_thread_fields [simp]:
  "pl_tasks (set_thread i w p) = pl_tasks p" "pl_pending (set_thread i w p) = pl_pending p"
  "pl_queue (set_thread i w p) = pl_queue p" "pl_results (set_thread i w p) = pl_results p"
  "pl_start (set_thread i w p) = pl_start p" "pl_stop (set_thread i w p) = pl_stop p"
  "pl_phase (set_thread i w p) = pl_phase p" "pl_yielded (set_thread i w p) = pl_yielded p"
  "pl_ready (set_thread i w p) = pl_ready p" "length (pl_threads (set_thread i w p)) = length (pl_threads p)"
  by (simp_all add: set_thread_def)

lemma in_hand_tables:
  "in_hand (p\<lparr>pl_queue := q\<rparr>) = in_hand p" "in_hand (p\<lparr>pl_results := rs\<rparr>) = in_hand p"
  "in_hand (p\<lparr>pl_ready := b\<rparr>) = in_hand p"
  by (simp_all add: in_hand_def)

lemma thread_is_tables [simp]:
  "thread_is i w (p\<lparr>pl_queue := q\<rparr>) = thread_is i w p" "thread_is i w (p\<lparr>pl_results := rs\<rparr>) = thread_is i w p"
  "thread_is i w (p\<lparr>pl_ready := b\<rparr>) = thread_is i w p"
  by (simp_all add: thread_is_def)

lemma delivery_of_idle:
  assumes "thread_is i w p" "hand w = []" "hand w' = []"
  shows "delivery_of (set_thread i w' p) = delivery_of p"
  using in_hand_set_thread [OF assms(1), of w'] assms(2,3)
  by (simp add: delivery_of_def queued_tasks_def received_result_def)

lemma queued_tasks_Cons: "pl_queue p = x # q \<Longrightarrow>
    queued_tasks p = queued_tasks (p\<lparr>pl_queue := q\<rparr>) + (case x of Some t \<Rightarrow> {#t#} | None \<Rightarrow> {#})"
  by (cases x) (simp_all add: queued_tasks_def map_filter_simps)

lemma map_filter_append: "List.map_filter f (xs @ ys) = List.map_filter f xs @ List.map_filter f ys"
  by (simp add: List.map_filter_def)

lemma queued_markers: "List.map_filter id (replicate n None) = []"
  by (simp add: List.map_filter_def)

text \<open>The simulation: each step of the pool is a step of the specification or changes nothing of it.\<close>

lemma pool_step_refines:
  assumes "pool_step answer p p'"
  shows "delivery_of p' = delivery_of p \<or> delivery_step answer (delivery_of p) (delivery_of p')"
  using assms
proof cases
  case (opened i)
  have "delivery_of (p\<lparr>pl_ready := b\<rparr>) = delivery_of p" for b
    by (simp add: delivery_of_def in_hand_tables queued_tasks_def received_result_def)
  then show ?thesis using opened delivery_of_idle [of i Starting "p\<lparr>pl_ready := pl_ready p @ [True]\<rparr>" Waiting] by simp
next
  case (failed i)
  have "delivery_of (p\<lparr>pl_ready := b\<rparr>) = delivery_of p" for b
    by (simp add: delivery_of_def in_hand_tables queued_tasks_def received_result_def)
  then show ?thesis using failed delivery_of_idle [of i Starting "p\<lparr>pl_ready := pl_ready p @ [False]\<rparr>" Gone] by simp
next
  case (released i)
  then show ?thesis by (simp add: delivery_of_idle)
next
  case (stopped i)
  then show ?thesis by (simp add: delivery_of_idle)
next
  case (looped i)
  then show ?thesis by (simp add: delivery_of_idle)
next
  case (taken i t q)
  have "in_hand p' = in_hand p + {#t#}"
    using in_hand_set_thread [of i Getting "p\<lparr>pl_queue := q\<rparr>" "Turn t"] taken by (simp add: in_hand_tables)
  then have "delivery_of p' = delivery_of p"
    using queued_tasks_Cons [OF taken(3)]
    by (simp add: taken(1) delivery_of_def received_result_def) (simp add: queued_tasks_def)
  then show ?thesis ..
next
  case (marker i q)
  have "in_hand p' = in_hand p"
    using in_hand_set_thread [of i Getting "p\<lparr>pl_queue := q\<rparr>" Gone] marker by (simp add: in_hand_tables)
  then have "delivery_of p' = delivery_of p"
    using queued_tasks_Cons [OF marker(3)]
    by (simp add: marker(1) delivery_of_def received_result_def) (simp add: queued_tasks_def)
  then show ?thesis ..
next
  case (granted i t)
  have "in_hand p' = in_hand p" using in_hand_set_thread [OF granted(2), of "Reading t"] granted(1) by simp
  then show ?thesis by (simp add: granted(1) delivery_of_def received_result_def queued_tasks_def)
next
  case (dropped i t)
  have h: "in_hand p = in_hand p' + {#t#}" using in_hand_set_thread [OF dropped(2), of Gone] dropped(1) by simp
  then have "delivery_of p' = (delivery_of p)\<lparr>dv_open := dv_open (delivery_of p) - {#t#}\<rparr>"
    by (simp add: dropped(1) delivery_of_def received_result_def queued_tasks_def)
  moreover have "t \<in># dv_open (delivery_of p)" "dv_stopped (delivery_of p)"
    using h dropped(3) by (simp_all add: delivery_of_def)
  ultimately show ?thesis using delivery_step.lost by metis
next
  case (read_done i t r)
  have h: "in_hand p = in_hand p' + {#t#}"
    using in_hand_set_thread [of i "Reading t" "p\<lparr>pl_results := pl_results p @ [(t, r)]\<rparr>" Looping] read_done
    by (simp add: in_hand_tables)
  then have "delivery_of p' = (delivery_of p)\<lparr>dv_open := dv_open (delivery_of p) - {#t#},
      dv_done := dv_done (delivery_of p) + {#(t, r)#}\<rparr>"
    by (simp add: read_done(1) delivery_of_def received_result_def queued_tasks_def)
  moreover have "t \<in># dv_open (delivery_of p)" using h by (simp add: delivery_of_def)
  ultimately show ?thesis using delivery_step.answered [of t "delivery_of p" answer r] read_done(3) by metis
next
  case entered
  then show ?thesis by (simp add: delivery_of_def received_result_def queued_tasks_def in_hand_def)
next
  case refused
  then have "delivery_of p' = (delivery_of p)\<lparr>dv_stopped := True\<rparr>"
    by (simp add: delivery_of_def close_pool_def received_result_def queued_tasks_def in_hand_def map_filter_append
        queued_markers)
  then show ?thesis using delivery_step.stop by metis
next
  case (filled x t ts)
  then show ?thesis
    by (simp add: delivery_of_def received_result_def queued_tasks_def in_hand_def map_filter_append map_filter_simps
        split: option.split)
next
  case (full x)
  show ?thesis
  proof (cases x)
    case None
    then show ?thesis using full by (simp add: delivery_of_def received_result_def queued_tasks_def in_hand_def)
  next
    case (Some r)
    then have "delivery_of p' = (delivery_of p)\<lparr>dv_done := dv_done (delivery_of p) - {#r#},
        dv_out := dv_out (delivery_of p) @ [r]\<rparr>" "r \<in># dv_done (delivery_of p)"
      using full by (simp_all add: delivery_of_def received_result_def queued_tasks_def in_hand_def)
    then show ?thesis using delivery_step.delivered by metis
  qed
next
  case (received r rs)
  then show ?thesis by (simp add: delivery_of_def received_result_def queued_tasks_def in_hand_def)
next
  case cancelled
  then have "delivery_of p' = (delivery_of p)\<lparr>dv_stopped := True\<rparr>"
    by (simp add: delivery_of_def received_result_def queued_tasks_def in_hand_def)
  then show ?thesis using delivery_step.stop by metis
next
  case closed
  then have "delivery_of p' = (delivery_of p)\<lparr>dv_stopped := True\<rparr>"
    by (simp add: delivery_of_def close_pool_def received_result_def queued_tasks_def in_hand_def map_filter_append
        queued_markers)
  then show ?thesis using delivery_step.stop by metis
qed

section \<open>What the coordinator reads\<close>

definition delivery_ok :: "('a \<Rightarrow> 'r \<Rightarrow> bool) \<Rightarrow> 'a list \<Rightarrow> ('a, 'r) delivery \<Rightarrow> bool" where
  "delivery_ok answer tasks s \<longleftrightarrow>
     (let seen = image_mset fst (dv_done s) + mset (map fst (dv_out s)) + dv_open s
      in seen \<subseteq># mset tasks \<and> (\<not> dv_stopped s \<longrightarrow> seen = mset tasks)) \<and>
     (\<forall>x \<in># dv_done s. answer (fst x) (snd x)) \<and> (\<forall>x \<in> set (dv_out s). answer (fst x) (snd x))"

lemma delivery_step_ok: "delivery_step answer s s' \<Longrightarrow> delivery_ok answer tasks s \<Longrightarrow> delivery_ok answer tasks s'"
proof (induction rule: delivery_step.induct)
  case (answered t s r)
  then obtain M where "dv_open s = add_mset t M" by (meson multi_member_split)
  with answered show ?case by (auto simp: delivery_ok_def Let_def)
next
  case (delivered x s)
  then obtain M where "dv_done s = add_mset x M" by (meson multi_member_split)
  with delivered show ?case by (auto simp: delivery_ok_def Let_def)
next
  case (stop s)
  then show ?case by (auto simp: delivery_ok_def Let_def)
next
  case (lost t s)
  then obtain M where M: "dv_open s = add_mset t M" by (meson multi_member_split)
  have "A + M \<subseteq># B" if "add_mset t (A + M) \<subseteq># B" for A B :: "'a multiset"
    using that by (meson mset_subset_eq_insertD subset_mset.less_imp_le)
  with lost M show ?case by (auto simp: delivery_ok_def Let_def)
qed

lemma delivery_of_new: "delivery_of (new_pool n tasks) =
    \<lparr>dv_open = mset tasks, dv_done = {#}, dv_out = [], dv_stopped = False\<rparr>"
proof -
  have "concat (map hand (replicate m Starting)) = []" for m by (induction m) simp_all
  then show ?thesis
    by (simp add: delivery_of_def new_pool_def in_hand_def queued_tasks_def received_result_def map_filter_simps)
qed

lemma pool_steps_refine:
  "(pool_step answer)\<^sup>*\<^sup>* p p' \<Longrightarrow> (delivery_step answer)\<^sup>*\<^sup>* (delivery_of p) (delivery_of p')"
  by (induction rule: rtranclp_induct) (auto dest: pool_step_refines intro: rtranclp.rtrancl_into_rtrancl)

lemma pool_delivery_ok:
  assumes "(pool_step answer)\<^sup>*\<^sup>* (new_pool n tasks) p"
  shows "delivery_ok answer tasks (delivery_of p)"
proof -
  have "delivery_ok answer tasks (delivery_of (new_pool n tasks))"
    by (simp add: delivery_of_new delivery_ok_def)
  with pool_steps_refine [OF assms] show ?thesis
    by (induction rule: rtranclp_induct) (auto intro: delivery_step_ok)
qed

lemma deliver_prefix: "mset xs \<subseteq># mset ys \<Longrightarrow> \<exists>order. take (length xs) (deliver order ys) = xs"
proof (induction xs arbitrary: ys)
  case Nil
  then show ?case by simp
next
  case (Cons x xs)
  then have "x \<in> set ys" by (metis insert_subset list.simps(15) set_mset_mono set_mset_mset)
  then obtain k where k: "k < length ys" "ys ! k = x" by (auto simp: in_set_conv_nth)
  let ?ys = "take k ys @ drop (Suc k) ys"
  have "mset ys = add_mset x (mset ?ys)"
    using arg_cong [OF id_take_nth_drop [OF k(1)], of mset] k(2) by simp
  then have "mset xs \<subseteq># mset ?ys" using Cons.prems by simp
  from Cons.IH [OF this] obtain order where "take (length xs) (deliver order ?ys) = xs" by blast
  then show ?case using k by (intro exI [of _ "k # order"]) (auto simp: Let_def)
qed

text \<open>C25: the pool of threads, however its threads and the coordinator interleave, fail, are cancelled or closed,
  refines the bag of tasks: each of its steps is a step of the bag or changes nothing of it. What the
  coordinator has read is therefore the beginning of the tasks delivered in some order, each at most once,
  with an answer of its own page.\<close>

theorem pool_refines_delivery:
  assumes "(pool_step answer)\<^sup>*\<^sup>* (new_pool workers tasks) p"
  shows "(delivery_step answer)\<^sup>*\<^sup>* \<lparr>dv_open = mset tasks, dv_done = {#}, dv_out = [], dv_stopped = False\<rparr> (delivery_of p) \<and>
    (\<exists>order. map fst (pl_yielded p) = take (length (pl_yielded p)) (deliver order tasks)) \<and>
    list_all (\<lambda>(t, r). answer t r) (pl_yielded p)"
proof -
  have ok: "delivery_ok answer tasks (delivery_of p)" by (rule pool_delivery_ok [OF assms])
  then have "mset (map fst (pl_yielded p)) \<subseteq># mset tasks"
    unfolding delivery_ok_def Let_def delivery_of_def
    by simp (meson mset_subset_eq_add_left mset_subset_eq_add_right subset_mset.order_trans)
  from deliver_prefix [OF this] have "\<exists>order. map fst (pl_yielded p) = take (length (pl_yielded p)) (deliver order tasks)"
    by (metis length_map)
  moreover have "list_all (\<lambda>(t, r). answer t r) (pl_yielded p)"
    using ok by (auto simp: delivery_ok_def delivery_of_def list_all_iff)
  ultimately show ?thesis using pool_steps_refine [OF assms] by (simp add: delivery_of_new)
qed

section \<open>Nothing is left behind\<close>

fun live :: "'a detail_thread \<Rightarrow> bool" where
  "live Starting = False"
| "live Gone = False"
| "live _ = True"

definition live_thread :: "('a, 'r) pool \<Rightarrow> bool" where
  "live_thread p \<longleftrightarrow> (\<exists>i w. thread_is i w p \<and> live w)"

lemma thread_is_set:
  "thread_is j w' (set_thread i w p) \<longleftrightarrow> j < length (pl_threads p) \<and> (if j = i then w' = w else thread_is j w' p)"
  by (auto simp: thread_is_def set_thread_def nth_list_update)

lemma set_thread_is: "thread_is i w p \<Longrightarrow> thread_is i w' (set_thread i w' p)"
  by (simp add: thread_is_def set_thread_def)

lemma live_opened: "thread_is i w p \<Longrightarrow> live w' \<Longrightarrow> live_thread (set_thread i w' p)"
  using set_thread_is by (fastforce simp: live_thread_def)

lemma live_set_thread:
  assumes "thread_is i w p" and "live w \<Longrightarrow> live w'" and "live_thread p"
  shows "live_thread (set_thread i w' p)"
proof -
  obtain j v where j: "thread_is j v p" "live v" using assms(3) by (auto simp: live_thread_def)
  then show ?thesis
  proof (cases "j = i")
    case True
    then have "v = w" using j(1) assms(1) by (simp add: thread_is_def)
    then show ?thesis using live_opened [OF assms(1)] assms(2) j(2) by blast
  next
    case False
    then have "thread_is j v (set_thread i w' p)" using j by (simp add: thread_is_def set_thread_def)
    then show ?thesis using j(2) by (auto simp: live_thread_def)
  qed
qed

definition pool_ok :: "('a, 'r) pool \<Rightarrow> bool" where
  "pool_ok p \<longleftrightarrow> pl_threads p \<noteq> [] \<and> None \<notin> set (pl_queue p) \<and> pl_phase p \<noteq> Closed \<and>
     (True \<in> set (pl_ready p) \<longrightarrow> live_thread p) \<and>
     (pl_phase p \<noteq> Entering \<longrightarrow> pl_start p \<and> True \<in> set (pl_ready p)) \<and>
     (pl_phase p = Consuming \<and> pl_pending p \<noteq> [] \<longrightarrow>
        task_queue_size p \<le> length (pl_queue p) + size (in_hand p) + length (pl_results p))"

text \<open>A step that does not stop the pool.\<close>

definition running_step :: "('a \<Rightarrow> 'r \<Rightarrow> bool) \<Rightarrow> ('a, 'r) pool \<Rightarrow> ('a, 'r) pool \<Rightarrow> bool" where
  "running_step answer p p' \<longleftrightarrow> pool_step answer p p' \<and> \<not> pl_stop p'"

lemma size_in_hand_set_thread:
  "thread_is i w p \<Longrightarrow> size (in_hand (set_thread i w' p)) + length (hand w) = size (in_hand p) + length (hand w')"
  using arg_cong [OF in_hand_set_thread [of i w p w'], of size] by simp

lemma live_thread_tables [simp]:
  "live_thread (p\<lparr>pl_queue := q\<rparr>) = live_thread p" "live_thread (p\<lparr>pl_results := rs\<rparr>) = live_thread p"
  "live_thread (p\<lparr>pl_ready := b\<rparr>) = live_thread p" "live_thread (p\<lparr>pl_start := st\<rparr>) = live_thread p"
  "live_thread (p\<lparr>pl_phase := ph\<rparr>) = live_thread p" "live_thread (p\<lparr>pl_pending := ts\<rparr>) = live_thread p"
  "live_thread (p\<lparr>pl_yielded := ys\<rparr>) = live_thread p"
  by (simp_all add: live_thread_def thread_is_def)

lemma queue_size_set_thread [simp]: "task_queue_size (set_thread i w p) = task_queue_size p"
  by (simp add: task_queue_size_def)

text \<open>The invariant of a pool that is not stopped.\<close>

lemma pool_ok_new: "pool_ok (new_pool n tasks)"
  by (simp add: pool_ok_def new_pool_def pool_size_def)

lemma pool_ok_step:
  assumes "pool_step answer p p'" and "\<not> pl_stop p'" and "pool_ok p"
  shows "pool_ok p'"
  using assms(1)
proof cases
  case (opened i)
  have "live_thread p'" unfolding opened(1) by (rule live_opened [of i Starting]) (simp_all add: opened)
  moreover have "size (in_hand p') = size (in_hand p)"
    using size_in_hand_set_thread [of i Starting "p\<lparr>pl_ready := pl_ready p @ [True]\<rparr>" Waiting] opened
    by (simp add: in_hand_tables)
  ultimately show ?thesis
    using assms(3) by (auto simp: pool_ok_def opened(1) set_thread_def task_queue_size_def)
next
  case (failed i)
  have "live_thread p'" if "live_thread p"
    unfolding failed(1) using that failed(2) by (intro live_set_thread [of i Starting]) simp_all
  moreover have "size (in_hand p') = size (in_hand p)"
    using size_in_hand_set_thread [of i Starting "p\<lparr>pl_ready := pl_ready p @ [False]\<rparr>" Gone] failed
    by (simp add: in_hand_tables)
  ultimately show ?thesis
    using assms(3) by (auto simp: pool_ok_def failed(1) set_thread_def task_queue_size_def)
next
  case (released i)
  have "live_thread p'" unfolding released(1) by (rule live_opened [OF released(2)]) simp
  moreover have "size (in_hand p') = size (in_hand p)"
    using size_in_hand_set_thread [OF released(2), of Looping] by (simp add: released(1))
  ultimately show ?thesis
    using assms(3) by (auto simp: pool_ok_def released(1) set_thread_def task_queue_size_def)
next
  case (looped i)
  have "live_thread p'" unfolding looped(1) by (rule live_opened [OF looped(2)]) simp
  moreover have "size (in_hand p') = size (in_hand p)"
    using size_in_hand_set_thread [OF looped(2), of Getting] by (simp add: looped(1))
  ultimately show ?thesis
    using assms(3) by (auto simp: pool_ok_def looped(1) set_thread_def task_queue_size_def)
next
  case (taken i t q)
  have "live_thread p'" unfolding taken(1) by (rule live_opened [of i Getting]) (simp_all add: taken)
  moreover have "size (in_hand p') = size (in_hand p) + 1"
    using size_in_hand_set_thread [of i Getting "p\<lparr>pl_queue := q\<rparr>" "Turn t"] taken by (simp add: in_hand_tables)
  ultimately show ?thesis
    using assms(3) by (auto simp: pool_ok_def taken set_thread_def task_queue_size_def)
next
  case (granted i t)
  have "live_thread p'" unfolding granted(1) by (rule live_opened [OF granted(2)]) simp
  moreover have "size (in_hand p') = size (in_hand p)"
    using size_in_hand_set_thread [OF granted(2), of "Reading t"] by (simp add: granted(1))
  ultimately show ?thesis
    using assms(3) by (auto simp: pool_ok_def granted(1) set_thread_def task_queue_size_def)
next
  case (read_done i t r)
  have "live_thread p'" unfolding read_done(1) by (rule live_opened [of i "Reading t"]) (simp_all add: read_done)
  moreover have "size (in_hand p') + 1 = size (in_hand p)"
    using size_in_hand_set_thread [of i "Reading t" "p\<lparr>pl_results := pl_results p @ [(t, r)]\<rparr>" Looping] read_done
    by (simp add: in_hand_tables)
  ultimately show ?thesis
    using assms(3) by (auto simp: pool_ok_def read_done(1) set_thread_def task_queue_size_def)
qed (use assms(2,3) in \<open>auto simp: pool_ok_def close_pool_def task_queue_size_def in_hand_def live_thread_def thread_is_def\<close>)

text \<open>What is left to do; every step that does not stop the pool does some of it.\<close>

fun thread_work :: "'a detail_thread \<Rightarrow> nat" where
  "thread_work Starting = 3"
| "thread_work Waiting = 2"
| "thread_work Looping = 1"
| "thread_work (Turn t) = 5"
| "thread_work (Reading t) = 4"
| "thread_work _ = 0"

fun phase_work :: "('a, 'r) coordinator \<Rightarrow> nat" where
  "phase_work Entering = 2"
| "phase_work (Filling x) = 1"
| "phase_work _ = 0"

definition pool_work :: "('a, 'r) pool \<Rightarrow> nat" where
  "pool_work p = sum_list (map thread_work (pl_threads p)) + 8 * length (pl_pending p) + 7 * length (pl_queue p) +
     2 * length (pl_results p) + phase_work (pl_phase p)"

lemma sum_list_update:
  "i < length xs \<Longrightarrow> sum_list (map f (xs[i := x])) + f (xs ! i) = sum_list (map f xs) + (f x :: nat)"
proof (induction xs arbitrary: i)
  case Nil
  then show ?case by simp
next
  case (Cons y ys)
  then show ?case by (cases i) simp_all
qed

lemma thread_work_set_thread:
  "thread_is i w p \<Longrightarrow>
     sum_list (map thread_work (pl_threads (set_thread i w' p))) + thread_work w =
     sum_list (map thread_work (pl_threads p)) + thread_work w'"
  using sum_list_update [of i "pl_threads p" thread_work w'] by (simp add: set_thread_def thread_is_def)

lemma pool_work_decreases:
  assumes "pool_step answer p p'" and "\<not> pl_stop p'"
  shows "pool_work p' < pool_work p"
  using assms(1)
proof cases
  case (opened i)
  then show ?thesis
    using thread_work_set_thread [of i Starting "p\<lparr>pl_ready := pl_ready p @ [True]\<rparr>" Waiting] by (simp add: pool_work_def)
next
  case (failed i)
  then show ?thesis
    using thread_work_set_thread [of i Starting "p\<lparr>pl_ready := pl_ready p @ [False]\<rparr>" Gone] by (simp add: pool_work_def)
next
  case (released i)
  then show ?thesis using thread_work_set_thread [OF released(2), of Looping] by (simp add: pool_work_def)
next
  case (looped i)
  then show ?thesis using thread_work_set_thread [OF looped(2), of Getting] by (simp add: pool_work_def)
next
  case (taken i t q)
  then show ?thesis
    using thread_work_set_thread [of i Getting "p\<lparr>pl_queue := q\<rparr>" "Turn t"] by (simp add: pool_work_def)
next
  case (marker i q)
  then show ?thesis
    using thread_work_set_thread [of i Getting "p\<lparr>pl_queue := q\<rparr>" Gone] by (simp add: pool_work_def)
next
  case (granted i t)
  then show ?thesis using thread_work_set_thread [OF granted(2), of "Reading t"] by (simp add: pool_work_def)
next
  case (read_done i t r)
  then show ?thesis
    using thread_work_set_thread [of i "Reading t" "p\<lparr>pl_results := pl_results p @ [(t, r)]\<rparr>" Looping]
    by (simp add: pool_work_def)
qed (use assms(2) in \<open>auto simp: pool_work_def close_pool_def\<close>)

lemma in_hand_thread: "in_hand p \<noteq> {#} \<Longrightarrow> \<exists>i t. thread_is i (Turn t) p \<or> thread_is i (Reading t) p"
proof -
  assume "in_hand p \<noteq> {#}"
  then obtain w where w: "w \<in> set (pl_threads p)" "hand w \<noteq> []" by (auto simp: in_hand_def)
  then obtain i where "thread_is i w p" by (auto simp: thread_is_def in_set_conv_nth)
  with w(2) show ?thesis by (cases w) auto
qed

lemma running_stepI: "pool_step answer p p' \<Longrightarrow> \<not> pl_stop p' \<Longrightarrow> \<exists>p'. running_step answer p p'"
  by (auto simp: running_step_def)

lemma thread_moves:
  assumes "thread_is i w p" "live w" "\<not> pl_stop p" "pl_start p" "w = Getting \<Longrightarrow> pl_queue p \<noteq> []"
    and "\<And>t. \<exists>r. answer t r"
  shows "\<exists>p'. running_step answer p p'"
proof (cases w)
  case Waiting
  then show ?thesis using running_stepI [OF pool_step.released, of i p answer] assms by simp
next
  case Looping
  then show ?thesis using running_stepI [OF pool_step.looped, of i p answer] assms by simp
next
  case Getting
  then obtain x q where q: "pl_queue p = x # q" using assms(5) by (cases "pl_queue p") auto
  then show ?thesis
    using running_stepI [OF pool_step.taken, of i p _ q answer] running_stepI [OF pool_step.marker, of i p q answer]
      Getting assms(1,3) by (cases x) simp_all
next
  case (Turn t)
  then show ?thesis using running_stepI [OF pool_step.granted, of i t p answer] assms by simp
next
  case (Reading t)
  then obtain r where "answer t r" using assms(6) by blast
  then show ?thesis using running_stepI [OF pool_step.read_done, of i t p answer r] Reading assms by simp
qed (use assms(2) in simp_all)

lemma pool_moves:
  assumes ok: "pool_ok p" and "\<not> pl_stop p" "pl_phase p \<noteq> Entering" "length (pl_yielded p) < length (pl_tasks p)"
    and left: "pl_pending p = [] \<Longrightarrow> pl_results p = [] \<Longrightarrow> pl_phase p = Consuming \<Longrightarrow> in_hand p = {#} \<Longrightarrow> pl_queue p \<noteq> []"
    and answers: "\<And>t. \<exists>r. answer t r"
  shows "\<exists>p'. running_step answer p p'"
proof (cases "pl_phase p")
  case (Filling x)
  show ?thesis
  proof (cases "pl_pending p = [] \<or> task_queue_size p \<le> length (pl_queue p)")
    case True
    then show ?thesis using running_stepI [OF pool_step.full, of p x answer] Filling assms(2) by auto
  next
    case False
    then obtain t ts where "pl_pending p = t # ts" by (cases "pl_pending p") auto
    then show ?thesis using running_stepI [OF pool_step.filled, of p x t ts answer] Filling assms(2) False by simp
  qed
next
  case Consuming
  have start: "pl_start p" and "live_thread p" using ok Consuming by (auto simp: pool_ok_def)
  then obtain i w where w: "thread_is i w p" "live w" by (auto simp: live_thread_def)
  show ?thesis
  proof (cases "pl_results p = []")
    case False
    then obtain r rs where "pl_results p = r # rs" by (cases "pl_results p") auto
    then show ?thesis using running_stepI [OF pool_step.received, of p r rs answer] Consuming assms(2,4) by simp
  next
    case True
    show ?thesis
    proof (cases "in_hand p = {#}")
      case False
      then obtain j t where "thread_is j (Turn t) p \<or> thread_is j (Reading t) p" using in_hand_thread by blast
      then show ?thesis using thread_moves [of j _ p answer] assms(2) start answers by fastforce
    next
      case none: True
      have "pl_queue p \<noteq> []"
      proof (cases "pl_pending p = []")
        case True
        then show ?thesis using left \<open>pl_results p = []\<close> Consuming none by blast
      next
        case False
        then have "task_queue_size p \<le> length (pl_queue p)" "pl_threads p \<noteq> []"
          using ok Consuming none \<open>pl_results p = []\<close> by (auto simp: pool_ok_def)
        then show ?thesis by (auto simp: task_queue_size_def)
      qed
      then show ?thesis using thread_moves [OF w assms(2) start] answers by blast
    qed
  qed
qed (use assms(1,3) in \<open>auto simp: pool_ok_def\<close>)

lemma running_steps:
  assumes "(running_step answer)\<^sup>*\<^sup>* (new_pool n tasks) p"
  shows "(pool_step answer)\<^sup>*\<^sup>* (new_pool n tasks) p \<and> pool_ok p \<and> \<not> pl_stop p \<and> pl_tasks p = tasks"
  using assms
proof (induction rule: rtranclp_induct)
  case base
  then show ?case by (simp add: pool_ok_new) (simp add: new_pool_def)
next
  case (step p p')
  then have s: "pool_step answer p p'" "\<not> pl_stop p'" by (simp_all add: running_step_def)
  moreover have "pl_tasks p' = pl_tasks p" using s(1) by cases (simp_all add: close_pool_def)
  ultimately show ?case using step.IH pool_ok_step [OF s] by (auto intro: rtranclp.rtrancl_into_rtrancl)
qed

lemma all_delivered:
  assumes "(running_step answer)\<^sup>*\<^sup>* (new_pool n tasks) p" and "\<nexists>p'. running_step answer p p'"
    and "pl_phase p \<noteq> Entering" and "\<And>t. \<exists>r. answer t r"
  shows "mset (map fst (pl_yielded p)) = mset tasks"
proof -
  have p: "(pool_step answer)\<^sup>*\<^sup>* (new_pool n tasks) p" "pool_ok p" "\<not> pl_stop p" "pl_tasks p = tasks"
    using running_steps [OF assms(1)] by auto
  have total: "image_mset fst (mset (pl_results p) + mset (received_result p)) + mset (map fst (pl_yielded p)) +
      (mset (pl_pending p) + queued_tasks p + in_hand p) = mset tasks"
    using pool_delivery_ok [OF p(1)] p(3) by (simp add: delivery_ok_def Let_def delivery_of_def)
  have "\<not> length (pl_yielded p) < length tasks"
  proof
    assume less: "length (pl_yielded p) < length tasks"
    have "pl_queue p \<noteq> []" if "pl_pending p = []" "pl_results p = []" "pl_phase p = Consuming" "in_hand p = {#}"
    proof
      assume "pl_queue p = []"
      then have "mset (map fst (pl_yielded p)) = mset tasks"
        using total that by (simp add: queued_tasks_def received_result_def map_filter_simps)
      then show False using less by (metis length_map size_mset less_irrefl)
    qed
    then have "\<exists>p'. running_step answer p p'"
      using pool_moves [of p answer] p assms(3,4) less by blast
    then show False using assms(2) by blast
  qed
  moreover have "mset (map fst (pl_yielded p)) \<subseteq># mset tasks"
    unfolding total [symmetric] by (metis mset_subset_eq_add_left mset_subset_eq_add_right subset_mset.order_trans)
  ultimately show ?thesis
    by (metis (no_types, lifting) length_map mset_subset_size not_less size_mset subset_mset.less_le)
qed

lemma deliver_all: "mset xs = mset ys \<Longrightarrow> \<exists>order. xs = deliver order ys"
proof -
  assume eq: "mset xs = mset ys"
  have len: "length (deliver order zs) = length zs" for order and zs :: "'a list"
  proof (induction order zs rule: deliver.induct)
    case (2 i "is" xs)
    show ?case
    proof (cases "xs = []")
      case False
      define k where "k = i mod length xs"
      have "k < length xs" using False by (simp add: k_def)
      then show ?thesis using 2 False by (simp add: Let_def flip: k_def)
    qed simp
  qed simp
  obtain order where "take (length xs) (deliver order ys) = xs" using deliver_prefix [of xs ys] eq by auto
  then show ?thesis using len [of order ys] mset_eq_length [OF eq] by (metis le_refl take_all)
qed

text \<open>C26: unless the coordinator stops it, a pool whose threads came up finishes: no sequence of its steps is
  infinite (each one lowers the work left), it never blocks before everything is read, and then the
  coordinator has read every task exactly once, in some order.\<close>

theorem pool_delivers_everything:
  assumes "(running_step answer)\<^sup>*\<^sup>* (new_pool workers tasks) p" and "pl_phase p \<noteq> Entering"
    and "\<And>t. \<exists>r. answer t r"
  shows "(\<forall>p'. running_step answer p p' \<longrightarrow> pool_work p' < pool_work p) \<and>
    ((\<exists>p'. running_step answer p p') \<or> (\<exists>order. map fst (pl_yielded p) = deliver order tasks))"
proof (intro conjI allI impI)
  show "pool_work p' < pool_work p" if "running_step answer p p'" for p'
    using pool_work_decreases that by (auto simp: running_step_def)
  show "(\<exists>p'. running_step answer p p') \<or> (\<exists>order. map fst (pl_yielded p) = deliver order tasks)"
  proof (cases "\<exists>p'. running_step answer p p'")
    case False
    then have "mset (map fst (pl_yielded p)) = mset tasks" using all_delivered [OF assms(1) _ assms(2,3)] by blast
    then show ?thesis using deliver_all by blast
  qed simp
qed

section \<open>Starts are spaced\<close>

text \<open>The threads ask for their turns one after the other (the lock), each at a time \<open>now\<close> of its own; they start
  at that time plus the delay.\<close>

fun source_starts :: "time \<Rightarrow> time \<Rightarrow> time list \<Rightarrow> time list" where
  "source_starts interval next_start [] = []"
| "source_starts interval next_start (now # nows) =
     (let turn = source_turn interval now next_start in (now + fst turn) # source_starts interval (snd turn) nows)"

lemma source_starts_spaced:
  "sorted_wrt (\<lambda>a b. a + interval \<le> b) (source_starts interval next_start nows) \<and>
   (\<forall>a \<in> set (source_starts interval next_start nows). next_start \<le> a)" if "0 \<le> interval"
  using that
proof (induction nows arbitrary: next_start)
  case Nil
  then show ?case by simp
next
  case (Cons now nows)
  let ?next = "max now next_start + interval"
  have start: "now + max 0 (next_start - now) = max now next_start" by simp
  have "\<forall>a \<in> set (source_starts interval ?next nows). ?next \<le> a" "sorted_wrt (\<lambda>a b. a + interval \<le> b) (source_starts interval ?next nows)"
    using Cons.IH [of ?next] Cons.prems by auto
  then show ?case using Cons.prems by (fastforce simp: source_turn_def Let_def start)
qed

section \<open>A sample run\<close>

definition one_pool ::
  "nat detail_thread \<Rightarrow> nat list \<Rightarrow> nat option list \<Rightarrow> (nat \<times> nat) list \<Rightarrow> bool list \<Rightarrow> (nat, nat) coordinator \<Rightarrow>
   (nat \<times> nat) list \<Rightarrow> (nat, nat) pool" where
  "one_pool w pending queue results ready phase out = \<lparr>pl_tasks = [5], pl_threads = [w], pl_pending = pending,
     pl_queue = queue, pl_results = results, pl_ready = ready, pl_start = (ready \<noteq> [] \<and> phase \<noteq> Entering), pl_stop = False,
     pl_phase = phase, pl_yielded = out\<rparr>"

lemmas one_pool_simps = one_pool_def thread_is_def set_thread_def task_queue_size_def running_step_def

lemma one_pool_run:
  "(running_step (\<lambda>t r. r = t + 1))\<^sup>*\<^sup>* (new_pool 1 [5]) (one_pool Looping [] [] [] [True] Consuming [(5, 6)])"
proof -
  let ?R = "running_step (\<lambda>t r. r = t + (1 :: nat))"
  have start: "new_pool 1 [5] = one_pool Starting [5] [] [] [] Entering []"
    by (simp add: new_pool_def pool_size_def one_pool_def)
  have s1: "?R (one_pool Starting [5] [] [] [] Entering []) (one_pool Waiting [5] [] [] [True] Entering [])"
    using pool_step.opened [of 0 "one_pool Starting [5] [] [] [] Entering []"] by (simp add: one_pool_simps)
  have s2: "?R (one_pool Waiting [5] [] [] [True] Entering []) (one_pool Waiting [5] [] [] [True] (Filling None) [])"
    using pool_step.entered [of "one_pool Waiting [5] [] [] [True] Entering []"] by (simp add: one_pool_simps)
  have s3: "?R (one_pool Waiting [5] [] [] [True] (Filling None) []) (one_pool Waiting [] [Some 5] [] [True] (Filling None) [])"
    using pool_step.filled [of "one_pool Waiting [5] [] [] [True] (Filling None) []" None 5 "[]"] by (simp add: one_pool_simps)
  have s4: "?R (one_pool Waiting [] [Some 5] [] [True] (Filling None) []) (one_pool Waiting [] [Some 5] [] [True] Consuming [])"
    using pool_step.full [of "one_pool Waiting [] [Some 5] [] [True] (Filling None) []" None] by (simp add: one_pool_simps)
  have s5: "?R (one_pool Waiting [] [Some 5] [] [True] Consuming []) (one_pool Looping [] [Some 5] [] [True] Consuming [])"
    using pool_step.released [of 0 "one_pool Waiting [] [Some 5] [] [True] Consuming []"] by (simp add: one_pool_simps)
  have s6: "?R (one_pool Looping [] [Some 5] [] [True] Consuming []) (one_pool Getting [] [Some 5] [] [True] Consuming [])"
    using pool_step.looped [of 0 "one_pool Looping [] [Some 5] [] [True] Consuming []"] by (simp add: one_pool_simps)
  have s7: "?R (one_pool Getting [] [Some 5] [] [True] Consuming []) (one_pool (Turn 5) [] [] [] [True] Consuming [])"
    using pool_step.taken [of 0 "one_pool Getting [] [Some 5] [] [True] Consuming []" 5 "[]"] by (simp add: one_pool_simps)
  have s8: "?R (one_pool (Turn 5) [] [] [] [True] Consuming []) (one_pool (Reading 5) [] [] [] [True] Consuming [])"
    using pool_step.granted [of 0 5 "one_pool (Turn 5) [] [] [] [True] Consuming []"] by (simp add: one_pool_simps)
  have s9: "?R (one_pool (Reading 5) [] [] [] [True] Consuming []) (one_pool Looping [] [] [(5, 6)] [True] Consuming [])"
    using pool_step.read_done [of 0 5 "one_pool (Reading 5) [] [] [] [True] Consuming []" "\<lambda>t r. r = t + 1" 6]
    by (simp add: one_pool_simps)
  have s10: "?R (one_pool Looping [] [] [(5, 6)] [True] Consuming []) (one_pool Looping [] [] [] [True] (Filling (Some (5, 6))) [])"
    using pool_step.received [of "one_pool Looping [] [] [(5, 6)] [True] Consuming []" "(5, 6)" "[]"] by (simp add: one_pool_simps)
  have s11: "?R (one_pool Looping [] [] [] [True] (Filling (Some (5, 6))) []) (one_pool Looping [] [] [] [True] Consuming [(5, 6)])"
    using pool_step.full [of "one_pool Looping [] [] [] [True] (Filling (Some (5, 6))) []" "Some (5, 6)"] by (simp add: one_pool_simps)
  note go = converse_rtranclp_into_rtranclp [where r = ?R]
  show ?thesis
    unfolding start
    by (rule go, rule s1, rule go, rule s2, rule go, rule s3, rule go, rule s4, rule go, rule s5,
       rule go, rule s6, rule go, rule s7, rule go, rule s8, rule go, rule s9, rule go, rule s10, rule go, rule s11, rule rtranclp.rtrancl_refl)
qed

lemma pool_refines_delivery_witness:
  "\<exists>order. [5 :: nat] = take 1 (deliver order [5])"
proof -
  have "(pool_step (\<lambda>t r. r = t + 1))\<^sup>*\<^sup>* (new_pool 1 [5]) (one_pool Looping [] [] [] [True] Consuming [(5, 6)])"
    using running_steps [OF one_pool_run] by blast
  from pool_refines_delivery [OF this] show ?thesis by (auto simp: one_pool_def)
qed

lemma pool_delivers_everything_witness:
  "(\<exists>p'. running_step (\<lambda>t r. r = t + 1) (one_pool Looping [] [] [] [True] Consuming [(5, 6)]) p') \<or>
   (\<exists>order. [5] = deliver order [5 :: nat])"
proof -
  have "pl_phase (one_pool Looping [] [] [] [True] Consuming [(5, 6)]) \<noteq> Entering" by (simp add: one_pool_def)
  from pool_delivers_everything [OF one_pool_run this] show ?thesis by (auto simp: one_pool_def)
qed

end
