(* ===== verification/License.thy ===== *)
theory License
  imports ExternalLinks PyStd
begin

text \<open>
  The offline licence of \<^verbatim>\<open>backend/app/desktop_license.py\<close>: a signed lease, a device binding and the record of
  the latest time the desktop has seen decide whether searches are allowed. Files are values of \<open>license_file\<close>;
  the Ed25519 verification and the parsing of foreign timestamps are arguments (fields of \<open>license_env\<close>). The
  times the code writes itself are \<open>JTime\<close> values.
\<close>

section \<open>Files and configuration\<close>

datatype license_file = Absent | Symlink | Too_Large | Unreadable | Document json

text \<open>\<open>None\<close> in an option is a setting that is not given; \<open>le_env_keys\<close> is \<open>Some None\<close> when it is not JSON.\<close>

record license_env =
  le_enforcement :: string
  le_config :: "license_file option"
  le_env_keys :: "json option option"
  le_key_file :: "license_file option"
  le_verify :: "string \<Rightarrow> string \<Rightarrow> string \<Rightarrow> bool"
  le_parse_time :: "string \<Rightarrow> time option"

record license_disk =
  li_binding :: license_file
  li_lease :: license_file
  li_trusted :: license_file

definition read_json :: "bool \<Rightarrow> license_file \<Rightarrow> string + dict" where
  "read_json required f =
     (case f of
        Symlink \<Rightarrow> Inl ''LICENSE_STATE_SYMLINK_NOT_ALLOWED''
      | Absent \<Rightarrow> if required then Inl ''LICENSE_NOT_CONFIGURED'' else Inr []
      | Too_Large \<Rightarrow> Inl ''LICENSE_STATE_TOO_LARGE''
      | Unreadable \<Rightarrow> Inl ''LICENSE_STATE_INVALID''
      | Document j \<Rightarrow> (case j of JObj d \<Rightarrow> Inr d | _ \<Rightarrow> Inl ''LICENSE_STATE_INVALID''))"

definition configured_license_document :: "license_env \<Rightarrow> string + dict" where
  "configured_license_document ev =
     (case le_config ev of
        None \<Rightarrow> Inr []
      | Some f \<Rightarrow> and_then (read_json True f) (\<lambda>d.
          if py_eq (dget d ''protocol_version'') (JInt 1) then Inr d else Inl ''LICENSE_CONFIG_INVALID''))"

text \<open>\<open>Inl\<close> is the exception that a broken configuration file raises.\<close>

definition enforcement_mode :: "license_env \<Rightarrow> string + string" where
  "enforcement_mode ev =
     (let raw = lower (strip (le_enforcement ev));
          mode = (\<lambda>raw. if raw \<in> {''1'', ''true'', ''required'', ''enforced''} then ''required'' else ''disabled'')
      in if raw \<noteq> [] then Inr (mode raw)
         else and_then (configured_license_document ev) (\<lambda>d.
           Inr (mode (lower (if has_key d ''enforcement'' then py_str (dget d ''enforcement'') else ''disabled'')))))"

definition string_map :: "json \<Rightarrow> (string \<times> string) list option" where
  "string_map j =
     (case j of
        JObj d \<Rightarrow> if list_all (\<lambda>(k, v). case v of JStr _ \<Rightarrow> True | _ \<Rightarrow> False) d
                  then Some (map (\<lambda>(k, v). (k, py_str v)) d) else None
      | _ \<Rightarrow> None)"

definition key_config_invalid :: string where
  "key_config_invalid = ''LICENSE_PUBLIC_KEY_CONFIG_INVALID''"

definition config_keys :: "license_env \<Rightarrow> string + (string \<times> string) list" where
  "config_keys ev = and_then (configured_license_document ev) (\<lambda>d.
     if truthy (dget d ''public_keys'')
     then (case string_map (dget d ''public_keys'') of Some ks \<Rightarrow> Inr ks | None \<Rightarrow> Inl key_config_invalid)
     else Inr [])"

definition env_keys :: "license_env \<Rightarrow> string + (string \<times> string) list" where
  "env_keys ev =
     (case le_env_keys ev of
        None \<Rightarrow> Inr []
      | Some None \<Rightarrow> Inl key_config_invalid
      | Some (Some j) \<Rightarrow> (case string_map j of Some ks \<Rightarrow> Inr ks | None \<Rightarrow> Inl key_config_invalid))"

definition file_keys :: "license_env \<Rightarrow> string + (string \<times> string) list" where
  "file_keys ev =
     (case le_key_file ev of
        None \<Rightarrow> Inr []
      | Some f \<Rightarrow> and_then (read_json True f) (\<lambda>d.
          case (dget d ''algorithm'', dget d ''key_id'', dget d ''public_key'') of
            (JStr a, JStr i, JStr k) \<Rightarrow> if a = ''Ed25519'' then Inr [(i, k)] else Inl key_config_invalid
          | _ \<Rightarrow> Inl key_config_invalid))"

text \<open>Later sources override earlier ones.\<close>

definition configured_public_keys :: "license_env \<Rightarrow> string + (string \<rightharpoonup> string)" where
  "configured_public_keys ev =
     and_then (config_keys ev) (\<lambda>a. and_then (env_keys ev) (\<lambda>b. and_then (file_keys ev) (\<lambda>c.
       Inr (map_of a ++ map_of b ++ map_of c))))"

section \<open>The signed document\<close>

text \<open>\<open>None\<close>: a number that is not whole.\<close>

function canonical_json :: "json \<Rightarrow> string option" where
  "canonical_json JNull = Some ''null''"
| "canonical_json (JBool b) = Some (if b then ''true'' else ''false'')"
| "canonical_json (JInt i) = Some (show_int i)"
| "canonical_json (JDec i) = (if i mod 100 = 0 then Some (show_int (i div 100)) else None)"
| "canonical_json (JStr s) = Some (json_string s)"
| "canonical_json (JTime t) = Some (json_string (isoformat t))"
| "canonical_json (JList xs) =
     (let ys = map canonical_json xs
      in if None \<in> set ys then None else Some (''['' @ join '','' (map the ys) @ '']''))"
| "canonical_json (JObj d) =
     (let ys = map (\<lambda>(k, v). map_option (\<lambda>s. json_string k @ '':'' @ s) (canonical_json v)) (sort_key fst d)
      in if None \<in> set ys then None else Some (''{'' @ join '','' (map the ys) @ ''}''))"
  by pat_completeness auto

termination
  by (relation "measure size") (auto simp: json_size_list dest: json_size_obj)

definition base64_char :: "char \<Rightarrow> bool" where
  "base64_char c \<longleftrightarrow> is_alpha c \<or> is_digit c \<or> c = CHR ''_'' \<or> c = CHR ''-''"

text \<open>\<^verbatim>\<open>_decode_base64url\<close>: whether the text decodes to the expected number of bytes.\<close>

definition decodes_to :: "nat \<Rightarrow> string \<Rightarrow> bool" where
  "decodes_to n v \<longleftrightarrow> v \<noteq> [] \<and> list_all base64_char v \<and> length v mod 4 \<noteq> 1 \<and> length v * 6 div 8 = n"

definition LEASE_MESSAGE_PREFIX :: string where
  "LEASE_MESSAGE_PREFIX = ''SEARCHCAR-LICENSE-LEASE-V1'' @ [CHR 0x0A]"

definition signed_ok :: "license_env \<Rightarrow> string \<Rightarrow> string \<Rightarrow> dict \<Rightarrow> string + dict" where
  "signed_ok ev public_key signature payload =
     and_then (check ''LICENSE_ENCODING_INVALID'' (decodes_to 32 public_key \<and> decodes_to 64 signature)) (\<lambda>_.
       case canonical_json (JObj payload) of
         None \<Rightarrow> Inl ''LICENSE_PAYLOAD_NUMBER_INVALID''
       | Some text \<Rightarrow>
           if le_verify ev public_key signature (LEASE_MESSAGE_PREFIX @ text) then Inr payload
           else Inl ''LICENSE_SIGNATURE_INVALID'')"

definition verify_lease_document :: "license_env \<Rightarrow> (string \<rightharpoonup> string) \<Rightarrow> dict \<Rightarrow> string + dict" where
  "verify_lease_document ev keys doc =
     (case (dget doc ''payload'', dget doc ''signature'') of
        (JObj payload, JStr signature) \<Rightarrow>
          if dget payload ''type'' \<noteq> JStr ''searchcar-license-lease'' \<or>
             \<not> py_eq (dget payload ''protocol_version'') (JInt 1)
          then Inl ''LICENSE_LEASE_PROTOCOL_INVALID''
          else (case dget payload ''key_id'' of
            JStr key_id \<Rightarrow>
              (case keys key_id of
                 Some public_key \<Rightarrow> signed_ok ev public_key signature payload
               | None \<Rightarrow> Inl ''LICENSE_SIGNING_KEY_UNKNOWN'')
          | _ \<Rightarrow> Inl ''LICENSE_SIGNING_KEY_UNKNOWN'')
      | _ \<Rightarrow> Inl ''LICENSE_LEASE_INVALID'')"

section \<open>Times\<close>

definition timestamp :: "license_env \<Rightarrow> json \<Rightarrow> string \<Rightarrow> string + time" where
  "timestamp ev j code =
     (case j of
        JTime t \<Rightarrow> Inr t
      | JStr s \<Rightarrow> if s = [] then Inl code else (case le_parse_time ev s of Some t \<Rightarrow> Inr t | None \<Rightarrow> Inl code)
      | _ \<Rightarrow> Inl code)"

definition dget_or :: "dict \<Rightarrow> string \<Rightarrow> json \<Rightarrow> json" where
  "dget_or d k v = (if has_key d k then dget d k else v)"

definition CLOCK_ROLLBACK_TOLERANCE :: time where
  "CLOCK_ROLLBACK_TOLERANCE = minutes 5"

definition trusted_document :: "string \<Rightarrow> string \<Rightarrow> time \<Rightarrow> time \<Rightarrow> license_file" where
  "trusted_document license_id device_id server highest = Document (JObj
     [(''protocol_version'', JInt 1), (''license_id'', JStr license_id), (''device_id'', JStr device_id),
      (''server_time'', JTime server), (''highest_observed_at'', JTime highest)])"

definition trusted_times :: "license_env \<Rightarrow> time \<Rightarrow> license_file \<Rightarrow> string + time \<times> time" where
  "trusted_times ev server f =
     and_then (read_json False f) (\<lambda>d.
       and_then (timestamp ev (dget_or d ''server_time'' (JTime server)) ''LICENSE_TRUSTED_TIME_INVALID'') (\<lambda>previous.
         and_then (timestamp ev (dget_or d ''highest_observed_at'' (JTime server)) ''LICENSE_TRUSTED_TIME_INVALID'')
           (\<lambda>highest. Inr (previous, highest))))"

definition trusted_effective_time ::
  "license_env \<Rightarrow> time \<Rightarrow> time \<Rightarrow> string \<Rightarrow> string \<Rightarrow> bool \<Rightarrow> license_disk \<Rightarrow> (string + time) \<times> license_disk" where
  "trusted_effective_time ev observed server license_id device_id refresh k =
     (case trusted_times ev server (li_trusted k) of
        Inl code \<Rightarrow> (Inl code, k)
      | Inr (previous, highest) \<Rightarrow>
          if server < previous then (Inl ''LICENSE_SERVER_TIME_ROLLBACK'', k)
          else if observed + CLOCK_ROLLBACK_TOLERANCE < highest \<and> server \<le> highest
          then (Inl ''LICENSE_CLOCK_ROLLBACK'', k)
          else
            let effective = max observed (max server highest)
            in (Inr effective,
                if refresh then k\<lparr>li_trusted := trusted_document license_id device_id (max server previous) effective\<rparr>
                else k))"

section \<open>The decision\<close>

record entitlement_decision =
  ed_mode :: string
  ed_status :: string
  ed_can_search :: bool
  ed_reason :: "string option"
  ed_license_id :: "string option"
  ed_device_id :: "string option"
  ed_license_type :: "string option"
  ed_subscription_expires_at :: "time option"
  ed_lease_expires_at :: "time option"
  ed_effective_time :: "time option"
  ed_sources :: "string list"

definition plain_decision :: "string \<Rightarrow> string \<Rightarrow> bool \<Rightarrow> string option \<Rightarrow> entitlement_decision" where
  "plain_decision mode status can reason = \<lparr>ed_mode = mode, ed_status = status, ed_can_search = can,
     ed_reason = reason, ed_license_id = None, ed_device_id = None, ed_license_type = None,
     ed_subscription_expires_at = None, ed_lease_expires_at = None, ed_effective_time = None, ed_sources = []\<rparr>"

record lease_terms =
  lt_license :: string
  lt_device :: string
  lt_server :: time
  lt_expires :: time
  lt_payload :: dict

definition bound_ids :: "dict \<Rightarrow> dict \<Rightarrow> string + string \<times> string" where
  "bound_ids binding payload =
     (case (dget payload ''license_id'', dget payload ''device_id'') of
        (JStr l, JStr i) \<Rightarrow>
          if dget binding ''license_id'' = JStr l \<and> dget binding ''device_id'' = JStr i then Inr (l, i)
          else Inl ''LICENSE_DEVICE_MISMATCH''
      | _ \<Rightarrow> Inl ''LICENSE_DEVICE_MISMATCH'')"

definition lease_times :: "license_env \<Rightarrow> dict \<Rightarrow> string + time \<times> time" where
  "lease_times ev payload =
     and_then (timestamp ev (dget payload ''server_time'') ''LICENSE_SERVER_TIME_INVALID'') (\<lambda>server.
     and_then (timestamp ev (dget payload ''issued_at'') ''LICENSE_ISSUED_AT_INVALID'') (\<lambda>issued.
     and_then (timestamp ev (dget payload ''lease_expires_at'') ''LICENSE_LEASE_EXPIRY_INVALID'') (\<lambda>expires.
     if server \<noteq> issued \<or> expires \<le> issued then Inl ''LICENSE_LEASE_TIME_INVALID'' else Inr (server, expires))))"

text \<open>What is read and checked before the clock is looked at.\<close>

definition lease_terms_of :: "license_env \<Rightarrow> license_disk \<Rightarrow> string + lease_terms" where
  "lease_terms_of ev k =
     and_then (read_json True (li_binding k)) (\<lambda>binding.
     and_then (read_json True (li_lease k)) (\<lambda>doc.
     and_then (configured_public_keys ev) (\<lambda>keys.
     and_then (verify_lease_document ev keys doc) (\<lambda>payload.
     and_then (bound_ids binding payload) (\<lambda>ids.
     and_then (lease_times ev payload) (\<lambda>times.
     Inr \<lparr>lt_license = fst ids, lt_device = snd ids, lt_server = fst times, lt_expires = snd times,
          lt_payload = payload\<rparr>))))))"

definition source_key :: "json \<Rightarrow> bool" where
  "source_key j =
     (case j of
        JStr (c # s) \<Rightarrow>
          CHR ''a'' \<le> c \<and> c \<le> CHR ''z'' \<and> 1 \<le> length s \<and> length s \<le> 31 \<and>
          list_all (\<lambda>x. (CHR ''a'' \<le> x \<and> x \<le> CHR ''z'') \<or> is_digit x \<or> x = CHR ''-'') s
      | _ \<Rightarrow> False)"

definition lease_sources :: "dict \<Rightarrow> string + string list" where
  "lease_sources entitlements =
     (case dget_or entitlements ''sources'' (JList [JStr ''encar'']) of
        JList js \<Rightarrow>
          if 32 < length js \<or> \<not> list_all source_key js then Inl ''LICENSE_SOURCES_INVALID''
          else Inr (sorted_strings (map py_str js))
      | _ \<Rightarrow> Inl ''LICENSE_SOURCES_INVALID'')"

definition search_entitlement :: "dict \<Rightarrow> string + bool \<times> string list" where
  "search_entitlement payload =
     (case dget payload ''entitlements'' of
        JObj e \<Rightarrow>
          (case dget e ''search'' of
             JBool b \<Rightarrow> and_then (lease_sources e) (\<lambda>ss. Inr (b, ss))
           | _ \<Rightarrow> Inl ''LICENSE_ENTITLEMENTS_INVALID'')
      | _ \<Rightarrow> Inl ''LICENSE_ENTITLEMENTS_INVALID'')"

definition subscription_end :: "license_env \<Rightarrow> dict \<Rightarrow> string + time option" where
  "subscription_end ev payload =
     (if dget payload ''subscription_expires_at'' = JNull then Inr None
      else and_then (timestamp ev (dget payload ''subscription_expires_at'') ''LICENSE_SUBSCRIPTION_EXPIRY_INVALID'')
        (\<lambda>t. Inr (Some t)))"

definition license_type_of :: "dict \<Rightarrow> string" where
  "license_type_of payload = py_str (py_or (dget payload ''license_type'') (JStr ''UNKNOWN''))"

definition decide :: "license_env \<Rightarrow> lease_terms \<Rightarrow> time \<Rightarrow> string + entitlement_decision" where
  "decide ev lt effective =
     and_then (search_entitlement (lt_payload lt)) (\<lambda>(search, sources).
     and_then (check ''LICENSE_LEASE_EXPIRED'' (effective < lt_expires lt)) (\<lambda>_.
     and_then (subscription_end ev (lt_payload lt)) (\<lambda>ends.
     and_then (check ''LICENSE_SUBSCRIPTION_EXPIRED'' (case ends of Some t \<Rightarrow> effective < t | None \<Rightarrow> True)) (\<lambda>_.
     let can = (search \<and> sources \<noteq> [])
     in Inr \<lparr>ed_mode = ''required'', ed_status = ''active'', ed_can_search = can,
          ed_reason = (if can then None else Some ''LICENSE_SEARCH_DISABLED''),
          ed_license_id = Some (lt_license lt), ed_device_id = Some (lt_device lt),
          ed_license_type = Some (license_type_of (lt_payload lt)), ed_subscription_expires_at = ends,
          ed_lease_expires_at = Some (lt_expires lt), ed_effective_time = Some effective, ed_sources = sources\<rparr>))))"

definition blocked :: "string \<Rightarrow> entitlement_decision" where
  "blocked code = plain_decision ''required'' ''blocked'' False (Some code)"

definition decided :: "string + entitlement_decision \<Rightarrow> entitlement_decision" where
  "decided r = (case r of Inl code \<Rightarrow> blocked code | Inr dec \<Rightarrow> dec)"

definition evaluate_lease :: "license_env \<Rightarrow> time \<Rightarrow> bool \<Rightarrow> license_disk \<Rightarrow> entitlement_decision \<times> license_disk" where
  "evaluate_lease ev now refresh k =
     (case lease_terms_of ev k of
        Inl code \<Rightarrow> (blocked code, k)
      | Inr lt \<Rightarrow>
          let r = trusted_effective_time ev now (lt_server lt) (lt_license lt) (lt_device lt) refresh k
          in (decided (and_then (fst r) (decide ev lt)), snd r))"

definition evaluate_search_entitlement ::
  "license_env \<Rightarrow> time \<Rightarrow> bool \<Rightarrow> license_disk \<Rightarrow> (string + entitlement_decision) \<times> license_disk" where
  "evaluate_search_entitlement ev now refresh k =
     (case enforcement_mode ev of
        Inl code \<Rightarrow> (Inl code, k)
      | Inr mode \<Rightarrow>
          if mode \<noteq> ''required'' then (Inr (plain_decision ''disabled'' ''pilot'' True None), k)
          else let r = evaluate_lease ev now refresh k in (Inr (fst r), snd r))"

text \<open>\<^verbatim>\<open>require_search_entitlement\<close>: the inner \<open>Some\<close> is the code of \<^verbatim>\<open>SearchEntitlementError\<close>.\<close>

definition refusal :: "string \<Rightarrow> entitlement_decision \<Rightarrow> string option" where
  "refusal source dec =
     (if \<not> ed_can_search dec then Some (str_or (ed_reason dec) ''LICENSE_REQUIRED'')
      else if ed_mode dec = ''required'' \<and> source \<notin> set (ed_sources dec) then Some ''LICENSE_SOURCE_NOT_ALLOWED''
      else None)"

definition require_search_entitlement ::
  "license_env \<Rightarrow> time \<Rightarrow> string \<Rightarrow> license_disk \<Rightarrow> (string + string option) \<times> license_disk" where
  "require_search_entitlement ev now source k =
     (let r = evaluate_search_entitlement ev now True k in (map_sum id (refusal source) (fst r), snd r))"

section \<open>Turning the clock back does not help\<close>

text \<open>The codes of a lease that ran out.\<close>

definition ran_out :: "string \<Rightarrow> bool" where
  "ran_out code \<longleftrightarrow> code = ''LICENSE_LEASE_EXPIRED'' \<or> code = ''LICENSE_SUBSCRIPTION_EXPIRED''"

lemma read_json_code: "read_json r f = Inl c \<Longrightarrow> \<not> ran_out c"
  by (auto simp: read_json_def ran_out_def split: license_file.splits json.splits if_splits)

lemma configured_code: "configured_license_document ev = Inl c \<Longrightarrow> \<not> ran_out c"
  by (auto simp: configured_license_document_def and_then_Inl read_json_code ran_out_def
      split: option.splits if_splits dest: read_json_code)

lemma key_file_code:
  "(case (x, y, z) of (JStr a, JStr i, JStr k) \<Rightarrow> if P a then Inr (f i k) else Inl e | _ \<Rightarrow> Inl e) = Inl c \<Longrightarrow> c = e"
  by (cases x; cases y; cases z) (auto split: if_splits)

lemma keys_code: "configured_public_keys ev = Inl c \<Longrightarrow> \<not> ran_out c"
proof -
  have a: "\<not> ran_out c" if "config_keys ev = Inl c" for c
    using that by (auto simp: config_keys_def and_then_Inl configured_code key_config_invalid_def ran_out_def
        split: option.splits if_splits dest: configured_code)
  have b: "\<not> ran_out c" if "env_keys ev = Inl c" for c
    using that by (auto simp: env_keys_def key_config_invalid_def ran_out_def split: option.splits)
  have d: "\<not> ran_out c" if k: "file_keys ev = Inl c" for c
  proof (cases "le_key_file ev")
    case None
    then show ?thesis
      using k by (simp add: file_keys_def)
  next
    case (Some f)
    have "c = key_config_invalid" if "read_json True f = Inr a" for a
      by (rule key_file_code [where x = "dget a ''algorithm''" and y = "dget a ''key_id''" and z = "dget a ''public_key''"
            and P = "\<lambda>a. a = ''Ed25519''" and f = "\<lambda>i k. [(i, k)]"])
        (use k Some that in \<open>simp only: file_keys_def option.case and_then_simps\<close>)
    then show ?thesis
      using k Some read_json_code
      by (cases "read_json True f") (auto simp: file_keys_def key_config_invalid_def ran_out_def)
  qed
  show "configured_public_keys ev = Inl c \<Longrightarrow> \<not> ran_out c"
    by (auto simp: configured_public_keys_def and_then_Inl dest: a b d)
qed

lemma signed_code: "signed_ok ev pk sg payload = Inl c \<Longrightarrow> \<not> ran_out c"
  by (auto simp: signed_ok_def and_then_Inl ran_out_def split: option.splits if_splits)

lemma verify_code: "verify_lease_document ev keys doc = Inl c \<Longrightarrow> \<not> ran_out c"
  by (auto simp: verify_lease_document_def signed_code ran_out_def dest: signed_code
      split: json.splits option.splits if_splits)

lemma bound_code: "bound_ids binding payload = Inl c \<Longrightarrow> \<not> ran_out c"
  by (auto simp: bound_ids_def ran_out_def split: json.splits if_splits)

lemma timestamp_code: "timestamp ev j code = Inl c \<Longrightarrow> c = code"
  by (auto simp: timestamp_def split: json.splits option.splits if_splits)

lemma lease_times_code: "lease_times ev payload = Inl c \<Longrightarrow> \<not> ran_out c"
  by (auto simp: lease_times_def and_then_Inl ran_out_def split: if_splits dest!: timestamp_code)

lemma lease_terms_code: "lease_terms_of ev k = Inl c \<Longrightarrow> \<not> ran_out c"
  by (auto simp: lease_terms_of_def and_then_Inl
      dest: read_json_code keys_code verify_code bound_code lease_times_code)

lemma trusted_code: "fst (trusted_effective_time ev now s l i r k) = Inl c \<Longrightarrow> \<not> ran_out c"
  by (auto simp: trusted_effective_time_def trusted_times_def and_then_Inl ran_out_def Let_def
      split: sum.splits if_splits dest!: timestamp_code dest: read_json_code)

text \<open>A lease that is refused at one time is refused at every later time.\<close>

lemma refused_later:
  assumes "decide ev lt t = Inl c" "t \<le> t'"
  shows "\<exists>c'. decide ev lt t' = Inl c'"
  using assms
  by (cases "search_entitlement (lt_payload lt)"; cases "subscription_end ev (lt_payload lt)")
    (auto simp: decide_def check_def Let_def split: option.splits if_splits)

text \<open>The highest time ever accepted is on the disk.\<close>

definition remembers :: "time \<Rightarrow> license_disk \<Rightarrow> bool" where
  "remembers t k \<longleftrightarrow> (\<exists>l i s h. li_trusted k = trusted_document l i s h \<and> t \<le> h)"

lemma trusted_times_document [simp]: "trusted_times ev server (trusted_document l i s h) = Inr (s, h)"
  by (simp add: trusted_times_def trusted_document_def read_json_def timestamp_def dget_or_def dget_def has_key_def)

lemma remembersI: "li_trusted k = trusted_document l i s h \<Longrightarrow> t \<le> h \<Longrightarrow> remembers t k"
  by (auto simp: remembers_def)

lemma remembers_stored [simp]: "t \<le> h \<Longrightarrow> remembers t (k\<lparr>li_trusted := trusted_document l i s h\<rparr>)"
  by (rule remembersI) simp_all

lemma effective_remembered:
  assumes "remembers t k" "trusted_effective_time ev now s l i r k = (res, k')"
  shows "remembers t k' \<and> (\<forall>e. res = Inr e \<longrightarrow> t \<le> e)"
proof -
  obtain la ia sa h where k: "li_trusted k = trusted_document la ia sa h" "t \<le> h"
    using assms(1) by (auto simp: remembers_def)
  show ?thesis
    using assms k by (auto simp: trusted_effective_time_def Let_def split: if_splits intro: remembersI)
qed

lemma effective_stored:
  assumes "trusted_effective_time ev now s l i True k = (Inr e, k')"
  shows "remembers e k'"
  using assms
  by (auto simp: trusted_effective_time_def Let_def split: if_splits sum.splits intro: remembersI)

lemma trusted_keeps_lease:
  "lease_terms_of ev (snd (trusted_effective_time ev now s l i r k)) = lease_terms_of ev k"
  by (auto simp: trusted_effective_time_def lease_terms_of_def Let_def split: sum.splits)

definition after_evaluations :: "license_env \<Rightarrow> (time \<times> bool) list \<Rightarrow> license_disk \<Rightarrow> license_disk" where
  "after_evaluations ev clocks k =
     foldl (\<lambda>k (now, refresh). snd (evaluate_search_entitlement ev now refresh k)) k clocks"

lemma evaluation_keeps:
  "lease_terms_of ev (snd (evaluate_search_entitlement ev now r k)) = lease_terms_of ev k"
  "remembers t k \<Longrightarrow> remembers t (snd (evaluate_search_entitlement ev now r k))"
proof -
  show "lease_terms_of ev (snd (evaluate_search_entitlement ev now r k)) = lease_terms_of ev k"
    by (auto simp: evaluate_search_entitlement_def evaluate_lease_def Let_def trusted_keeps_lease split: sum.splits)
  show "remembers t (snd (evaluate_search_entitlement ev now r k))" if m: "remembers t k"
  proof -
    have "remembers t (snd (trusted_effective_time ev now s l i r k))" for s l i
      using effective_remembered [OF m prod.collapse [symmetric]] by blast
    then show ?thesis
      using m by (auto simp: evaluate_search_entitlement_def evaluate_lease_def Let_def split: sum.splits)
  qed
qed

lemma after_evaluations_keep:
  "lease_terms_of ev (after_evaluations ev clocks k) = lease_terms_of ev k \<and>
   (remembers t k \<longrightarrow> remembers t (after_evaluations ev clocks k))"
  by (induction clocks arbitrary: k) (auto simp: after_evaluations_def evaluation_keeps)

lemma decide_reason:
  "decide ev lt t = Inr dec \<Longrightarrow> ed_reason dec = None \<or> ed_reason dec = Some ''LICENSE_SEARCH_DISABLED''"
  by (auto simp: decide_def Let_def split: if_splits)

lemma ran_out_evaluation:
  assumes "evaluate_search_entitlement ev now True k = (Inr dec, k')" "ed_reason dec = Some c" "ran_out c"
  obtains lt t where "lease_terms_of ev k = Inr lt" "decide ev lt t = Inl c" "remembers t k'"
proof (cases "lease_terms_of ev k")
  case (Inl c')
  then show ?thesis
    using assms lease_terms_code [OF Inl] that
    by (auto simp: evaluate_search_entitlement_def evaluate_lease_def blocked_def plain_decision_def
        split: sum.splits if_splits)
next
  case (Inr lt)
  obtain res k1 where tr: "trusted_effective_time ev now (lt_server lt) (lt_license lt) (lt_device lt) True k = (res, k1)"
    by (cases "trusted_effective_time ev now (lt_server lt) (lt_license lt) (lt_device lt) True k")
  have d: "dec = decided (and_then res (decide ev lt))" "k' = k1"
    using assms(1-2) Inr tr
    by (auto simp: evaluate_search_entitlement_def evaluate_lease_def plain_decision_def split: sum.splits if_splits)
  have no: "ed_reason dec = Some c \<Longrightarrow> res \<noteq> Inl c'" for c'
    using trusted_code [of ev now "lt_server lt" "lt_license lt" "lt_device lt" True k] tr assms(3) d
    by (auto simp: decided_def blocked_def plain_decision_def)
  then obtain t where t: "res = Inr t"
    using assms(2) by (cases res) auto
  have "decide ev lt t = Inl c"
    using d t assms(2,3) decide_reason [of ev lt t dec]
    by (cases "decide ev lt t") (auto simp: decided_def blocked_def plain_decision_def ran_out_def)
  then show ?thesis
    using that Inr effective_stored tr t d by blast
qed

text \<open>A lease that ran out stays run out: after a decision refused because the lease or the subscription has expired,
no later decision allows a search with the same lease, whatever the clock shows then and however often the licence
was evaluated in between.\<close>

theorem expired_lease_stays_expired:
  assumes "evaluate_search_entitlement ev now True k = (Inr dec, k')"
    and "ed_reason dec = Some ''LICENSE_LEASE_EXPIRED'' \<or> ed_reason dec = Some ''LICENSE_SUBSCRIPTION_EXPIRED''"
    and "fst (evaluate_search_entitlement ev later refresh (after_evaluations ev clocks k')) = Inr dec'"
  shows "\<not> ed_can_search dec' \<and> ed_mode dec' = ''required''"
proof -
  obtain c where c: "ed_reason dec = Some c" "ran_out c"
    using assms(2) by (auto simp: ran_out_def)
  obtain lt t where lt: "lease_terms_of ev k = Inr lt" "decide ev lt t = Inl c" "remembers t k'"
    using ran_out_evaluation [OF assms(1) c] by blast
  define k2 where "k2 = after_evaluations ev clocks k'"
  have k2: "lease_terms_of ev k2 = Inr lt" "remembers t k2"
    using after_evaluations_keep [of ev clocks k' t] lt evaluation_keeps(1) [of ev now True k] assms(1)
    by (auto simp: k2_def)
  have required: "enforcement_mode ev = Inr ''required''"
    using assms(1) c(1)
    by (auto simp: evaluate_search_entitlement_def Let_def plain_decision_def split: sum.splits if_splits)
  obtain res k3 where tr: "trusted_effective_time ev later (lt_server lt) (lt_license lt) (lt_device lt) refresh k2 = (res, k3)"
    by (cases "trusted_effective_time ev later (lt_server lt) (lt_license lt) (lt_device lt) refresh k2")
  have "\<exists>c'. and_then res (decide ev lt) = Inl c'"
    using effective_remembered [OF k2(2) tr] refused_later [OF lt(2)] by (cases res) auto
  then show ?thesis
    using assms(3) k2 required tr
    by (auto simp: k2_def [symmetric] evaluate_search_entitlement_def evaluate_lease_def decided_def blocked_def plain_decision_def)
qed

definition lease_sample :: license_disk where
  "lease_sample = \<lparr>li_binding = Document (JObj [(''license_id'', JStr ''L''), (''device_id'', JStr ''D'')]),
     li_lease = Document (JObj [(''payload'', JObj
       [(''type'', JStr ''searchcar-license-lease''), (''protocol_version'', JInt 1), (''key_id'', JStr ''K''),
        (''license_id'', JStr ''L''), (''device_id'', JStr ''D''), (''server_time'', JTime 10),
        (''issued_at'', JTime 10), (''lease_expires_at'', JTime 20), (''subscription_expires_at'', JNull),
        (''entitlements'', JObj [(''search'', JBool True)])]), (''signature'', JStr (replicate 86 (CHR ''A'')))]),
     li_trusted = Absent\<rparr>"

definition lease_env_sample :: license_env where
  "lease_env_sample = \<lparr>le_enforcement = ''required'', le_config = None,
     le_env_keys = Some (Some (JObj [(''K'', JStr (replicate 43 (CHR ''A'')))])), le_key_file = None,
     le_verify = (\<lambda>_ _ _. True), le_parse_time = (\<lambda>_. None)\<rparr>"

definition lease_after :: license_disk where
  "lease_after = lease_sample\<lparr>li_trusted := trusted_document ''L'' ''D'' 10 25\<rparr>"

lemma lease_sample_terms: "map_sum id lt_expires (lease_terms_of lease_env_sample lease_sample) = Inr 20"
  by code_simp

lemma lease_sample_expires:
  "evaluate_search_entitlement lease_env_sample 25 True lease_sample = (Inr (blocked ''LICENSE_LEASE_EXPIRED''), lease_after)"
  by code_simp

lemma lease_sample_rolled_back:
  "fst (evaluate_search_entitlement lease_env_sample 15 True (after_evaluations lease_env_sample [(12, True)] lease_after))
     = Inr (blocked ''LICENSE_LEASE_EXPIRED'')"
  by code_simp

theorem expired_lease_stays_expired_witness:
  "\<not> ed_can_search (blocked ''LICENSE_LEASE_EXPIRED'') \<and> ed_mode (blocked ''LICENSE_LEASE_EXPIRED'') = ''required''"
  by (rule expired_lease_stays_expired [OF lease_sample_expires _ lease_sample_rolled_back])
    (simp add: blocked_def plain_decision_def)

lemma lease_sample_valid:
  "map_sum id ed_can_search (fst (evaluate_search_entitlement lease_env_sample 15 True lease_sample)) = Inr True"
  by code_simp

end
