(* ===== verification/VehicleGroups.thy ===== *)
theory VehicleGroups
  imports Prelude StoragePaths "HOL-Library.Multiset"
begin

text \<open>
  \<^verbatim>\<open>backend/app/vehicle_groups.py\<close>: listings of one vehicle are shown as one group. A listing is identified
  by its registration plate and VIN. Texts are UTF-8 bytes and are decoded where the code matches
  characters; \<^verbatim>\<open>unicodedata.normalize("NFKC", _)\<close> is the argument \<open>nfkc\<close>. The digits of a plate are the
  ASCII digits.
\<close>

section \<open>Characters\<close>

definition byte :: "char \<Rightarrow> nat" where
  "byte c = of_char c"

text \<open>The code points of a UTF-8 text.\<close>

fun code_points :: "string \<Rightarrow> nat list" where
  "code_points (a # b # c # d # s) =
     (if byte a < 128 then byte a # code_points (b # c # d # s)
      else if byte a < 224 then (64 * (byte a - 192) + (byte b - 128)) # code_points (c # d # s)
      else if byte a < 240 then (4096 * (byte a - 224) + 64 * (byte b - 128) + (byte c - 128)) # code_points (d # s)
      else (262144 * (byte a - 240) + 4096 * (byte b - 128) + 64 * (byte c - 128) + (byte d - 128)) # code_points s)"
| "code_points [a, b, c] =
     (if byte a < 128 then byte a # code_points [b, c]
      else if byte a < 224 then (64 * (byte a - 192) + (byte b - 128)) # code_points [c]
      else [4096 * (byte a - 224) + 64 * (byte b - 128) + (byte c - 128)])"
| "code_points [a, b] =
     (if byte a < 128 then byte a # code_points [b] else [64 * (byte a - 192) + (byte b - 128)])"
| "code_points [a] = [byte a]"
| "code_points [] = []"

definition space_point :: "nat \<Rightarrow> bool" where
  "space_point n \<longleftrightarrow> n \<in> {9..13} \<or> n \<in> {28..32} \<or> n \<in> {133, 160, 5760, 8232, 8233, 8239, 8287, 12288} \<or> n \<in> {8192..8202}"

definition hangul :: "nat \<Rightarrow> bool" where
  "hangul n \<longleftrightarrow> 44032 \<le> n \<and> n \<le> 55203"

definition digit_point :: "nat \<Rightarrow> bool" where
  "digit_point n \<longleftrightarrow> 48 \<le> n \<and> n \<le> 57"

section \<open>Identity of a listing\<close>

text \<open>Up to four Hangul syllables, two or three digits, one syllable, four digits.\<close>

definition is_plate :: "nat list \<Rightarrow> bool" where
  "is_plate s =
     (let region = takeWhile hangul s; r = dropWhile hangul s;
          ds = takeWhile digit_point r; t = dropWhile digit_point r
      in length region \<le> 4 \<and> length ds \<in> {2, 3} \<and>
         (case t of [] \<Rightarrow> False | h # n \<Rightarrow> hangul h \<and> length n = 4 \<and> list_all digit_point n))"

definition plate_of :: "(string \<Rightarrow> string) \<Rightarrow> dict \<Rightarrow> nat list" where
  "plate_of nfkc details =
     (let text = nfkc (py_str (py_or (dget details ''registration_number'') (JStr [])));
          plate = filter (\<lambda>n. \<not> space_point n \<and> n \<noteq> 45) (code_points text)
      in if is_plate plate then plate else [])"

text \<open>\<^verbatim>\<open>[A-HJ-NPR-Z0-9]{17}\<close>.\<close>

definition vin_char :: "char \<Rightarrow> bool" where
  "vin_char c \<longleftrightarrow> (let n = byte c in (48 \<le> n \<and> n \<le> 57) \<or> (65 \<le> n \<and> n \<le> 90 \<and> n \<notin> {73, 79, 81}))"

definition vin_of :: "dict \<Rightarrow> string" where
  "vin_of details =
     (let vin = map upper_char (strip (py_str (py_or (dget details ''vin'') (JStr []))))
      in if length vin = 17 \<and> list_all vin_char vin then vin else [])"

record listing =
  ls_id :: int
  ls_status :: string
  ls_details :: dict

datatype vehicle_key = Vin string | Plate "nat list" | Listing int

section \<open>Groups\<close>

definition plate_vins :: "(string \<Rightarrow> string) \<Rightarrow> 'a listing_scheme list \<Rightarrow> nat list \<Rightarrow> string list" where
  "plate_vins nfkc ls plate =
     remdups (map (\<lambda>l. vin_of (ls_details l))
       (filter (\<lambda>l. plate_of nfkc (ls_details l) = plate \<and> plate \<noteq> [] \<and> vin_of (ls_details l) \<noteq> []) ls))"

definition vehicle_key :: "(string \<Rightarrow> string) \<Rightarrow> 'a listing_scheme list \<Rightarrow> 'a listing_scheme \<Rightarrow> vehicle_key" where
  "vehicle_key nfkc ls l =
     (let plate = plate_of nfkc (ls_details l); known = plate_vins nfkc ls plate;
          vin = (case known of [v] \<Rightarrow> if vin_of (ls_details l) = [] then v else vin_of (ls_details l)
                 | _ \<Rightarrow> vin_of (ls_details l))
      in if vin \<noteq> [] then Vin vin
         else if plate \<noteq> [] \<and> length known < 2 then Plate plate
         else Listing (ls_id l))"

definition display_rank :: "'a listing_scheme \<Rightarrow> nat" where
  "display_rank l =
     (if ls_status l = ''SOLD'' then 2
      else if ls_status l \<in> {''UNAVAILABLE'', ''NOT_FOUND_IN_SEARCH''} then 1 else 0)"

text \<open>A group is its first listing and the others.\<close>

definition group_vehicle_listings :: "(string \<Rightarrow> string) \<Rightarrow> 'a listing_scheme list \<Rightarrow> ('a listing_scheme \<times> 'a listing_scheme list) list" where
  "group_vehicle_listings nfkc ls =
     map (\<lambda>(k, members). let ms = sort_key display_rank members in (hd ms, tl ms))
       (group_by (vehicle_key nfkc ls) ls)"

section \<open>Every listing is shown once\<close>

definition members :: "'a listing_scheme \<times> 'a listing_scheme list \<Rightarrow> 'a listing_scheme list" where
  "members g = fst g # snd g"

lemma mset_group_by: "mset (concat (map snd (group_by key xs))) = mset xs"
proof -
  have add: "mset (concat (map snd (add_to_group k x gs))) = add_mset x (mset (concat (map snd gs)))" for k x gs
    by (induction k x gs rule: add_to_group.induct) auto
  have "mset (concat (map snd (foldl (\<lambda>gs x. add_to_group (key x) x gs) gs xs))) =
      mset (concat (map snd gs)) + mset xs" for gs
    by (induction xs arbitrary: gs) (simp_all add: add)
  from this [of "[]"] show ?thesis by (simp add: group_by_def)
qed

lemma members_group:
  assumes "ms \<noteq> []"
  shows "members (let s = sort_key display_rank ms in (hd s, tl s)) = sort_key display_rank ms"
proof -
  have "sort_key display_rank ms \<noteq> []" using assms by (metis set_empty set_sort)
  then show ?thesis by (simp add: members_def Let_def)
qed

lemma group_members:
  "map members (group_vehicle_listings nfkc ls) =
     map (\<lambda>(k, ms). sort_key display_rank ms) (group_by (vehicle_key nfkc ls) ls)"
  unfolding group_vehicle_listings_def map_map
  by (rule map_cong [OF refl]) (auto simp: members_group dest: group_by_nonempty)

text \<open>The VINs that the listings with this plate show.\<close>

definition vins_of_plate :: "(string \<Rightarrow> string) \<Rightarrow> 'a listing_scheme list \<Rightarrow> nat list \<Rightarrow> string set" where
  "vins_of_plate nfkc ls plate =
     {vin_of (ls_details l) |l. l \<in> set ls \<and> plate \<noteq> [] \<and> plate_of nfkc (ls_details l) = plate \<and>
        vin_of (ls_details l) \<noteq> []}"

text \<open>When two listings show one vehicle.\<close>

definition one_vehicle :: "(string \<Rightarrow> string) \<Rightarrow> 'a listing_scheme list \<Rightarrow> 'a listing_scheme \<Rightarrow> 'a listing_scheme \<Rightarrow> bool" where
  "one_vehicle nfkc ls a b \<longleftrightarrow>
     (let va = vin_of (ls_details a); pa = plate_of nfkc (ls_details a);
          vb = vin_of (ls_details b); pb = plate_of nfkc (ls_details b)
      in if va \<noteq> [] \<and> vb \<noteq> [] then va = vb
         else if va \<noteq> [] then vins_of_plate nfkc ls pb = {va}
         else if vb \<noteq> [] then vins_of_plate nfkc ls pa = {vb}
         else (pa \<noteq> [] \<and> pa = pb \<and> vins_of_plate nfkc ls pa = {}) \<or>
              (\<exists>v. vins_of_plate nfkc ls pa = {v} \<and> vins_of_plate nfkc ls pb = {v}))"

lemma set_plate_vins: "set (plate_vins nfkc ls p) = vins_of_plate nfkc ls p"
  by (auto simp: plate_vins_def vins_of_plate_def)

lemma distinct_plate_vins [simp]: "distinct (plate_vins nfkc ls p)"
  by (simp add: plate_vins_def)

lemma vins_of_no_plate [simp]: "vins_of_plate nfkc ls [] = {}"
  by (simp add: vins_of_plate_def)

lemma vin_in_vins_of_plate: "v \<in> vins_of_plate nfkc ls p \<Longrightarrow> v \<noteq> [] \<and> p \<noteq> []"
  by (auto simp: vins_of_plate_def)

lemma distinct_set_single: "distinct xs \<Longrightarrow> set xs = {v} \<longleftrightarrow> xs = [v]"
  by (cases xs; cases "tl xs") auto

text \<open>The key of a listing, by what is known of its VIN and plate.\<close>

lemma vehicle_key_cases:
  fixes l :: "'a listing_scheme" and nfkc :: "string \<Rightarrow> string"
  defines "vin \<equiv> vin_of (ls_details l)" and "plate \<equiv> plate_of nfkc (ls_details l)"
  obtains
    (own_vin) "vin \<noteq> []" "vehicle_key nfkc ls l = Vin vin"
  | (plate_vin) v where "vin = []" "vins_of_plate nfkc ls plate = {v}" "vehicle_key nfkc ls l = Vin v"
  | (plate) "vin = []" "vins_of_plate nfkc ls plate = {}" "plate \<noteq> []" "vehicle_key nfkc ls l = Plate plate"
  | (unknown) "vin = []" "plate = []" "vehicle_key nfkc ls l = Listing (ls_id l)"
  | (conflict) "vin = []" "\<nexists>v. vins_of_plate nfkc ls plate = {v}" "vins_of_plate nfkc ls plate \<noteq> {}"
      "vehicle_key nfkc ls l = Listing (ls_id l)"
proof -
  let ?k = "plate_vins nfkc ls plate"
  have set: "set ?k = vins_of_plate nfkc ls plate" by (rule set_plate_vins)
  have key: "vehicle_key nfkc ls l =
      (let v = (case ?k of [v] \<Rightarrow> if vin = [] then v else vin | _ \<Rightarrow> vin)
       in if v \<noteq> [] then Vin v else if plate \<noteq> [] \<and> length ?k < 2 then Plate plate else Listing (ls_id l))"
    unfolding vehicle_key_def vin_def plate_def Let_def by (rule refl)
  consider (none) "?k = []" | (one) v where "?k = [v]" | (more) v w vs where "?k = v # w # vs"
    by (metis list.exhaust)
  then show thesis
  proof cases
    case none
    with set key own_vin plate unknown show thesis by (cases "vin = []"; cases "plate = []") auto
  next
    case one
    then have "v \<noteq> []" using set vin_in_vins_of_plate [of v nfkc ls plate] by auto
    with one set key own_vin plate_vin show thesis by (cases "vin = []") auto
  next
    case more
    then have "\<nexists>u. vins_of_plate nfkc ls plate = {u}"
      using set distinct_set_single [OF distinct_plate_vins, of nfkc ls plate] by simp
    with more set key own_vin conflict show thesis by (cases "vin = []") auto
  qed
qed

lemma same_key_iff:
  assumes "ls_id a \<noteq> ls_id b"
  shows "vehicle_key nfkc ls a = vehicle_key nfkc ls b \<longleftrightarrow> one_vehicle nfkc ls a b"
  by (cases rule: vehicle_key_cases [of a nfkc ls]; cases rule: vehicle_key_cases [of b nfkc ls])
    (use assms in \<open>auto simp: one_vehicle_def\<close>)

lemma groups_partition:
  "mset (concat (map members (group_vehicle_listings nfkc ls))) = mset ls \<and>
   (\<exists>keys. distinct keys \<and> list_all2 (\<lambda>k g. list_all (\<lambda>l. vehicle_key nfkc ls l = k) (members g) \<and>
      list_all (\<lambda>l. display_rank (fst g) \<le> display_rank l) (snd g)) keys (group_vehicle_listings nfkc ls))"
proof
  let ?gs = "group_by (vehicle_key nfkc ls) ls"
  have sorted_concat: "mset (concat (map (\<lambda>(k, ms). sort_key display_rank ms) gs)) = mset (concat (map snd gs))" for gs :: "(vehicle_key \<times> 'a listing_scheme list) list"
    by (induction gs) auto
  then show "mset (concat (map members (group_vehicle_listings nfkc ls))) = mset ls"
    by (simp add: group_members mset_group_by)
  have "list_all2 (\<lambda>k g. list_all (\<lambda>l. vehicle_key nfkc ls l = k) (members g) \<and>
      list_all (\<lambda>l. display_rank (fst g) \<le> display_rank l) (snd g))
      (map fst ?gs) (group_vehicle_listings nfkc ls)"
    unfolding group_vehicle_listings_def list_all2_map1 list_all2_map2
  proof (rule list.rel_refl_strong)
    fix km assume km: "km \<in> set ?gs"
    obtain k ms where [simp]: "km = (k, ms)" by (cases km)
    let ?s = "sort_key display_rank ms"
    have ne: "ms \<noteq> []" using km by (auto dest: group_by_nonempty)
    have keys: "vehicle_key nfkc ls l = k" if "l \<in> set ms" for l
      using group_by_key [of k ms "vehicle_key nfkc ls" ls l] km that by simp
    have mem: "members (hd ?s, tl ?s) = ?s" using members_group [OF ne] by (simp add: Let_def)
    have "sorted (map display_rank (hd ?s # tl ?s))" using mem by (simp add: members_def)
    then have "list_all (\<lambda>l. display_rank (hd ?s) \<le> display_rank l) (tl ?s)"
      by (auto simp: list_all_iff)
    then show "list_all (\<lambda>l. vehicle_key nfkc ls l = fst km) (members (case km of (k, m) \<Rightarrow>
        let ms = sort_key display_rank m in (hd ms, tl ms))) \<and>
      list_all (\<lambda>l. display_rank (fst (case km of (k, m) \<Rightarrow> let ms = sort_key display_rank m in (hd ms, tl ms)))
        \<le> display_rank l) (snd (case km of (k, m) \<Rightarrow> let ms = sort_key display_rank m in (hd ms, tl ms)))"
      using keys by (simp add: Let_def mem) (auto simp: list_all_iff)
  qed
  moreover have "distinct (map fst ?gs)" by simp
  ultimately show "\<exists>keys. distinct keys \<and> list_all2 (\<lambda>k g. list_all (\<lambda>l. vehicle_key nfkc ls l = k) (members g) \<and>
      list_all (\<lambda>l. display_rank (fst g) \<le> display_rank l) (snd g)) keys (group_vehicle_listings nfkc ls)" by blast
qed


lemma same_group_iff:
  assumes "a \<in> set ls" and "b \<in> set ls"
  shows "(\<exists>g \<in> set (group_vehicle_listings nfkc ls). a \<in> set (members g) \<and> b \<in> set (members g)) \<longleftrightarrow>
    vehicle_key nfkc ls a = vehicle_key nfkc ls b"
proof -
  let ?gs = "group_vehicle_listings nfkc ls"
  obtain keys where keys: "distinct keys"
    and own: "list_all2 (\<lambda>k g. list_all (\<lambda>l. vehicle_key nfkc ls l = k) (members g) \<and>
      list_all (\<lambda>l. display_rank (fst g) \<le> display_rank l) (snd g)) keys ?gs"
    using groups_partition by blast
  have key: "vehicle_key nfkc ls l = keys ! i" if "i < length ?gs" "l \<in> set (members (?gs ! i))" for i l
    using list_all2_nthD2 [OF own that(1)] that(2) by (simp add: list_all_iff)
  have somewhere: "\<exists>i < length ?gs. l \<in> set (members (?gs ! i))" if "l \<in> set ls" for l
  proof -
    have "l \<in> set (concat (map members ?gs))"
      using that groups_partition [of nfkc ls] by (metis set_mset_mset)
    then obtain g where "g \<in> set ?gs" "l \<in> set (members g)" by auto
    then show ?thesis by (metis in_set_conv_nth)
  qed
  show ?thesis
  proof
    assume "\<exists>g \<in> set ?gs. a \<in> set (members g) \<and> b \<in> set (members g)"
    then obtain g where g: "g \<in> set ?gs" "a \<in> set (members g)" "b \<in> set (members g)" by blast
    obtain i where i: "i < length ?gs" "g = ?gs ! i" using g(1) by (metis in_set_conv_nth)
    with key g show "vehicle_key nfkc ls a = vehicle_key nfkc ls b" by simp
  next
    assume same: "vehicle_key nfkc ls a = vehicle_key nfkc ls b"
    obtain i where i: "i < length ?gs" "a \<in> set (members (?gs ! i))" using somewhere [OF assms(1)] by blast
    obtain j where j: "j < length ?gs" "b \<in> set (members (?gs ! j))" using somewhere [OF assms(2)] by blast
    have "keys ! i = keys ! j" using key [OF i] key [OF j] same by simp
    then have "i = j" using keys i(1) j(1) list_all2_lengthD [OF own] by (simp add: nth_eq_iff_index_eq)
    with i j show "\<exists>g \<in> set ?gs. a \<in> set (members g) \<and> b \<in> set (members g)" by (metis nth_mem)
  qed
qed

text \<open>C35: grouping loses and duplicates no listing, and the listing shown first is one of the most
  available of its group (for sale before not found before sold). Two listings are in one group exactly
  when they are one vehicle: two listings that show their VINs when the VINs are equal; a listing
  without VIN joins a VIN when the listings of its plate show this VIN and no other; two listings
  without VIN are together when they have one plate of which no VIN is known, or when the one VIN known
  of each one's plate is the same. A plate with conflicting VINs joins nothing.\<close>

theorem groups_are_vehicles:
  assumes "distinct (map ls_id ls)" and "a \<in> set ls" and "b \<in> set ls" and "a \<noteq> b"
  shows "mset (concat (map members (group_vehicle_listings nfkc ls))) = mset ls \<and>
    list_all (\<lambda>g. list_all (\<lambda>l. display_rank (fst g) \<le> display_rank l) (snd g)) (group_vehicle_listings nfkc ls) \<and>
    ((\<exists>g \<in> set (group_vehicle_listings nfkc ls). a \<in> set (members g) \<and> b \<in> set (members g)) \<longleftrightarrow>
      one_vehicle nfkc ls a b)"
proof (intro conjI)
  obtain keys where "list_all2 (\<lambda>k g. list_all (\<lambda>l. vehicle_key nfkc ls l = k) (members g) \<and>
      list_all (\<lambda>l. display_rank (fst g) \<le> display_rank l) (snd g)) keys (group_vehicle_listings nfkc ls)"
    using groups_partition by blast
  then show "list_all (\<lambda>g. list_all (\<lambda>l. display_rank (fst g) \<le> display_rank l) (snd g)) (group_vehicle_listings nfkc ls)"
    by (induction rule: list_all2_induct) simp_all
  have "ls_id a \<noteq> ls_id b" using assms by (auto simp: distinct_map inj_on_def)
  then show "(\<exists>g \<in> set (group_vehicle_listings nfkc ls). a \<in> set (members g) \<and> b \<in> set (members g)) \<longleftrightarrow>
      one_vehicle nfkc ls a b"
    by (simp add: same_group_iff [OF assms(2,3)] same_key_iff)
qed (use groups_partition in blast)

section \<open>Witness\<close>

definition plate_listing :: "int \<Rightarrow> string \<Rightarrow> listing" where
  "plate_listing i vin = \<lparr>ls_id = i, ls_status = ''FOUND'', ls_details = [(''vin'', JStr vin)]\<rparr>"

definition vin_sample :: "listing list" where
  "vin_sample = [plate_listing 1 ''KMHXX00XXXX000001'', plate_listing 2 ''KMHXX00XXXX000001'',
     plate_listing 3 ''KMHXX00XXXX000002'']"

lemma vin_sample_vins:
  "vin_of (ls_details (vin_sample ! 0)) = ''KMHXX00XXXX000001''"
  "vin_of (ls_details (vin_sample ! 1)) = ''KMHXX00XXXX000001''"
  "vin_of (ls_details (vin_sample ! 2)) = ''KMHXX00XXXX000002''"
  by code_simp+

lemma groups_are_vehicles_witness:
  "(\<exists>g \<in> set (group_vehicle_listings id vin_sample). vin_sample ! 0 \<in> set (members g) \<and> vin_sample ! 1 \<in> set (members g)) \<and>
   \<not> (\<exists>g \<in> set (group_vehicle_listings id vin_sample). vin_sample ! 0 \<in> set (members g) \<and> vin_sample ! 2 \<in> set (members g))"
proof -
  have ids: "distinct (map ls_id vin_sample)" and len: "length vin_sample = 3"
    by (simp_all add: vin_sample_def plate_listing_def)
  have neq: "vin_sample ! 0 \<noteq> vin_sample ! 1" "vin_sample ! 0 \<noteq> vin_sample ! 2"
    by (simp_all add: vin_sample_def plate_listing_def)
  have mem: "vin_sample ! i \<in> set vin_sample" if "i < 3" for i using that len by simp
  have "one_vehicle id vin_sample (vin_sample ! 0) (vin_sample ! 1)"
    "\<not> one_vehicle id vin_sample (vin_sample ! 0) (vin_sample ! 2)"
    unfolding one_vehicle_def vin_sample_vins Let_def by simp_all
  then show ?thesis
    using groups_are_vehicles [OF ids mem mem neq(1), where nfkc = id]
      groups_are_vehicles [OF ids mem mem neq(2), where nfkc = id] by simp
qed

end
