(* ===== verification/LicenseClient.thy ===== *)
theory LicenseClient
  imports License VehicleGroups
begin

text \<open>
  The client of the licence service, \<^verbatim>\<open>backend/app/desktop_license_client.py\<close>: the signed request, the checks of an
  answer, and what the client's operations do to the files of the licence. The device key, the network and the
  service are arguments: a request is answered by an outcome per attempt. Calls that write a file succeed.
\<close>

section \<open>Errors and the device\<close>

datatype client_error = Client_Error string int

definition unavailable :: "string \<Rightarrow> client_error" where
  "unavailable code = Client_Error code 503"

record device_identity =
  di_public_key :: string
  di_fingerprint_hash :: string
  di_label :: string
  di_sign :: "string \<Rightarrow> string"

text \<open>\<open>stored\<close> is what the secret store holds and \<open>persist\<close> what a load finds after a save.\<close>

definition load_or_create_seed ::
  "string \<Rightarrow> (string \<Rightarrow> string option) \<Rightarrow> string option \<Rightarrow> client_error + string" where
  "load_or_create_seed fresh persist stored =
     and_then (case stored of
         Some seed \<Rightarrow> Inr seed
       | None \<Rightarrow> if persist fresh = Some fresh then Inr fresh else Inl (unavailable ''LICENSE_DEVICE_KEY_PERSISTENCE_FAILED''))
       (\<lambda>seed. if length seed = 32 then Inr seed else Inl (unavailable ''LICENSE_DEVICE_KEY_INVALID''))"

definition DEVICE_MESSAGE_PREFIX :: string where
  "DEVICE_MESSAGE_PREFIX = ''SEARCHCAR-DEVICE-REQUEST-V1'' @ [CHR 0x0A]"

definition unsigned_request :: "device_identity \<Rightarrow> string \<Rightarrow> string \<Rightarrow> string \<Rightarrow> dict \<Rightarrow> dict" where
  "unsigned_request di request_id requested_at app_version extra = dmerge
     [(''protocol_version'', JInt 1), (''request_id'', JStr request_id), (''requested_at'', JStr requested_at),
      (''app_version'', JStr app_version),
      (''device'', JObj [(''public_key'', JStr (di_public_key di)), (''fingerprint_hash'', JStr (di_fingerprint_hash di)),
        (''label'', JStr (di_label di))])] extra"

definition signed_request :: "device_identity \<Rightarrow> dict \<Rightarrow> string + dict" where
  "signed_request di body =
     (case canonical_json (JObj body) of
        None \<Rightarrow> Inl ''LICENSE_PAYLOAD_NUMBER_INVALID''
      | Some text \<Rightarrow> Inr (dset body ''proof'' (JStr (di_sign di (DEVICE_MESSAGE_PREFIX @ text)))))"

text \<open>\<^verbatim>\<open>configured_service_url\<close>: the setting of the environment, then the one of the configuration.\<close>

definition rstripped :: "string \<Rightarrow> string" where
  "rstripped s = rev (dropWhile (\<lambda>c. c = CHR ''/'') (rev (strip s)))"

definition service_url_setting :: "license_env \<Rightarrow> string \<Rightarrow> string + string" where
  "service_url_setting ev setting =
     (if rstripped setting \<noteq> [] then Inr (rstripped setting)
      else and_then (configured_license_document ev) (\<lambda>d.
        Inr (rstripped (if has_key d ''service_url'' then py_str (dget d ''service_url'') else []))))"

section \<open>Asking the service\<close>

datatype transport_failure = Connect_Timeout | Connect_Error | Read_Timeout | Other_Timeout | Transport_Failure | Http_Failure

record service_answer =
  sa_size :: int
  sa_status :: int
  sa_body :: "json option"

definition transport_code :: "transport_failure \<Rightarrow> string" where
  "transport_code f =
     (case f of
        Connect_Timeout \<Rightarrow> ''LICENSE_SERVICE_CONNECT_TIMEOUT''
      | Connect_Error \<Rightarrow> ''LICENSE_SERVICE_CONNECT_FAILED''
      | Read_Timeout \<Rightarrow> ''LICENSE_SERVICE_RESPONSE_TIMEOUT''
      | Other_Timeout \<Rightarrow> ''LICENSE_SERVICE_TIMEOUT''
      | _ \<Rightarrow> ''LICENSE_SERVICE_UNAVAILABLE'')"

text \<open>One repetition, with the same request; a failure that is none of the transport is not repeated.\<close>

definition send :: "(nat \<Rightarrow> transport_failure + service_answer) \<Rightarrow> client_error + service_answer" where
  "send attempts =
     (case (case attempts 0 of Inl f \<Rightarrow> if f = Http_Failure then Inl f else attempts 1 | Inr a \<Rightarrow> Inr a) of
        Inl f \<Rightarrow> Inl (unavailable (transport_code f))
      | Inr a \<Rightarrow> Inr a)"

definition MAX_RESPONSE :: int where "MAX_RESPONSE = 128 * 1024"

definition code_char :: "char \<Rightarrow> bool" where
  "code_char c \<longleftrightarrow> (CHR ''A'' \<le> c \<and> c \<le> CHR ''Z'') \<or> is_digit c \<or> c = CHR ''_''"

definition remote_code :: "string \<Rightarrow> bool" where
  "remote_code s \<longleftrightarrow> s \<noteq> [] \<and> CHR ''A'' \<le> hd s \<and> hd s \<le> CHR ''Z'' \<and> length s \<le> 64 \<and> list_all code_char s"

definition response_invalid :: client_error where
  "response_invalid = Client_Error ''LICENSE_SERVICE_RESPONSE_INVALID'' 502"

definition rejection :: "int \<Rightarrow> dict \<Rightarrow> client_error" where
  "rejection status envelope = Client_Error
     (case dget envelope ''error'' of
        JObj e \<Rightarrow> (case dget e ''code'' of
            JStr c \<Rightarrow> if remote_code c then c else ''LICENSE_SERVICE_REJECTED'' | _ \<Rightarrow> ''LICENSE_SERVICE_REJECTED'')
      | _ \<Rightarrow> ''LICENSE_SERVICE_REJECTED'')
     (if 400 \<le> status \<and> status < 500 then status else 503)"

definition answer_data :: "service_answer \<Rightarrow> client_error + dict" where
  "answer_data a =
     (if MAX_RESPONSE < sa_size a then Inl (Client_Error ''LICENSE_SERVICE_RESPONSE_TOO_LARGE'' 502)
      else case sa_body a of
        Some (JObj envelope) \<Rightarrow>
          if sa_status a \<noteq> 200 \<or> dget envelope ''ok'' \<noteq> JBool True then Inl (rejection (sa_status a) envelope)
          else (case dget envelope ''data'' of JObj d \<Rightarrow> Inr d | _ \<Rightarrow> Inl response_invalid)
      | _ \<Rightarrow> Inl response_invalid)"

definition sub_object :: "json \<Rightarrow> string \<Rightarrow> json" where
  "sub_object j k = (case j of JObj d \<Rightarrow> dget d k | _ \<Rightarrow> JNull)"

definition recovery_of :: "dict \<Rightarrow> json" where
  "recovery_of d = sub_object (sub_object (dget d ''lease'') ''payload'') ''recovery''"

definition recovery_matches :: "device_identity \<Rightarrow> string \<Rightarrow> string \<Rightarrow> dict \<Rightarrow> bool" where
  "recovery_matches di path request_id d \<longleftrightarrow> recovery_of d = JNull \<or>
     path = ''/v1/licenses/redeem'' \<and> sub_object (recovery_of d) ''request_id'' = JStr request_id \<and>
     sub_object (recovery_of d) ''device_public_key'' = JStr (di_public_key di)"

definition post ::
  "device_identity \<Rightarrow> string \<Rightarrow> string \<Rightarrow> (nat \<Rightarrow> transport_failure + service_answer) \<Rightarrow> client_error + dict" where
  "post di path request_id attempts =
     and_then (send attempts) (\<lambda>a. and_then (answer_data a) (\<lambda>d.
       if recovery_matches di path request_id d then Inr d
       else Inl (Client_Error ''LICENSE_RECOVERY_PROOF_INVALID'' 502)))"

section \<open>Installing a lease\<close>

definition own_binding :: "license_disk \<Rightarrow> client_error + string \<times> string" where
  "own_binding k =
     (case read_json True (li_binding k) of
        Inl code \<Rightarrow> Inl (Client_Error code 409)
      | Inr b \<Rightarrow>
          (case (dget b ''license_id'', dget b ''device_id'') of
             (JStr l, JStr i) \<Rightarrow> Inr (l, i)
           | _ \<Rightarrow> Inl (Client_Error ''LICENSE_NOT_CONFIGURED'' 409)))"

text \<open>The identities of an answer, completed by the binding where the answer is silent.\<close>

definition answer_ids :: "(string \<times> string) option \<Rightarrow> dict \<Rightarrow> json \<times> json" where
  "answer_ids fallback d =
     (case fallback of
        None \<Rightarrow> (dget d ''license_id'', dget d ''device_id'')
      | Some (l, i) \<Rightarrow> (py_or (dget d ''license_id'') (JStr l), py_or (dget d ''device_id'') (JStr i)))"

definition installable ::
  "license_env \<Rightarrow> (string \<times> string) option \<Rightarrow> dict \<Rightarrow> client_error + string \<times> string \<times> dict \<times> dict" where
  "installable ev fallback d =
     (case dget d ''lease'' of
        JObj lease \<Rightarrow>
          (case and_then (configured_public_keys ev) (\<lambda>keys. verify_lease_document ev keys lease) of
             Inl code \<Rightarrow> Inl (Client_Error code 502)
           | Inr payload \<Rightarrow>
               (case answer_ids fallback d of
                  (JStr l, JStr i) \<Rightarrow>
                    if dget payload ''license_id'' = JStr l \<and> dget payload ''device_id'' = JStr i then Inr (l, i, lease, payload)
                    else Inl (Client_Error ''LICENSE_DEVICE_MISMATCH'' 502)
                | _ \<Rightarrow> Inl (Client_Error ''LICENSE_DEVICE_MISMATCH'' 502)))
      | _ \<Rightarrow> Inl response_invalid)"

text \<open>The marker of a recovery: it names this device and the lease has just been issued.\<close>

definition recovery_time :: "license_env \<Rightarrow> device_identity \<Rightarrow> time \<Rightarrow> dict \<Rightarrow> client_error + time option" where
  "recovery_time ev di now payload =
     (if dget payload ''recovery'' = JNull then Inr None
      else if sub_object (dget payload ''recovery'') ''device_public_key'' \<noteq> JStr (di_public_key di)
      then Inl (Client_Error ''LICENSE_RECOVERY_PROOF_INVALID'' 502)
      else case and_then (timestamp ev (dget payload ''server_time'') ''LICENSE_SERVER_TIME_INVALID'') (\<lambda>server.
               and_then (timestamp ev (dget payload ''issued_at'') ''LICENSE_ISSUED_AT_INVALID'') (\<lambda>issued. Inr (server, issued))) of
             Inl code \<Rightarrow> Inl (Client_Error code 502)
           | Inr (server, issued) \<Rightarrow>
               if server \<noteq> issued \<or> minutes 5 < \<bar>now - server\<bar> then Inl (Client_Error ''LICENSE_RECOVERY_RESPONSE_STALE'' 502)
               else Inr (Some server))"

text \<open>\<^verbatim>\<open>_recover_corrupt_trusted_time\<close>: only a text that cannot be parsed is replaced; \<open>garbled\<close> says that this, and not
the operating system, made the file unreadable.\<close>

definition recover_trusted_time :: "bool \<Rightarrow> time \<Rightarrow> time \<Rightarrow> string \<Rightarrow> string \<Rightarrow> license_disk \<Rightarrow> license_disk" where
  "recover_trusted_time garbled now server l i k =
     (if read_json False (li_trusted k) = Inl ''LICENSE_STATE_INVALID'' \<and> (li_trusted k = Unreadable \<longrightarrow> garbled)
      then k\<lparr>li_trusted := trusted_document l i server (max now server)\<rparr> else k)"

definition binding_document :: "string \<Rightarrow> string \<Rightarrow> license_file" where
  "binding_document l i = Document (JObj [(''protocol_version'', JInt 1), (''license_id'', JStr l), (''device_id'', JStr i)])"

definition install ::
  "license_env \<Rightarrow> device_identity \<Rightarrow> bool \<Rightarrow> time \<Rightarrow> (string \<times> string) option \<Rightarrow> dict \<Rightarrow> license_disk \<Rightarrow>
   (client_error + entitlement_decision) \<times> license_disk" where
  "install ev di garbled now fallback d k =
     (case and_then (installable ev fallback d) (\<lambda>(l, i, lease, payload).
             and_then (recovery_time ev di now payload) (\<lambda>r. Inr (l, i, lease, r))) of
        Inl e \<Rightarrow> (Inl e, k)
      | Inr (l, i, lease, r) \<Rightarrow>
          let k1 = k\<lparr>li_binding := binding_document l i, li_lease := Document (JObj lease)\<rparr>;
              k2 = (case r of None \<Rightarrow> k1 | Some server \<Rightarrow> recover_trusted_time garbled now server l i k1);
              decision = evaluate_lease ev now True k2
          in (Inr (fst decision), snd decision))"

section \<open>The operations\<close>

text \<open>\<^verbatim>\<open>"".join(s.split())\<close> and \<^verbatim>\<open>upper\<close>.\<close>

definition without_space :: "string \<Rightarrow> string" where
  "without_space s = filter (\<lambda>c. \<not> is_space c) s"

definition group_char :: "char \<Rightarrow> bool" where
  "group_char c \<longleftrightarrow> (CHR ''2'' \<le> c \<and> c \<le> CHR ''9'') \<or> (CHR ''A'' \<le> c \<and> c \<le> CHR ''H'') \<or> (CHR ''J'' \<le> c \<and> c \<le> CHR ''N'') \<or>
     (CHR ''P'' \<le> c \<and> c \<le> CHR ''Z'')"

definition code_group :: "string \<Rightarrow> bool" where
  "code_group g \<longleftrightarrow> length g = 5 \<and> list_all group_char g"

text \<open>Four groups of five after the two letters.\<close>

definition code_format :: "string \<Rightarrow> string \<Rightarrow> bool" where
  "code_format letters s \<longleftrightarrow> (case split_on (CHR ''-'') s of
       p # gs \<Rightarrow> p = letters \<and> length gs = 4 \<and> list_all code_group gs | [] \<Rightarrow> False)"

definition claim_format :: "string \<Rightarrow> bool" where
  "claim_format s \<longleftrightarrow> 32 \<le> length s \<and> length s \<le> 64 \<and> list_all base64_char s"

definition clear_local_license_state :: "license_disk \<Rightarrow> license_disk" where
  "clear_local_license_state k = k\<lparr>li_lease := Absent, li_trusted := Absent, li_binding := Absent\<rparr>"

type_synonym client_operation = "license_disk \<Rightarrow> (client_error + entitlement_decision) \<times> license_disk"

definition redeem ::
  "license_env \<Rightarrow> device_identity \<Rightarrow> bool \<Rightarrow> time \<Rightarrow> string \<Rightarrow> (nat \<Rightarrow> transport_failure + service_answer) \<Rightarrow> string \<Rightarrow> client_operation" where
  "redeem ev di garbled now request_id attempts activation_code k =
     (if \<not> code_format ''SC'' (without_space (map upper_char activation_code)) then (Inl (Client_Error ''INVALID_CODE'' 400), k)
      else case post di ''/v1/licenses/redeem'' request_id attempts of
        Inl e \<Rightarrow> (Inl e, k)
      | Inr d \<Rightarrow> install ev di garbled now None d k)"

definition activate_trial ::
  "license_env \<Rightarrow> device_identity \<Rightarrow> bool \<Rightarrow> (string \<Rightarrow> string) \<Rightarrow> time \<Rightarrow> string \<Rightarrow> (nat \<Rightarrow> transport_failure + service_answer) \<Rightarrow> string \<Rightarrow>
   client_operation" where
  "activate_trial ev di garbled casefold now request_id attempts subject k =
     (let n = length (code_points (casefold (strip subject)))
      in if n < 3 \<or> 254 < n then (Inl (Client_Error ''LICENSE_TRIAL_SUBJECT_INVALID'' 400), k)
         else case post di ''/v1/trials/activate'' request_id attempts of
           Inl e \<Rightarrow> (Inl e, k)
         | Inr d \<Rightarrow> install ev di garbled now None d k)"

definition refresh ::
  "license_env \<Rightarrow> device_identity \<Rightarrow> bool \<Rightarrow> time \<Rightarrow> string \<Rightarrow> (nat \<Rightarrow> transport_failure + service_answer) \<Rightarrow> client_operation" where
  "refresh ev di garbled now request_id attempts k =
     (case own_binding k of
        Inl e \<Rightarrow> (Inl e, k)
      | Inr b \<Rightarrow>
          (case post di ''/v1/licenses/check'' request_id attempts of
             Inl (Client_Error code st) \<Rightarrow>
               (Inl (Client_Error code st), if code = ''LICENSE_DELETED'' then clear_local_license_state k else k)
           | Inr d \<Rightarrow> install ev di garbled now (Some b) d k))"

definition transfer_answer :: "dict \<Rightarrow> client_error + dict" where
  "transfer_answer d =
     (case (dget d ''transfer_code'', dget d ''claim_token'', dget d ''expires_at'') of
        (JStr c, JStr t, JStr e) \<Rightarrow> if code_format ''TR'' c \<and> claim_format t then Inr d else Inl response_invalid
      | _ \<Rightarrow> Inl response_invalid)"

definition request_transfer ::
  "device_identity \<Rightarrow> string \<Rightarrow> (nat \<Rightarrow> transport_failure + service_answer) \<Rightarrow> client_error + dict" where
  "request_transfer di request_id attempts = and_then (post di ''/v1/transfers/request'' request_id attempts) transfer_answer"

definition claim_transfer ::
  "license_env \<Rightarrow> device_identity \<Rightarrow> bool \<Rightarrow> time \<Rightarrow> string \<Rightarrow> (nat \<Rightarrow> transport_failure + service_answer) \<Rightarrow> string \<Rightarrow> string \<Rightarrow>
   client_operation" where
  "claim_transfer ev di garbled now request_id attempts transfer_code claim_token k =
     (if \<not> code_format ''TR'' (without_space (map upper_char transfer_code)) then (Inl (Client_Error ''INVALID_TRANSFER_CODE'' 400), k)
      else if \<not> claim_format (without_space claim_token) then (Inl (Client_Error ''INVALID_TRANSFER_CLAIM'' 400), k)
      else case post di ''/v1/transfers/claim'' request_id attempts of
        Inl e \<Rightarrow> (Inl e, k)
      | Inr d \<Rightarrow> install ev di garbled now None d k)"

definition has_local_license_binding :: "license_disk \<Rightarrow> bool" where
  "has_local_license_binding k =
     (case read_json True (li_binding k) of
        Inl _ \<Rightarrow> False
      | Inr b \<Rightarrow>
          (case (dget b ''license_id'', dget b ''device_id'') of
             (JStr l, JStr i) \<Rightarrow> strip l \<noteq> [] \<and> strip i \<noteq> []
           | _ \<Rightarrow> False))"

text \<open>\<^verbatim>\<open>_desktop_license_operation\<close> of \<^verbatim>\<open>main.py\<close>: the answer of a request; the code in lower case.\<close>

definition operation_response :: "client_error + 'a \<Rightarrow> http_error + 'a" where
  "operation_response r =
     (case r of
        Inl (Client_Error code st) \<Rightarrow> Inl (HTTPException (if st \<in> {401, 403} then 409 else st) (lower code))
      | Inr x \<Rightarrow> Inr x)"

section \<open>What is installed\<close>

lemma installable_ok:
  assumes "installable ev fallback d = Inr (l, i, lease, payload)"
  shows "\<exists>keys. configured_public_keys ev = Inr keys \<and> verify_lease_document ev keys lease = Inr payload \<and>
    dget payload ''license_id'' = JStr l \<and> dget payload ''device_id'' = JStr i"
proof -
  obtain lease' where 1: "dget d ''lease'' = JObj lease'"
    using assms by (auto simp: installable_def split: json.splits)
  obtain keys payload' where 2: "configured_public_keys ev = Inr keys" "verify_lease_document ev keys lease' = Inr payload'"
    using assms 1 by (auto simp: installable_def and_then_Inr split: sum.splits)
  obtain a b where 3: "answer_ids fallback d = (a, b)" by (cases "answer_ids fallback d")
  show ?thesis
    using assms 1 2 3 by (auto simp: installable_def split: json.splits if_splits)
qed

lemma installE:
  assumes "install ev di garbled now fallback d k = (r, k')"
  obtains e where "r = Inl e" "k' = k"
  | l i lease payload k2 where "installable ev fallback d = Inr (l, i, lease, payload)"
      "li_binding k2 = binding_document l i" "li_lease k2 = Document (JObj lease)"
      "li_trusted k2 = li_trusted k \<or> (\<exists>server. k2 = recover_trusted_time garbled now server l i
         (k\<lparr>li_binding := binding_document l i, li_lease := Document (JObj lease)\<rparr>))"
      "r = Inr (fst (evaluate_lease ev now True k2))" "k' = snd (evaluate_lease ev now True k2)"
proof (cases "and_then (installable ev fallback d) (\<lambda>(l, i, lease, payload).
    and_then (recovery_time ev di now payload) (\<lambda>r. Inr (l, i, lease, r)))")
  case (Inl e)
  then have "r = Inl e" "k' = k" using assms by (simp_all add: install_def)
  then show ?thesis by (rule that(1))
next
  case (Inr y)
  obtain l i lease rt where y: "y = (l, i, lease, rt)" by (cases y)
  then obtain payload where p: "installable ev fallback d = Inr (l, i, lease, payload)"
    using Inr by (auto simp: and_then_Inr)
  let ?k1 = "k\<lparr>li_binding := binding_document l i, li_lease := Document (JObj lease)\<rparr>"
  let ?k2 = "case rt of None \<Rightarrow> ?k1 | Some server \<Rightarrow> recover_trusted_time garbled now server l i ?k1"
  have "r = Inr (fst (evaluate_lease ev now True ?k2))" "k' = snd (evaluate_lease ev now True ?k2)"
    using assms Inr y by (simp_all add: install_def Let_def)
  moreover have "li_binding ?k2 = binding_document l i" "li_lease ?k2 = Document (JObj lease)"
    by (auto simp: recover_trusted_time_def split: option.split)
  moreover have "li_trusted ?k2 = li_trusted k \<or> (\<exists>server. ?k2 = recover_trusted_time garbled now server l i ?k1)"
    by (cases rt) auto
  ultimately show ?thesis by (intro that(2) [OF p])
qed

lemma evaluate_lease_files:
  "li_lease (snd (evaluate_lease ev now r k)) = li_lease k" "li_binding (snd (evaluate_lease ev now r k)) = li_binding k"
  by (auto simp: evaluate_lease_def trusted_effective_time_def Let_def split: sum.split)

lemma evaluation_files:
  "li_lease (snd (evaluate_search_entitlement ev now r k)) = li_lease k"
  "li_binding (snd (evaluate_search_entitlement ev now r k)) = li_binding k"
  by (auto simp: evaluate_search_entitlement_def evaluate_lease_files Let_def split: sum.split)

lemma evaluate_lease_remembers: "remembers t k \<Longrightarrow> remembers t (snd (evaluate_lease ev now r k))"
  using effective_remembered [OF _ prod.collapse [symmetric], of t k ev now _ _ _ r]
  by (auto simp: evaluate_lease_def Let_def split: sum.split)

lemma remembers_readable: "remembers t k \<Longrightarrow> recover_trusted_time g now s l i k = k"
  by (auto simp: remembers_def recover_trusted_time_def trusted_document_def read_json_def)

lemma remembers_trusted: "li_trusted k' = li_trusted k \<Longrightarrow> remembers t k' = remembers t k"
  by (simp add: remembers_def)

lemma install_remembers:
  assumes "install ev di garbled now fallback d k = (r, k')" "remembers t k"
  shows "remembers t k'"
  using assms(1)
proof (rule installE)
  fix l i lease payload k2
  assume k2: "li_trusted k2 = li_trusted k \<or> (\<exists>server. k2 = recover_trusted_time garbled now server l i
      (k\<lparr>li_binding := binding_document l i, li_lease := Document (JObj lease)\<rparr>))"
    and k': "k' = snd (evaluate_lease ev now True k2)"
  have "remembers t (k\<lparr>li_binding := binding_document l i, li_lease := Document (JObj lease)\<rparr>)"
    using assms(2) by (simp add: remembers_def)
  then have "remembers t k2"
    using k2 assms(2) remembers_readable remembers_trusted [of k2 k] by metis
  then show ?thesis using k' evaluate_lease_remembers by simp
qed (use assms(2) in simp)

text \<open>The lease on the disk carries a signature that a configured key verifies, over exactly its payload, and it is the
lease of the licence and the device of the binding.\<close>

definition signed_by_service :: "license_env \<Rightarrow> dict \<Rightarrow> dict \<Rightarrow> bool" where
  "signed_by_service ev lease payload \<longleftrightarrow> (\<exists>keys key_id pk signature msg.
     configured_public_keys ev = Inr keys \<and> keys key_id = Some pk \<and> dget lease ''payload'' = JObj payload \<and>
     dget lease ''signature'' = JStr signature \<and> canonical_json (JObj payload) = Some msg \<and>
     le_verify ev pk signature (LEASE_MESSAGE_PREFIX @ msg))"

definition authentic :: "license_env \<Rightarrow> license_disk \<Rightarrow> bool" where
  "authentic ev k \<longleftrightarrow> li_lease k = Absent \<or>
     (\<exists>lease payload l i. li_lease k = Document (JObj lease) \<and> signed_by_service ev lease payload \<and>
        li_binding k = binding_document l i \<and> dget payload ''license_id'' = JStr l \<and> dget payload ''device_id'' = JStr i)"

lemma verified_signed:
  assumes "configured_public_keys ev = Inr keys" "verify_lease_document ev keys lease = Inr payload"
  shows "signed_by_service ev lease payload"
proof -
  obtain p sg where p: "dget lease ''payload'' = JObj p" "dget lease ''signature'' = JStr sg"
    using assms(2) by (auto simp: verify_lease_document_def split: json.splits)
  then obtain key_id pk where k: "keys key_id = Some pk" "signed_ok ev pk sg p = Inr payload"
    using assms(2) by (auto simp: verify_lease_document_def split: json.splits option.splits if_splits)
  then obtain msg where "canonical_json (JObj p) = Some msg" "le_verify ev pk sg (LEASE_MESSAGE_PREFIX @ msg)" "payload = p"
    by (auto simp: signed_ok_def and_then_Inr split: option.splits if_splits)
  then show ?thesis
    using assms(1) p k(1) by (auto simp: signed_by_service_def)
qed

lemma install_authentic:
  assumes "install ev di garbled now fallback d k = (r, k')" "authentic ev k"
  shows "authentic ev k' \<and> (li_lease k' = Absent \<longrightarrow> li_lease k = Absent)"
  using assms(1)
proof (rule installE)
  fix l i lease payload k2
  assume a: "installable ev fallback d = Inr (l, i, lease, payload)" "li_binding k2 = binding_document l i"
    "li_lease k2 = Document (JObj lease)" and k': "k' = snd (evaluate_lease ev now True k2)"
  have "signed_by_service ev lease payload" "dget payload ''license_id'' = JStr l" "dget payload ''device_id'' = JStr i"
    using installable_ok [OF a(1)] verified_signed by blast+
  then show ?thesis
    using a(2,3) by (auto simp: authentic_def k' evaluate_lease_files)
qed (use assms(2) in simp)

section \<open>Sequences of operations\<close>

inductive client_step :: "license_env \<Rightarrow> device_identity \<Rightarrow> (string \<Rightarrow> string) \<Rightarrow> license_disk \<Rightarrow> license_disk \<Rightarrow> bool"
  for ev di cf where
  redeem: "client_step ev di cf k (snd (redeem ev di garbled now rid attempts code k))"
| trial: "client_step ev di cf k (snd (activate_trial ev di garbled cf now rid attempts subject k))"
| refresh: "client_step ev di cf k (snd (refresh ev di garbled now rid attempts k))"
| claim: "client_step ev di cf k (snd (claim_transfer ev di garbled now rid attempts code token k))"
| evaluate: "client_step ev di cf k (snd (evaluate_search_entitlement ev now update k))"

text \<open>What each of them does to the files.\<close>

lemma client_stepE:
  assumes "client_step ev di cf k k'"
  obtains "k' = k" | "k' = clear_local_license_state k"
  | now update where "k' = snd (evaluate_search_entitlement ev now update k)"
  | garbled now fallback d r where "install ev di garbled now fallback d k = (r, k')"
  using assms
proof (cases rule: client_step.cases)
  case (redeem garbled now rid attempts code)
  then show ?thesis
    using that(1) that(4) [of garbled now None _ _] by (auto simp: redeem_def split: if_splits sum.splits) (metis prod.collapse)+
next
  case (trial garbled now rid attempts subject)
  then show ?thesis
    using that(1) that(4) [of garbled now None _ _]
    by (auto simp: activate_trial_def Let_def split: if_splits sum.splits) (metis prod.collapse)+
next
  case (claim garbled now rid attempts code token)
  then show ?thesis
    using that(1) that(4) [of garbled now None _ _] by (auto simp: claim_transfer_def split: if_splits sum.splits) (metis prod.collapse)+
next
  case (refresh garbled now rid attempts)
  then show ?thesis
    using that(1,2) that(4) [of garbled now _ _ _]
    by (auto simp: refresh_def split: if_splits sum.splits client_error.splits) (metis prod.collapse)+
next
  case (evaluate now update)
  then show ?thesis by (rule that(3))
qed

lemma client_step_authentic: "client_step ev di cf k k' \<Longrightarrow> authentic ev k \<Longrightarrow> authentic ev k'"
proof (erule client_stepE)
  show "authentic ev k'" if "k' = clear_local_license_state k"
    using that by (simp add: authentic_def clear_local_license_state_def)
  show "authentic ev k'" if "authentic ev k" "k' = snd (evaluate_search_entitlement ev now update k)" for now update
    using that by (simp add: authentic_def evaluation_files)
qed (auto dest: install_authentic)

text \<open>Nothing unsigned is ever installed. Whatever the network and the service answer, in any sequence of activations,
refreshes, transfers and evaluations, the lease on the disk is one that a configured key has signed for the
licence and device of the binding, or there is none.\<close>

theorem only_signed_leases_installed:
  assumes "(client_step ev di cf)\<^sup>*\<^sup>* k k'" "authentic ev k"
  shows "authentic ev k'"
  using assms by (induction rule: rtranclp_induct) (auto intro: client_step_authentic)

section \<open>An expired lease does not come back\<close>

lemma kept_step_remembers:
  assumes "client_step ev di cf k k'" "li_lease k' \<noteq> Absent" "remembers t k"
  shows "remembers t k'"
  using assms(1)
proof (rule client_stepE)
  show "remembers t k'" if "k' = clear_local_license_state k"
    using that assms(2) by (simp add: clear_local_license_state_def)
  show "remembers t k'" if "k' = snd (evaluate_search_entitlement ev now update k)" for now update
    using that assms(3) by (simp add: evaluation_keeps)
qed (use assms(3) install_remembers in auto)

lemma same_lease_same_terms:
  assumes "lease_terms_of ev k = Inr lt" "lease_terms_of ev k2 = Inr lt2" "li_lease k2 = li_lease k"
  shows "lt2 = lt"
proof -
  have ids: "dget p ''license_id'' = JStr (fst ids) \<and> dget p ''device_id'' = JStr (snd ids)" if "bound_ids b p = Inr ids" for b p ids
    using that by (cases ids) (auto simp: bound_ids_def split: json.splits if_splits)
  show ?thesis
    using assms by (auto simp: lease_terms_of_def and_then_Inr dest!: ids)
qed

text \<open>C40: an expired lease never comes back. After a decision refused because the lease or the subscription ran out, no
activation, refresh, transfer or evaluation, with whatever answers and whatever the clock shows, brings about a
later decision that allows a search with that lease, unless the service has deleted the licence in between.\<close>

theorem expired_lease_never_returns:
  assumes "evaluate_search_entitlement ev now True k = (Inr dec, k')"
    and "ed_reason dec = Some ''LICENSE_LEASE_EXPIRED'' \<or> ed_reason dec = Some ''LICENSE_SUBSCRIPTION_EXPIRED''"
    and "(\<lambda>a b. client_step ev di cf a b \<and> li_lease b \<noteq> Absent)\<^sup>*\<^sup>* k' k2" "li_lease k2 = li_lease k"
    and "fst (evaluate_search_entitlement ev later update k2) = Inr dec'"
  shows "\<not> ed_can_search dec' \<and> ed_mode dec' = ''required''"
proof -
  obtain c where c: "ed_reason dec = Some c" "ran_out c"
    using assms(2) by (auto simp: ran_out_def)
  obtain lt t where lt: "lease_terms_of ev k = Inr lt" "decide ev lt t = Inl c" "remembers t k'"
    using ran_out_evaluation [OF assms(1) c] by blast
  have m: "remembers t k2"
    using assms(3) by (induction rule: rtranclp_induct) (auto intro: lt(3) kept_step_remembers)
  have required: "enforcement_mode ev = Inr ''required''"
    using assms(1) c(1)
    by (auto simp: evaluate_search_entitlement_def Let_def plain_decision_def split: sum.splits if_splits)
  show ?thesis
  proof (cases "lease_terms_of ev k2")
    case (Inl e)
    then show ?thesis
      using assms(5) required by (auto simp: evaluate_search_entitlement_def evaluate_lease_def blocked_def plain_decision_def)
  next
    case (Inr lt2)
    then have "lt2 = lt" using same_lease_same_terms lt(1) assms(4) by blast
    obtain res k3 where tr: "trusted_effective_time ev later (lt_server lt) (lt_license lt) (lt_device lt) update k2 = (res, k3)"
      by (cases "trusted_effective_time ev later (lt_server lt) (lt_license lt) (lt_device lt) update k2")
    have "\<exists>c'. and_then res (decide ev lt) = Inl c'"
      using effective_remembered [OF m tr] refused_later [OF lt(2)] by (cases res) auto
    then show ?thesis
      using assms(5) Inr \<open>lt2 = lt\<close> required tr
      by (auto simp: evaluate_search_entitlement_def evaluate_lease_def decided_def blocked_def plain_decision_def)
  qed
qed

text \<open>A licence that the service has deleted is gone at once.\<close>

lemma deleted_license_blocks:
  assumes "post di ''/v1/licenses/check'' rid attempts = Inl (Client_Error ''LICENSE_DELETED'' st)" "own_binding k \<in> range Inr"
    and "refresh ev di garbled now rid attempts k = (r, k')"
  shows "fst (evaluate_lease ev later update k') = blocked ''LICENSE_NOT_CONFIGURED'' \<and> \<not> has_local_license_binding k'"
proof -
  have "k' = clear_local_license_state k"
    using assms by (auto simp: refresh_def)
  then show ?thesis
    by (simp add: evaluate_lease_def lease_terms_of_def read_json_def clear_local_license_state_def has_local_license_binding_def)
qed

section \<open>Examples\<close>

definition device_sample :: device_identity where
  "device_sample = \<lparr>di_public_key = ''P'', di_fingerprint_hash = ''F'', di_label = ''desk'', di_sign = (\<lambda>_. ''sig'')\<rparr>"

definition lease_answer :: "nat \<Rightarrow> transport_failure + service_answer" where
  "lease_answer _ = Inr \<lparr>sa_size = 900, sa_status = 200, sa_body = Some (JObj
     [(''ok'', JBool True), (''data'', JObj [(''license_id'', JStr ''L''), (''device_id'', JStr ''D''),
       (''lease'', case li_lease lease_sample of Document j \<Rightarrow> j | _ \<Rightarrow> JNull)])])\<rparr>"

definition new_disk :: license_disk where
  "new_disk = \<lparr>li_binding = Absent, li_lease = Absent, li_trusted = Absent\<rparr>"

lemma new_disk_authentic: "authentic ev new_disk"
  by (simp add: authentic_def new_disk_def)

text \<open>The answer of the service to an activation, which allows the search.\<close>

definition signed_sample :: dict where
  "signed_sample = (case li_lease lease_sample of Document (JObj d) \<Rightarrow> d | _ \<Rightarrow> [])"

definition answer_sample :: dict where
  "answer_sample = [(''license_id'', JStr ''L''), (''device_id'', JStr ''D''), (''lease'', JObj signed_sample)]"

definition payload_sample :: dict where
  "payload_sample = (case dget signed_sample ''payload'' of JObj d \<Rightarrow> d | _ \<Rightarrow> [])"

definition activated_disk :: license_disk where
  "activated_disk = new_disk\<lparr>li_binding := binding_document ''L'' ''D'', li_lease := Document (JObj signed_sample)\<rparr>"

definition code_sample :: string where
  "code_sample = ''SC-AAAAA-AAAAA-AAAAA-AAAAA''"

lemma code_sample_accepted: "code_format ''SC'' (without_space (map upper_char code_sample))"
  by code_simp

lemma lease_posted: "post device_sample ''/v1/licenses/redeem'' ''r'' lease_answer = Inr answer_sample"
  by code_simp

lemma sample_installable: "installable lease_env_sample None answer_sample = Inr (''L'', ''D'', signed_sample, payload_sample)"
  by code_simp

lemma sample_not_recovered: "recovery_time lease_env_sample device_sample 12 payload_sample = Inr None"
  by code_simp

lemma activated_can_search: "ed_can_search (fst (evaluate_lease lease_env_sample 12 True activated_disk))"
  by code_simp

lemma activation_allows_search:
  "\<exists>dec k. redeem lease_env_sample device_sample False 12 ''r'' lease_answer code_sample new_disk = (Inr dec, k) \<and>
     ed_can_search dec"
  using activated_can_search
  by (simp add: redeem_def code_sample_accepted lease_posted install_def sample_installable sample_not_recovered activated_disk_def Let_def)

theorem only_signed_leases_installed_witness:
  "authentic lease_env_sample (snd (redeem lease_env_sample device_sample False 12 ''r'' lease_answer code_sample new_disk))"
  by (rule only_signed_leases_installed [OF r_into_rtranclp new_disk_authentic]) (rule client_step.redeem)

text \<open>Two evaluations, at the time of the expiry and with the clock turned back.\<close>

lemma evaluated_again:
  "(\<lambda>a b. client_step lease_env_sample device_sample id a b \<and> li_lease b \<noteq> Absent)\<^sup>*\<^sup>* lease_after
     (after_evaluations lease_env_sample [(12, True)] lease_after)"
  by (rule r_into_rtranclp)
    (auto simp: after_evaluations_def evaluation_files lease_after_def lease_sample_def intro: client_step.evaluate)

lemma evaluated_again_lease: "li_lease (after_evaluations lease_env_sample [(12, True)] lease_after) = li_lease lease_sample"
  by (simp add: after_evaluations_def evaluation_files lease_after_def)

theorem expired_lease_never_returns_witness:
  "\<not> ed_can_search (blocked ''LICENSE_LEASE_EXPIRED'') \<and> ed_mode (blocked ''LICENSE_LEASE_EXPIRED'') = ''required''"
  by (rule expired_lease_never_returns
      [OF lease_sample_expires _ evaluated_again evaluated_again_lease lease_sample_rolled_back])
    (simp add: blocked_def plain_decision_def)

end
