(* ===== verification/LiveUpdates.thy ===== *)
theory LiveUpdates
  imports Main
begin

text \<open>
  The announcement of scan changes to open windows, \<^verbatim>\<open>backend/app/live_updates.py\<close>: the broker with the queues of its
  subscribers, each of one place, and the interleaving of threads that publish with the window that reads. A
  publication is three calls on the queue; between them anything may happen.
\<close>

section \<open>The broker\<close>

type_synonym event = int

record broker =
  br_subscribers :: "int \<Rightarrow> nat set"
  br_queue :: "nat \<Rightarrow> event option"

definition subscribe :: "int \<Rightarrow> nat \<Rightarrow> broker \<Rightarrow> broker" where
  "subscribe owner sub b = b\<lparr>br_subscribers := (br_subscribers b)(owner := insert sub (br_subscribers b owner)),
     br_queue := (br_queue b)(sub := None)\<rparr>"

definition unsubscribe :: "nat \<Rightarrow> broker \<Rightarrow> broker" where
  "unsubscribe sub b = b\<lparr>br_subscribers := (\<lambda>owner. br_subscribers b owner - {sub})\<rparr>"

datatype queue_error = Full | Empty

definition put_nowait :: "event \<Rightarrow> event option \<Rightarrow> queue_error + event option" where
  "put_nowait e q = (case q of None \<Rightarrow> Inr (Some e) | Some _ \<Rightarrow> Inl Full)"

definition get_nowait :: "event option \<Rightarrow> queue_error + event option" where
  "get_nowait q = (case q of None \<Rightarrow> Inl Empty | Some _ \<Rightarrow> Inr None)"

text \<open>One subscriber, when nobody else touches its queue.\<close>

definition announce :: "event \<Rightarrow> event option \<Rightarrow> event option" where
  "announce e q =
     (case put_nowait e q of
        Inr q' \<Rightarrow> q'
      | Inl _ \<Rightarrow>
          (case get_nowait q of
             Inl _ \<Rightarrow> q
           | Inr q1 \<Rightarrow> (case put_nowait e q1 of Inr q2 \<Rightarrow> q2 | Inl _ \<Rightarrow> q1)))"

definition publish :: "int \<Rightarrow> event \<Rightarrow> broker \<Rightarrow> broker" where
  "publish owner scan b = b\<lparr>br_queue := (\<lambda>sub. if sub \<in> br_subscribers b owner then announce scan (br_queue b sub) else br_queue b sub)\<rparr>"

lemma announce_latest: "announce e q = Some e"
  by (cases q) (simp_all add: announce_def put_nowait_def get_nowait_def)

text \<open>Every window of the account holds the latest change; windows of other accounts hear nothing.\<close>

lemma published_to_owner:
  "br_queue (publish owner scan b) sub =
     (if sub \<in> br_subscribers b owner then Some scan else br_queue b sub)"
  by (simp add: publish_def announce_latest)

lemma left_windows_hear_nothing:
  "br_queue (publish owner scan (unsubscribe sub b)) sub = br_queue b sub"
  by (simp add: published_to_owner unsubscribe_def)

section \<open>Interleaving\<close>

text \<open>The queue of one subscriber, the stage of each publication and, for the statement, whether the window has taken an
event since the publication began.\<close>

datatype stage = Idle | Putting | Replacing | Retrying | Finished

record live_state =
  lv_queue :: "event option"
  lv_stage :: "nat \<Rightarrow> stage"
  lv_woken :: "nat \<Rightarrow> bool"

inductive live_step :: "(nat \<Rightarrow> event) \<Rightarrow> live_state \<Rightarrow> live_state \<Rightarrow> bool" for ev where
  start: "lv_stage s p = Idle \<Longrightarrow>
    live_step ev s (s\<lparr>lv_stage := (lv_stage s)(p := Putting), lv_woken := (lv_woken s)(p := False)\<rparr>)"
| put: "lv_stage s p = Putting \<Longrightarrow> put_nowait (ev p) (lv_queue s) = Inr q \<Longrightarrow>
    live_step ev s (s\<lparr>lv_stage := (lv_stage s)(p := Finished), lv_queue := q\<rparr>)"
| full: "lv_stage s p = Putting \<Longrightarrow> put_nowait (ev p) (lv_queue s) = Inl Full \<Longrightarrow>
    live_step ev s (s\<lparr>lv_stage := (lv_stage s)(p := Replacing)\<rparr>)"
| take: "lv_stage s p = Replacing \<Longrightarrow> get_nowait (lv_queue s) = Inr q \<Longrightarrow>
    live_step ev s (s\<lparr>lv_stage := (lv_stage s)(p := Retrying), lv_queue := q\<rparr>)"
| taken: "lv_stage s p = Replacing \<Longrightarrow> get_nowait (lv_queue s) = Inl Empty \<Longrightarrow>
    live_step ev s (s\<lparr>lv_stage := (lv_stage s)(p := Finished)\<rparr>)"
| retry: "lv_stage s p = Retrying \<Longrightarrow> put_nowait (ev p) (lv_queue s) = Inr q \<Longrightarrow>
    live_step ev s (s\<lparr>lv_stage := (lv_stage s)(p := Finished), lv_queue := q\<rparr>)"
| give_up: "lv_stage s p = Retrying \<Longrightarrow> put_nowait (ev p) (lv_queue s) = Inl Full \<Longrightarrow>
    live_step ev s (s\<lparr>lv_stage := (lv_stage s)(p := Finished)\<rparr>)"
| read: "lv_queue s = Some e \<Longrightarrow> live_step ev s (s\<lparr>lv_queue := None, lv_woken := (\<lambda>_. True)\<rparr>)"

inductive_cases live_stepE: "live_step ev s s'"

definition heard :: "live_state \<Rightarrow> nat \<Rightarrow> bool" where
  "heard s p \<longleftrightarrow> lv_woken s p \<or> lv_queue s \<noteq> None \<or> (\<exists>r. lv_stage s r = Retrying)"

definition nothing_lost :: "live_state \<Rightarrow> bool" where
  "nothing_lost s \<longleftrightarrow> (\<forall>p. lv_stage s p \<in> {Replacing, Finished} \<longrightarrow> heard s p)"

lemma heard_other:
  assumes "heard s q" "lv_stage s p \<noteq> Retrying"
    and "lv_stage s' = (lv_stage s)(p := st)" "lv_queue s' = lv_queue s" "lv_woken s' q = lv_woken s q"
  shows "heard s' q"
proof (cases "\<exists>r. lv_stage s r = Retrying")
  case True
  then obtain r where r: "lv_stage s r = Retrying" ..
  then have "r \<noteq> p" using assms(2) by auto
  with r have "lv_stage s' r = Retrying" using assms(3) by simp
  then show ?thesis by (auto simp: heard_def)
next
  case False
  then show ?thesis using assms(1,4,5) by (auto simp: heard_def)
qed

lemma nothing_lost_if:
  "lv_queue s \<noteq> None \<Longrightarrow> nothing_lost s" "lv_stage s r = Retrying \<Longrightarrow> nothing_lost s" "lv_woken s = (\<lambda>_. True) \<Longrightarrow> nothing_lost s"
  by (auto simp: nothing_lost_def heard_def)

lemma put_nowait_simps: "put_nowait e q = Inr q' \<Longrightarrow> q' = Some e" "put_nowait e q = Inl Full \<Longrightarrow> q \<noteq> None"
  by (auto simp: put_nowait_def split: option.splits)

lemma nothing_lost_step: "live_step ev s s' \<Longrightarrow> nothing_lost s \<Longrightarrow> nothing_lost s'"
proof (induction rule: live_step.induct)
  case (start s p)
  have "heard (s\<lparr>lv_stage := (lv_stage s)(p := Putting), lv_woken := (lv_woken s)(p := False)\<rparr>) q"
    if "q \<noteq> p" "heard s q" for q
    by (rule heard_other [where s = s and p = p and st = Putting]) (use that start(1) in simp_all)
  then show ?case using start by (auto simp: nothing_lost_def)
next
  case (taken s p)
  have "heard (s\<lparr>lv_stage := (lv_stage s)(p := Finished)\<rparr>) q" if "heard s q" for q
    by (rule heard_other [where s = s and p = p and st = Finished]) (use that taken(1) in simp_all)
  then show ?case using taken by (auto simp: nothing_lost_def)
next
  case (take s p q)
  show ?case by (rule nothing_lost_if(2) [where r = p]) simp
next
  case (put s p q)
  show ?case by (rule nothing_lost_if(1)) (use put_nowait_simps(1) [OF put(2)] in simp)
next
  case (full s p)
  show ?case by (rule nothing_lost_if(1)) (use put_nowait_simps(2) [OF full(2)] in simp)
next
  case (retry s p q)
  show ?case by (rule nothing_lost_if(1)) (use put_nowait_simps(1) [OF retry(2)] in simp)
next
  case (give_up s p)
  show ?case by (rule nothing_lost_if(1)) (use put_nowait_simps(2) [OF give_up(2)] in simp)
next
  case (read s e)
  show ?case by (rule nothing_lost_if(3)) simp
qed

text \<open>No change is lost on the way to a window. However publications of several threads and the reading window
interleave, once no publication is under way the window has taken an event since the beginning of each finished
one, or an event is waiting for it.\<close>

theorem scan_change_reaches_window:
  assumes "(live_step ev)\<^sup>*\<^sup>* s s'" "\<forall>p. lv_stage s p = Idle"
    and "\<forall>p. lv_stage s' p \<in> {Idle, Finished}" "lv_stage s' p = Finished"
  shows "lv_woken s' p \<or> lv_queue s' \<noteq> None"
proof -
  have "nothing_lost s'"
    using assms(1)
  proof (induction rule: rtranclp_induct)
    case base
    then show ?case using assms(2) by (simp add: nothing_lost_def)
  qed (rule nothing_lost_step)
  then have "heard s' p" using assms(4) by (simp add: nothing_lost_def)
  moreover have "lv_stage s' r \<noteq> Retrying" for r
    using assms(3) by (metis insertE singletonD stage.distinct(13,19,5) stage.simps)
  ultimately show ?thesis by (simp add: heard_def)
qed

text \<open>A publication never waits: at every stage before the last it can go on, and it ends after at most three calls.\<close>

definition calls_left :: "stage \<Rightarrow> nat" where
  "calls_left st = (case st of Idle \<Rightarrow> 4 | Putting \<Rightarrow> 3 | Replacing \<Rightarrow> 2 | Retrying \<Rightarrow> 1 | Finished \<Rightarrow> 0)"

lemma publication_goes_on:
  "lv_stage s p \<noteq> Finished \<Longrightarrow> \<exists>s'. live_step ev s s' \<and> calls_left (lv_stage s' p) < calls_left (lv_stage s p)"
proof (cases "lv_stage s p"; cases "lv_queue s")
qed (force simp: calls_left_def put_nowait_def get_nowait_def intro: live_step.intros)+

text \<open>One publication to a window with an empty queue.\<close>

definition quiet_queue :: live_state where
  "quiet_queue = \<lparr>lv_queue = None, lv_stage = (\<lambda>_. Idle), lv_woken = (\<lambda>_. False)\<rparr>"

definition announced_queue :: live_state where
  "announced_queue = \<lparr>lv_queue = Some 7, lv_stage = (\<lambda>_. Idle)(0 := Finished), lv_woken = (\<lambda>_. False)\<rparr>"

lemma sample_publication: "(live_step (\<lambda>_. 7))\<^sup>*\<^sup>* quiet_queue announced_queue"
proof -
  let ?s = "quiet_queue\<lparr>lv_stage := (lv_stage quiet_queue)(0 := Putting), lv_woken := (lv_woken quiet_queue)(0 := False)\<rparr>"
  have "live_step (\<lambda>_. 7) quiet_queue ?s"
    by (rule live_step.start) (simp add: quiet_queue_def)
  moreover have "live_step (\<lambda>_. 7) ?s (?s\<lparr>lv_stage := (lv_stage ?s)(0 := Finished), lv_queue := Some 7\<rparr>)"
    by (rule live_step.put) (simp_all add: quiet_queue_def put_nowait_def)
  moreover have "?s\<lparr>lv_stage := (lv_stage ?s)(0 := Finished), lv_queue := Some 7\<rparr> = announced_queue"
    by (simp add: quiet_queue_def announced_queue_def fun_eq_iff)
  ultimately show ?thesis by (metis r_into_rtranclp rtranclp.rtrancl_into_rtrancl)
qed

lemma scan_change_reaches_window_witness: "lv_queue announced_queue \<noteq> None"
proof -
  have "lv_woken announced_queue 0 \<or> lv_queue announced_queue \<noteq> None"
    by (rule scan_change_reaches_window [OF sample_publication]) (simp_all add: quiet_queue_def announced_queue_def)
  then show ?thesis by (simp add: announced_queue_def)
qed

end
