(* ===== verification/Auth.thy ===== *)
theory Auth
  imports Samples PyStd StoragePaths
begin

unbundle bit_operations_syntax

text \<open>
  \<^verbatim>\<open>backend/app/auth.py\<close> and the requests of \<^verbatim>\<open>backend/app/main.py\<close> under \<^verbatim>\<open>/api/auth\<close>: password checks,
  sessions and their tokens, the guards of a request, login, logout, password change, profile,
  registration and the bootstrap of an administrator. What the code takes from packages is the record
  \<open>env\<close>: the password hasher of \<^verbatim>\<open>pwdlib\<close> and the case folding of user names; random tokens are
  arguments. SHA-256 and HMAC are computed.
\<close>

section \<open>Environment and requests\<close>

record env =
  ev_hash_password :: "string \<Rightarrow> string"
  ev_verify_password :: "string \<Rightarrow> string \<Rightarrow> bool"
  ev_fold :: "string \<Rightarrow> string"
  ev_secret :: string
  ev_session_days :: int
  ev_registration_enabled :: bool
  ev_allowed_origins :: string

record request =
  rq_origin :: "string option"
  rq_client :: "string option"
  rq_user_agent :: "string option"
  rq_token :: "string option"
  rq_csrf_cookie :: "string option"
  rq_csrf_header :: "string option"

definition normalize_username :: "env \<Rightarrow> string \<Rightarrow> string" where
  "normalize_username ev v = ev_fold ev (strip v)"

definition sentinel :: string where
  "sentinel = ''invalid-password-sentinel''"

definition verify_password :: "env \<Rightarrow> string \<Rightarrow> string \<Rightarrow> bool" where
  "verify_password ev password stored =
     ev_verify_password ev password
       (if starts_with ''!'' stored then ev_hash_password ev sentinel else stored)"

definition secure_hash :: "string \<Rightarrow> string" where
  "secure_hash = sha256_hex"

definition word_bytes :: "32 word \<Rightarrow> nat list" where
  "word_bytes w = map (\<lambda>i. unat (drop_bit (8 * (3 - i)) w AND 255)) [0..<4]"

definition sha256_bytes :: "nat list \<Rightarrow> nat list" where
  "sha256_bytes m = concat (map word_bytes (sha256_words m))"

definition hmac_key :: "nat list \<Rightarrow> nat list" where
  "hmac_key k = (let k' = (if 64 < length k then sha256_bytes k else k) in k' @ replicate (64 - length k') 0)"

definition hmac_hex :: "string \<Rightarrow> string \<Rightarrow> string" where
  "hmac_hex key msg =
     (let k = hmac_key (map of_char key);
          inner = sha256_bytes (map (\<lambda>b. b XOR 54) k @ map of_char msg)
      in concat (map hex_word (sha256_words (map (\<lambda>b. b XOR 92) k @ inner))))"

definition privacy_hash :: "env \<Rightarrow> string option \<Rightarrow> string option" where
  "privacy_hash ev v =
     (case v of None \<Rightarrow> None | Some s \<Rightarrow> if s = [] then None else Some (hmac_hex (ev_secret ev) s))"

definition request_ip_hash :: "env \<Rightarrow> request \<Rightarrow> string option" where
  "request_ip_hash ev rq = privacy_hash ev (rq_client rq)"

definition request_user_agent_hash :: "env \<Rightarrow> request \<Rightarrow> string option" where
  "request_user_agent_hash ev rq = privacy_hash ev (rq_user_agent rq)"

definition rstrip_slash :: "string \<Rightarrow> string" where
  "rstrip_slash s = rev (dropWhile (\<lambda>c. c = CHR ''/'') (rev s))"

definition allowed_origins :: "env \<Rightarrow> string list" where
  "allowed_origins ev = map (\<lambda>o'. rstrip_slash (strip o'))
     (filter (\<lambda>o'. strip o' \<noteq> []) (split_on (CHR '','') (ev_allowed_origins ev)))"

definition origin_refused :: "env \<Rightarrow> request \<Rightarrow> bool" where
  "origin_refused ev rq =
     (case rq_origin rq of
        None \<Rightarrow> False
      | Some o' \<Rightarrow> o' \<noteq> [] \<and> rstrip_slash o' \<notin> set (allowed_origins ev))"

section \<open>Sessions\<close>

definition set_user :: "int \<Rightarrow> (user \<Rightarrow> user) \<Rightarrow> db \<Rightarrow> db" where
  "set_user i f d = d\<lparr>users := update_where (\<lambda>u. u_id u = i) f (users d)\<rparr>"

definition set_session :: "int \<Rightarrow> (auth_session \<Rightarrow> auth_session) \<Rightarrow> db \<Rightarrow> db" where
  "set_session i f d = d\<lparr>auth_sessions := update_where (\<lambda>s. as_id s = i) f (auth_sessions d)\<rparr>"

definition session_of_token :: "db \<Rightarrow> string \<Rightarrow> auth_session option" where
  "session_of_token d token = first_row (\<lambda>s. as_token_hash s = secure_hash token) (auth_sessions d)"

definition live_session :: "time \<Rightarrow> auth_session \<Rightarrow> bool" where
  "live_session t s \<longleftrightarrow> as_revoked_at s = None \<and> t < as_expires_at s"

abbreviation authentication_required :: http_error where
  "authentication_required \<equiv> HTTPException 401 ''authentication_required''"

definition touch_session :: "time \<Rightarrow> user \<Rightarrow> auth_session \<Rightarrow> db \<Rightarrow> db" where
  "touch_session t u s d =
     (if as_last_seen_at s < t - minutes 5
      then set_user (u_id u) (\<lambda>u. u\<lparr>u_last_activity_at := Some t\<rparr>)
             (set_session (as_id s) (\<lambda>s. s\<lparr>as_last_seen_at := t\<rparr>) d)
      else d)"

text \<open>\<^verbatim>\<open>get_auth_context\<close>: the account and the session of the request, and the touched database.\<close>

definition get_auth_context :: "time \<Rightarrow> request \<Rightarrow> (db, int \<times> auth_session) handler" where
  "get_auth_context t rq d =
     (case rq_token rq of
        None \<Rightarrow> (Inl authentication_required, d)
      | Some token \<Rightarrow>
          if token = [] then (Inl authentication_required, d)
          else (case session_of_token d token of
            None \<Rightarrow> (Inl authentication_required, d)
          | Some s \<Rightarrow>
              if \<not> live_session t s then (Inl authentication_required, d)
              else (case get_user d (as_user_id s) of
                None \<Rightarrow> (Inl authentication_required, d)
              | Some u \<Rightarrow>
                  if u_status u \<noteq> ACTIVE then (Inl authentication_required, d)
                  else (Inr (u_id u, s), touch_session t u s d))))"

definition csrf_refused :: "auth_session \<Rightarrow> request \<Rightarrow> bool" where
  "csrf_refused s rq \<longleftrightarrow>
     (case rq_csrf_header rq of
        None \<Rightarrow> True
      | Some supplied \<Rightarrow> supplied = [] \<or> secure_hash supplied \<noteq> as_csrf_hash s)"

text \<open>The dependencies of a request: a signed-in account, one that proved its CSRF token, an administrator.
  What follows gets the account and the session.\<close>

definition with_user :: "time \<Rightarrow> request \<Rightarrow> (user \<Rightarrow> auth_session \<Rightarrow> (db, 'a) handler) \<Rightarrow> (db, 'a) handler" where
  "with_user t rq k d =
     (case get_auth_context t rq d of
        (Inl e, d') \<Rightarrow> (Inl e, d')
      | (Inr (i, s), d') \<Rightarrow>
          (case get_user d' i of None \<Rightarrow> (Inl authentication_required, d') | Some u \<Rightarrow> k u s d'))"

definition require_csrf ::
  "env \<Rightarrow> time \<Rightarrow> request \<Rightarrow> (user \<Rightarrow> auth_session \<Rightarrow> (db, 'a) handler) \<Rightarrow> (db, 'a) handler" where
  "require_csrf ev t rq k = with_user t rq (\<lambda>u s d.
     if origin_refused ev rq then (Inl (HTTPException 403 ''origin_not_allowed''), d)
     else if csrf_refused s rq then (Inl (HTTPException 403 ''csrf_validation_failed''), d)
     else k u s d)"

definition require_admin :: "time \<Rightarrow> request \<Rightarrow> (user \<Rightarrow> (db, 'a) handler) \<Rightarrow> (db, 'a) handler" where
  "require_admin t rq k = with_user t rq (\<lambda>u s d.
     if u_role u \<noteq> ADMIN then (Inl (HTTPException 403 ''admin_required''), d) else k u d)"

definition create_session :: "env \<Rightarrow> time \<Rightarrow> request \<Rightarrow> int \<Rightarrow> string \<Rightarrow> string \<Rightarrow> db \<Rightarrow> auth_session" where
  "create_session ev t rq usr token csrf d =
     \<lparr>as_id = fresh_id (map as_id (auth_sessions d)), as_user_id = usr,
      as_token_hash = secure_hash token, as_csrf_hash = secure_hash csrf,
      as_expires_at = t + days (ev_session_days ev), as_last_seen_at = t, as_revoked_at = None,
      as_ip_hash = request_ip_hash ev rq, as_user_agent_hash = request_user_agent_hash ev rq\<rparr>"

text \<open>\<^verbatim>\<open>sync_csrf_cookie\<close>: the token the browser gets and the session's hash of it; \<open>fresh\<close> is the token drawn
  if the cookie does not match.\<close>

definition sync_csrf_cookie :: "request \<Rightarrow> string \<Rightarrow> auth_session \<Rightarrow> (string \<times> bool) \<times> auth_session" where
  "sync_csrf_cookie rq fresh s =
     (case rq_csrf_cookie rq of
        Some c \<Rightarrow>
          if c \<noteq> [] \<and> secure_hash c = as_csrf_hash s then ((c, False), s)
          else ((fresh, True), s\<lparr>as_csrf_hash := secure_hash fresh\<rparr>)
      | None \<Rightarrow> ((fresh, True), s\<lparr>as_csrf_hash := secure_hash fresh\<rparr>))"

definition revoke_user_sessions :: "time \<Rightarrow> int \<Rightarrow> int option \<Rightarrow> db \<Rightarrow> db" where
  "revoke_user_sessions t usr except d = d\<lparr>auth_sessions :=
     update_where (\<lambda>s. as_user_id s = usr \<and> as_revoked_at s = None \<and> except \<noteq> Some (as_id s))
       (\<lambda>s. s\<lparr>as_revoked_at := Some t\<rparr>) (auth_sessions d)\<rparr>"

section \<open>The account as the API shows it\<close>

record user_view =
  uv_user :: user
  uv_passwordless_workspace :: bool
  uv_project_count :: nat
  uv_car_count :: nat
  uv_scan_count :: nat

definition user_out :: "db \<Rightarrow> user \<Rightarrow> user_view" where
  "user_out d u =
     (let mine = (\<lambda>p. \<exists>x \<in> set (projects d). p_id x = p \<and> p_owner_id x = u_id u)
      in \<lparr>uv_user = u,
          uv_passwordless_workspace =
            (u_username_key u = ''searchcar-workspace'' \<and> u_password_hash u = ''!desktop-workspace''),
          uv_project_count = length (filter (\<lambda>p. p_owner_id p = u_id u) (projects d)),
          uv_car_count = length (remdups (map pc_car_id
             (filter (\<lambda>l. mine (pc_project_id l) \<and> pc_tracking_enabled l) (project_cars d)))),
          uv_scan_count = length (filter (\<lambda>r. r_owner_id r = u_id u) (scan_runs d))\<rparr>)"

definition user_view_of :: "db \<Rightarrow> int \<Rightarrow> http_error + user_view" where
  "user_view_of d i = (case get_user d i of
     Some u \<Rightarrow> Inr (user_out d u) | None \<Rightarrow> Inl (HTTPException 500 ''internal_error''))"

definition user_audit :: "string \<Rightarrow> int option \<Rightarrow> int option \<Rightarrow> bool \<Rightarrow> dict option \<Rightarrow> audit_log" where
  "user_audit action actor target entity payload = (audit_entry action)\<lparr>
     al_actor_user_id := actor, al_target_user_id := target,
     al_entity_type := (if entity then Some ''USER'' else None),
     al_entity_id := (if entity then (case target of Some i \<Rightarrow> JStr (show_int i) | None \<Rightarrow> JNull) else JNull),
     al_payload := payload\<rparr>"

section \<open>Login and logout\<close>

text \<open>The time of an attempt is set by SQLite, in whole seconds. The query compares its text, without a fraction, with the text of the cutoff, with one: a time equal to the
  cutoff is the shorter text and does not count, so the comparison is a strict one.\<close>

definition failures_since :: "time \<Rightarrow> (auth_attempt \<Rightarrow> bool) \<Rightarrow> db \<Rightarrow> nat" where
  "failures_since cutoff P d =
     length (filter (\<lambda>a. P a \<and> \<not> aa_success a \<and> cutoff < aa_created_at a) (auth_attempts d))"

definition too_many_attempts :: "time \<Rightarrow> string \<Rightarrow> string option \<Rightarrow> db \<Rightarrow> bool" where
  "too_many_attempts t key ip d \<longleftrightarrow>
     5 \<le> failures_since (t - minutes 15) (\<lambda>a. aa_username_key a = key) d \<or>
     10 \<le> failures_since (t - minutes 15) (\<lambda>a. aa_ip_hash a = ip) d"

definition user_by_key :: "db \<Rightarrow> string \<Rightarrow> user option" where
  "user_by_key d key = first_row (\<lambda>u. u_username_key u = key) (users d)"

definition login_ok :: "env \<Rightarrow> string \<Rightarrow> user option \<Rightarrow> bool" where
  "login_ok ev password u \<longleftrightarrow>
     verify_password ev password (case u of Some x \<Rightarrow> u_password_hash x | None \<Rightarrow> ''!unknown-user'') \<and>
     (case u of Some x \<Rightarrow> u_status x = ACTIVE | None \<Rightarrow> False)"

definition add_attempt :: "time \<Rightarrow> string \<Rightarrow> string option \<Rightarrow> bool \<Rightarrow> db \<Rightarrow> db" where
  "add_attempt t key ip ok d = d\<lparr>auth_attempts := auth_attempts d @
     [\<lparr>aa_username_key = key, aa_ip_hash = ip, aa_success = ok, aa_created_at = whole_second t\<rparr>]\<rparr>"

definition failed_login :: "time \<Rightarrow> string \<Rightarrow> string option \<Rightarrow> user option \<Rightarrow> db \<Rightarrow> db" where
  "failed_login t key ip u d =
     audit ((user_audit ''LOGIN_FAILED'' None (map_option u_id u) False
        (Some [(''username_key'', JStr key), (''ip_hash'', jopt JStr ip)]))\<lparr>al_outcome := ''FAILED''\<rparr>)
       (add_attempt t key ip False d)"

definition open_login_session ::
  "env \<Rightarrow> time \<Rightarrow> request \<Rightarrow> user \<Rightarrow> string \<times> string \<times> string \<Rightarrow> db \<Rightarrow> string \<times> db" where
  "open_login_session ev t rq u tokens d =
     (let s = create_session ev t rq (u_id u) (fst tokens) (fst (snd tokens)) d;
          sync = sync_csrf_cookie rq (snd (snd tokens)) s
      in (fst (fst sync),
          audit (user_audit ''LOGIN_SUCCEEDED'' (Some (u_id u)) (Some (u_id u)) True None)
            (set_user (u_id u) (\<lambda>u. u\<lparr>u_last_login_at := Some t, u_last_activity_at := Some t\<rparr>)
              (d\<lparr>auth_sessions := auth_sessions d @ [snd sync]\<rparr>))))"

text \<open>A request is one step at one moment: the count, the check of the password and the record of the
  attempt are not separated, although requests in different threads of the server may interleave between
  them. \<open>tokens\<close>: the session token and the two CSRF tokens that are drawn. The answer is the account, the
  session token for the cookie and the CSRF token.\<close>

definition login ::
  "env \<Rightarrow> time \<Rightarrow> request \<Rightarrow> string \<times> string \<times> string \<Rightarrow> string \<Rightarrow> string \<Rightarrow>
   (db, user_view \<times> string \<times> string) handler" where
  "login ev t rq tokens username password d =
     (let key = normalize_username ev username; ip = request_ip_hash ev rq; u = user_by_key d key
      in if origin_refused ev rq then (Inl (HTTPException 403 ''origin_not_allowed''), d)
         else if too_many_attempts t key ip d then (Inl (HTTPException 429 ''too_many_login_attempts''), d)
         else case (login_ok ev password u, u) of
           (True, Some x) \<Rightarrow>
             let opened = open_login_session ev t rq x tokens (add_attempt t key ip True d)
             in (map_sum id (\<lambda>v. (v, fst tokens, fst opened)) (user_view_of (snd opened) (u_id x)), snd opened)
         | _ \<Rightarrow> (Inl (HTTPException 401 ''invalid_username_or_password''), failed_login t key ip u d))"

definition auth_me :: "env \<Rightarrow> time \<Rightarrow> request \<Rightarrow> string \<Rightarrow> (db, user_view \<times> string \<times> bool) handler" where
  "auth_me ev t rq fresh = with_user t rq (\<lambda>u s d.
     let sync = sync_csrf_cookie rq fresh s;
         d' = set_session (as_id s) (\<lambda>x. x\<lparr>as_csrf_hash := as_csrf_hash (snd sync)\<rparr>) d
     in (Inr (user_out d' u, fst (fst sync), ev_registration_enabled ev), d'))"

definition logout :: "env \<Rightarrow> time \<Rightarrow> request \<Rightarrow> (db, unit) handler" where
  "logout ev t rq = require_csrf ev t rq (\<lambda>u s d.
     (Inr (), audit (user_audit ''LOGOUT'' (Some (u_id u)) (Some (u_id u)) False None)
        (set_session (as_id s) (\<lambda>s. s\<lparr>as_revoked_at := Some t\<rparr>) d)))"

definition new_password ::
  "env \<Rightarrow> time \<Rightarrow> string \<Rightarrow> string \<Rightarrow> user \<Rightarrow> auth_session \<Rightarrow> (db, bool) handler" where
  "new_password ev t old new u s d =
     (if \<not> verify_password ev old (u_password_hash u)
      then (Inl (HTTPException 400 ''current_password_invalid''), d)
      else if old = new then (Inl (HTTPException 422 ''new_password_must_differ''), d)
      else (Inr False,
        audit (user_audit ''PASSWORD_CHANGED'' (Some (u_id u)) (Some (u_id u)) False None)
          (revoke_user_sessions t (u_id u) (Some (as_id s))
            (set_user (u_id u) (\<lambda>u. u\<lparr>u_password_hash := ev_hash_password ev new,
               u_must_change_password := False\<rparr>) d))))"

definition change_password :: "env \<Rightarrow> time \<Rightarrow> request \<Rightarrow> string \<Rightarrow> string \<Rightarrow> (db, bool) handler" where
  "change_password ev t rq old new = require_csrf ev t rq (new_password ev t old new)"

definition update_profile :: "env \<Rightarrow> time \<Rightarrow> request \<Rightarrow> string \<Rightarrow> (db, user_view) handler" where
  "update_profile ev t rq locale_code = require_csrf ev t rq (\<lambda>u s d.
     let d' = audit (user_audit ''USER_PROFILE_UPDATED'' (Some (u_id u)) (Some (u_id u)) True
                (Some [(''preferred_locale'', JStr locale_code)]))
                (set_user (u_id u) (\<lambda>u. u\<lparr>u_preferred_locale := locale_code\<rparr>) d)
     in (user_view_of d' (u_id u), d'))"

section \<open>New accounts\<close>

definition new_user :: "env \<Rightarrow> time \<Rightarrow> string \<Rightarrow> string \<Rightarrow> role \<Rightarrow> user_status \<Rightarrow> int option \<Rightarrow> bool \<Rightarrow> db \<Rightarrow> user" where
  "new_user ev t username password_hash rl st limit must_change d =
     \<lparr>u_id = fresh_id (map u_id (users d)), u_username = strip username,
      u_username_key = normalize_username ev username, u_password_hash = password_hash, u_role = rl,
      u_status = st, u_project_limit = limit, u_must_change_password = must_change,
      u_preferred_locale = ''ru'', u_last_login_at = None, u_last_activity_at = None, u_created_at = whole_second t\<rparr>"

definition add_user :: "user \<Rightarrow> db \<Rightarrow> db" where
  "add_user u d = d\<lparr>users := users d @ [u]\<rparr>"

definition register :: "env \<Rightarrow> time \<Rightarrow> request \<Rightarrow> string \<Rightarrow> string \<Rightarrow> (db, string) handler" where
  "register ev t rq username password d =
     (if origin_refused ev rq then (Inl (HTTPException 403 ''origin_not_allowed''), d)
      else if \<not> ev_registration_enabled ev then (Inl (HTTPException 404 ''registration_disabled''), d)
      else if user_by_key d (normalize_username ev username) \<noteq> None then (Inr ''PENDING_APPROVAL'', d)
      else
        let u = new_user ev t username (ev_hash_password ev password) USER PENDING_APPROVAL (Some 1) False d
        in (Inr ''PENDING_APPROVAL'',
            audit (user_audit ''REGISTRATION_REQUESTED'' None (Some (u_id u)) True None) (add_user u d)))"

text \<open>\<^verbatim>\<open>bootstrap_admin\<close>: \<open>None\<close> is the \<^verbatim>\<open>ValueError\<close> for the length of the password.\<close>

definition bootstrap_user :: "env \<Rightarrow> time \<Rightarrow> string \<Rightarrow> db \<Rightarrow> user \<times> db" where
  "bootstrap_user ev t username d =
     (case user_by_key d (normalize_username ev username) of
        Some u \<Rightarrow> (u, d)
      | None \<Rightarrow>
          let u = new_user ev t username ''!bootstrap-required'' ADMIN ACTIVE None True d in (u, add_user u d))"

definition bootstrap_admin :: "env \<Rightarrow> time \<Rightarrow> string \<Rightarrow> string \<Rightarrow> bool \<Rightarrow> db \<Rightarrow> (int \<times> db) option" where
  "bootstrap_admin ev t username password must_change d =
     (if length password < 8 \<or> 128 < length password then None
      else
        let ud = bootstrap_user ev t username d; i = u_id (fst ud)
        in Some (i, audit (user_audit ''ADMIN_BOOTSTRAPPED'' (Some i) (Some i) True None)
             (revoke_user_sessions t i None
               (set_user i (\<lambda>u. u\<lparr>u_username := strip username, u_password_hash := ev_hash_password ev password,
                  u_role := ADMIN, u_status := ACTIVE, u_project_limit := None,
                  u_must_change_password := must_change\<rparr>) (snd ud)))))"


section \<open>Guessing a password\<close>

text \<open>A series of login requests for one account, each with its time, request and password.\<close>

primrec login_series ::
  "env \<Rightarrow> string \<Rightarrow> (time \<times> request \<times> (string \<times> string \<times> string) \<times> string) list \<Rightarrow> db \<Rightarrow>
   (http_error + unit) list \<times> db" where
  "login_series ev username [] d = ([], d)"
| "login_series ev username (a # as) d =
     (let res = login ev (fst a) (fst (snd a)) (fst (snd (snd a))) username (snd (snd (snd a))) d;
          more = login_series ev username as (snd res)
      in (map_sum id (\<lambda>_. ()) (fst res) # fst more, snd more))"

abbreviation wrong_password :: "http_error + unit" where
  "wrong_password \<equiv> Inl (HTTPException 401 ''invalid_username_or_password'')"

lemma attempts_audit [simp]: "auth_attempts (audit a d) = auth_attempts d"
  by (simp add: audit_def)

lemma login_attempts:
  "auth_attempts (snd (login ev t rq tokens username password d)) = auth_attempts d \<or>
   (\<exists>ok. auth_attempts (snd (login ev t rq tokens username password d)) =
      auth_attempts (add_attempt t (normalize_username ev username) (request_ip_hash ev rq) ok d))"
  by (auto simp: login_def Let_def failed_login_def open_login_session_def set_user_def
      split: option.split bool.split)

lemma login_wrong:
  assumes "map_sum id (\<lambda>_. ()) (fst (login ev t rq tokens username password d)) = wrong_password"
  shows "\<not> too_many_attempts t (normalize_username ev username) (request_ip_hash ev rq) d \<and>
    auth_attempts (snd (login ev t rq tokens username password d)) =
      auth_attempts (add_attempt t (normalize_username ev username) (request_ip_hash ev rq) False d)"
  using assms
  by (auto simp: login_def Let_def failed_login_def user_view_of_def
      split: if_splits option.splits bool.splits prod.splits)

lemma failures_since_add:
  "auth_attempts d' = auth_attempts (add_attempt t key ip ok d) \<Longrightarrow>
   failures_since c P d' = failures_since c P d + (if P \<lparr>aa_username_key = key, aa_ip_hash = ip,
     aa_success = ok, aa_created_at = whole_second t\<rparr> \<and> \<not> ok \<and> c < whole_second t then 1 else 0)"
  by (cases ok) (simp_all add: failures_since_def add_attempt_def)

lemma failures_since_mono: "c \<le> c' \<Longrightarrow> failures_since c' P d \<le> failures_since c P d"
proof -
  assume le: "c \<le> c'"
  have "length (filter A xs) \<le> length (filter B xs)" if "\<And>x. A x \<Longrightarrow> B x" for A B :: "auth_attempt \<Rightarrow> bool" and xs
    using that by (induction xs) (auto simp: le_SucI)
  then show ?thesis using le unfolding failures_since_def by (metis (no_types, lifting) le_less_trans)
qed

lemma failures_since_same: "auth_attempts d' = auth_attempts d \<Longrightarrow> failures_since c P d' = failures_since c P d"
  by (simp add: failures_since_def)

lemma whole_second_close: "whole_second t \<le> t \<and> t - 1000000 < whole_second t"
  using pos_mod_bound [of 1000000 t] pos_mod_sign [of 1000000 t] by (simp add: whole_second_def)

text \<open>C31: guessing is throttled. Of login requests for one account that are handled one after the other
  within fifteen minutes less one second, at most five have their password checked and refused,
  whatever addresses they come from; failures of just before the window count as well. The second is
  lost because attempts are dated in whole seconds.\<close>

theorem at_most_five_guesses:
  assumes "\<forall>a \<in> set attempts. start \<le> fst a \<and> fst a \<le> start + minutes 15 - 1000000"
  shows "length (filter (\<lambda>r. r = wrong_password) (fst (login_series ev username attempts d))) +
    failures_since (start - 1000000) (\<lambda>a. aa_username_key a = normalize_username ev username) d \<le>
    max 5 (failures_since (start - 1000000) (\<lambda>a. aa_username_key a = normalize_username ev username) d)"
  using assms
proof (induction attempts arbitrary: d)
  case (Cons a attempts)
  let ?key = "normalize_username ev username"
  let ?n = "failures_since (start - 1000000) (\<lambda>a. aa_username_key a = ?key)"
  let ?r = "login ev (fst a) (fst (snd a)) (fst (snd (snd a))) username (snd (snd (snd a))) d"
  let ?c = "length (filter (\<lambda>r. r = wrong_password) (fst (login_series ev username attempts (snd ?r))))"
  have IH: "?c + ?n (snd ?r) \<le> max 5 (?n (snd ?r))" using Cons by simp
  show ?case
  proof (cases "map_sum id (\<lambda>_. ()) (fst ?r) = wrong_password")
    case True
    note w = login_wrong [OF True]
    have "failures_since (fst a - minutes 15) (\<lambda>a. aa_username_key a = ?key) d < 5"
      using w by (simp add: too_many_attempts_def)
    moreover have "?n d \<le> failures_since (fst a - minutes 15) (\<lambda>a. aa_username_key a = ?key) d"
      using Cons.prems by (intro failures_since_mono) auto
    ultimately have lt: "?n d < 5" by linarith
    have "?n (snd ?r) = ?n d + 1"
      using failures_since_add [OF conjunct2 [OF w], of "start - 1000000"] Cons.prems whole_second_close [of "fst a"]
      by simp
    with IH lt True show ?thesis by (simp add: Let_def)
  next
    case False
    have "?n d \<le> ?n (snd ?r)"
      using login_attempts [of ev "fst a" "fst (snd a)" "fst (snd (snd a))" username "snd (snd (snd a))" d]
    proof (elim disjE exE)
      assume "auth_attempts (snd ?r) = auth_attempts d"
      then show ?thesis by (simp add: failures_since_same [of "snd ?r" d])
    next
      fix ok
      assume "auth_attempts (snd ?r) = auth_attempts (add_attempt (fst a) ?key
        (request_ip_hash ev (fst (snd a))) ok d)"
      from failures_since_add [OF this] show ?thesis by simp
    qed
    with IH False show ?thesis by (simp add: Let_def)
  qed
qed simp

section \<open>Sessions that end\<close>

lemma auth_session_table: "auth_sessions (d\<lparr>auth_sessions := x\<rparr>) = x"
  by simp

lemma revoked_session_dead:
  assumes "session_of_token (revoke_user_sessions t usr except d) token = Some s"
    and "as_user_id s = usr" and "except \<noteq> Some (as_id s)"
  shows "as_revoked_at s \<noteq> None"
proof -
  let ?P = "\<lambda>s. as_user_id s = usr \<and> as_revoked_at s = None \<and> except \<noteq> Some (as_id s)"
  have "s \<in> set (update_where ?P (\<lambda>s. s\<lparr>as_revoked_at := Some t\<rparr>) (auth_sessions d))"
    using conjunct1 [OF first_row_Some [OF assms(1) [unfolded session_of_token_def]]]
    unfolding revoke_user_sessions_def by (simp only: auth_session_table)
  then obtain x where "s = (if ?P x then x\<lparr>as_revoked_at := Some t\<rparr> else x)"
    unfolding update_where_def set_map by (rule imageE)
  then show ?thesis using assms(2,3) by (cases "?P x") simp_all
qed

lemma dead_session_refused:
  assumes "rq_token rq = Some token" and "session_of_token d token = Some s" and "as_revoked_at s \<noteq> None"
  shows "get_auth_context t rq d = (Inl authentication_required, d)"
  using assms by (simp add: get_auth_context_def live_session_def)

lemma session_audit [simp]: "session_of_token (audit a d) token = session_of_token d token"
  by (simp add: session_of_token_def audit_def)

lemma get_user_id: "get_user d i = Some u \<Longrightarrow> u_id u = i"
  by (auto simp: get_user_def dest: first_row_Some)

lemma with_user_ok:
  assumes "with_user t rq k d = (Inr r, d')"
  shows "\<exists>u s d1. get_auth_context t rq d = (Inr (u_id u, s), d1) \<and> get_user d1 (u_id u) = Some u \<and>
    k u s d1 = (Inr r, d')"
proof (cases "get_auth_context t rq d")
  case (Pair x d1)
  show ?thesis
  proof (cases x)
    case (Inl e)
    then show ?thesis using assms Pair by (simp add: with_user_def)
  next
    case (Inr q)
    then obtain u where "get_user d1 (fst q) = Some u" "k u (snd q) d1 = (Inr r, d')"
      using assms Pair by (cases q; cases "get_user d1 (fst q)") (simp_all add: with_user_def)
    then show ?thesis using Pair Inr get_user_id [of d1 "fst q" u] by (cases q) auto
  qed
qed

lemma require_csrf_ok:
  assumes "require_csrf ev t rq k d = (Inr r, d')"
  shows "\<exists>u s d1. get_auth_context t rq d = (Inr (u_id u, s), d1) \<and> get_user d1 (u_id u) = Some u \<and>
    \<not> csrf_refused s rq \<and> k u s d1 = (Inr r, d')"
proof -
  obtain u s d1 where "get_auth_context t rq d = (Inr (u_id u, s), d1)" "get_user d1 (u_id u) = Some u"
    and k: "(if origin_refused ev rq then (Inl (HTTPException 403 ''origin_not_allowed''), d1)
     else if csrf_refused s rq then (Inl (HTTPException 403 ''csrf_validation_failed''), d1)
     else k u s d1) = (Inr r, d')"
    using with_user_ok [OF assms [unfolded require_csrf_def]] by blast
  moreover have "\<not> csrf_refused s rq" "k u s d1 = (Inr r, d')" using k by (simp_all split: if_splits)
  ultimately show ?thesis by blast
qed

section \<open>Invariants that requests keep\<close>

text \<open>What the session handling of a request keeps, a handler behind it keeps as soon as its own body does.\<close>

locale request_invariant =
  fixes I :: "db \<Rightarrow> bool"
  assumes touch: "I d \<Longrightarrow> I (touch_session t u s d)"
begin

lemma context_keeps: "I d \<Longrightarrow> I (snd (get_auth_context t rq d))"
  by (auto simp: get_auth_context_def touch split: option.split)

lemma with_user_keeps:
  assumes "I d" and "\<And>u s d. I d \<Longrightarrow> I (snd (k u s d))"
  shows "I (snd (with_user t rq k d))"
proof (cases "get_auth_context t rq d")
  case (Pair x d')
  then have "I d'" using context_keeps [OF assms(1), of t rq] by simp
  with Pair assms(2) show ?thesis
    by (cases x) (auto simp: with_user_def split: option.split)
qed

lemma require_csrf_keeps:
  assumes "I d" and "\<And>u s d. I d \<Longrightarrow> I (snd (k u s d))"
  shows "I (snd (require_csrf ev t rq k d))"
  unfolding require_csrf_def by (rule with_user_keeps [OF assms(1)]) (simp add: assms(2))

end

text \<open>C32: changing the password signs out every other session of the account: their tokens are refused.\<close>

theorem password_change_ends_other_sessions:
  assumes "change_password ev t rq old new d = (Inr r, d')"
  shows "\<exists>i s d1. get_auth_context t rq d = (Inr (i, s), d1) \<and>
    (\<forall>rq' token s' t'. rq_token rq' = Some token \<longrightarrow> session_of_token d' token = Some s' \<longrightarrow>
       as_user_id s' = i \<longrightarrow> as_id s' \<noteq> as_id s \<longrightarrow>
       get_auth_context t' rq' d' = (Inl authentication_required, d'))"
proof -
  obtain u s d1 where ctx: "get_auth_context t rq d = (Inr (u_id u, s), d1)"
    and k: "new_password ev t old new u s d1 = (Inr r, d')"
    using require_csrf_ok [OF assms [unfolded change_password_def]] by blast
  obtain d0 where d': "d' = audit (user_audit ''PASSWORD_CHANGED'' (Some (u_id u)) (Some (u_id u)) False None)
         (revoke_user_sessions t (u_id u) (Some (as_id s)) d0)"
    using k by (auto simp: new_password_def split: if_splits)
  have "get_auth_context t' rq' d' = (Inl authentication_required, d')"
    if "rq_token rq' = Some token" "session_of_token d' token = Some s'" "as_user_id s' = u_id u" "as_id s' \<noteq> as_id s"
    for rq' token s' t'
  proof (rule dead_session_refused [OF that(1,2)])
    show "as_revoked_at s' \<noteq> None"
      using that by (intro revoked_session_dead [of t "u_id u" "Some (as_id s)" d0 token]) (simp_all add: d')
  qed
  with ctx show ?thesis by blast
qed

section \<open>Accounts without a password\<close>

text \<open>An account whose stored password begins with an exclamation mark has no password: its hash is replaced by
  that of a fixed word. That word then opens the account.\<close>

lemma sentinel_opens_passwordless_account:
  assumes "ev_verify_password ev sentinel (ev_hash_password ev sentinel)"
    and "user_by_key d (normalize_username ev name) = Some u" and "u_status u = ACTIVE"
    and "starts_with ''!'' (u_password_hash u)"
  shows "login_ok ev sentinel (user_by_key d (normalize_username ev name))"
  using assms by (simp add: login_ok_def verify_password_def)


section \<open>Samples\<close>

definition sample_env :: env where
  "sample_env = \<lparr>ev_hash_password = (\<lambda>p. p), ev_verify_password = (=), ev_fold = (\<lambda>n. n),
     ev_secret = ''secret'', ev_session_days = 7, ev_registration_enabled = True, ev_allowed_origins = []\<rparr>"

definition sample_request :: "string \<Rightarrow> request" where
  "sample_request token = \<lparr>rq_origin = None, rq_client = None, rq_user_agent = None, rq_token = Some token,
     rq_csrf_cookie = None, rq_csrf_header = Some ''csrf''\<rparr>"

definition sample_session :: "int \<Rightarrow> int \<Rightarrow> string \<Rightarrow> auth_session" where
  "sample_session i usr hash = \<lparr>as_id = i, as_user_id = usr, as_token_hash = hash,
     as_csrf_hash = secure_hash ''csrf'', as_expires_at = 100, as_last_seen_at = 10, as_revoked_at = None,
     as_ip_hash = None, as_user_agent_hash = None\<rparr>"

definition signed_in :: "role \<Rightarrow> db" where
  "signed_in rl = empty_db\<lparr>users := [(sample_user 7 rl ACTIVE)\<lparr>u_password_hash := ''old''\<rparr>],
     auth_sessions := [sample_session 1 7 (secure_hash ''mine'')]\<rparr>"

lemma signed_in_context:
  "get_auth_context 20 (sample_request ''mine'') (signed_in rl) =
     (Inr (7, sample_session 1 7 (secure_hash ''mine'')), signed_in rl)"
  by (simp add: get_auth_context_def sample_request_def signed_in_def session_of_token_def sample_session_def
      live_session_def get_user_def sample_user_def touch_session_def minutes_def first_row_def)

lemma signed_in_user: "get_user (signed_in rl) 7 = Some ((sample_user 7 rl ACTIVE)\<lparr>u_password_hash := ''old''\<rparr>)"
  by (simp add: get_user_def signed_in_def sample_user_def first_row_def)

lemma signed_in_csrf:
  "require_csrf sample_env 20 (sample_request ''mine'') k (signed_in rl) =
     k ((sample_user 7 rl ACTIVE)\<lparr>u_password_hash := ''old''\<rparr>) (sample_session 1 7 (secure_hash ''mine'')) (signed_in rl)"
  by (simp add: require_csrf_def with_user_def signed_in_context signed_in_user)
    (simp add: origin_refused_def csrf_refused_def sample_request_def sample_session_def)

lemma password_change_ends_other_sessions_witness:
  "\<exists>d'. change_password sample_env 20 (sample_request ''mine'') ''old'' ''new'' (signed_in USER) = (Inr False, d') \<and>
     (\<exists>s d1. get_auth_context 20 (sample_request ''mine'') (signed_in USER) = (Inr (7, s), d1))"
proof -
  let ?u = "(sample_user 7 USER ACTIVE)\<lparr>u_password_hash := ''old''\<rparr>"
  let ?s = "sample_session 1 7 (secure_hash ''mine'')"
  have "fst (new_password sample_env 20 ''old'' ''new'' ?u ?s (signed_in USER)) = Inr False"
    by (simp add: new_password_def verify_password_def sample_env_def starts_with_def)
  then obtain d' where "change_password sample_env 20 (sample_request ''mine'') ''old'' ''new'' (signed_in USER) = (Inr False, d')"
    unfolding change_password_def signed_in_csrf by (metis prod.collapse)
  with password_change_ends_other_sessions [OF this] show ?thesis by (auto simp: signed_in_context)
qed

lemma at_most_five_guesses_witness:
  "length (filter (\<lambda>r. r = wrong_password) (fst (login_series sample_env ''name''
     (replicate 9 (5, sample_request [], ([], [], []), ''guess'')) empty_db))) \<le> 5"
  using at_most_five_guesses [of "replicate 9 (5, sample_request [], ([], [], []), ''guess'')" 1 sample_env "''name''" empty_db]
  by (simp add: minutes_def failures_since_def empty_db_def)

end
