(* ===== verification/Onboarding.thy ===== *)
theory Onboarding
  imports Auth
begin

text \<open>
  The workspace account of the desktop, \<^verbatim>\<open>backend/app/desktop_onboarding.py\<close>, with what uses it: the requests under
  \<^verbatim>\<open>/api/desktop/onboarding\<close> and the guard of the data tools (\<^verbatim>\<open>main.py\<close>), and the opening of the window
  (\<^verbatim>\<open>desktop_runtime.desktop_bootstrap\<close>). The answer of the licence service is an argument.
\<close>

section \<open>The workspace account\<close>

definition WORKSPACE_USERNAME :: string where "WORKSPACE_USERNAME = ''SearchCar''"
definition WORKSPACE_USERNAME_KEY :: string where "WORKSPACE_USERNAME_KEY = ''searchcar-workspace''"
definition WORKSPACE_PASSWORD_MARKER :: string where "WORKSPACE_PASSWORD_MARKER = ''!desktop-workspace''"

definition has_local_users :: "db \<Rightarrow> bool" where
  "has_local_users d \<longleftrightarrow> users d \<noteq> []"

definition is_workspace :: "user \<Rightarrow> bool" where
  "is_workspace u \<longleftrightarrow> u_username_key u = WORKSPACE_USERNAME_KEY \<and> u_password_hash u = WORKSPACE_PASSWORD_MARKER \<and>
     u_status u = ACTIVE"

definition desktop_workspace_user :: "db \<Rightarrow> user option" where
  "desktop_workspace_user d = first_row is_workspace (users d)"

definition as_workspace :: "user \<Rightarrow> user" where
  "as_workspace u = u\<lparr>u_username := WORKSPACE_USERNAME, u_username_key := WORKSPACE_USERNAME_KEY,
     u_password_hash := WORKSPACE_PASSWORD_MARKER, u_role := USER, u_status := ACTIVE, u_project_limit := None,
     u_must_change_password := False\<rparr>"

definition workspace_audit :: "string \<Rightarrow> int \<Rightarrow> string \<Rightarrow> audit_log" where
  "workspace_audit action i source = user_audit action (Some i) (Some i) True (Some [(''source'', JStr source)])"

datatype legacy_result = Empty | Multiple | Workspace | Migrated

definition migrate_legacy_desktop_workspace :: "db \<Rightarrow> legacy_result \<times> db" where
  "migrate_legacy_desktop_workspace d =
     (case users d of
        [] \<Rightarrow> (Empty, d)
      | [u] \<Rightarrow>
          if is_workspace u then (Workspace, set_user (u_id u) (\<lambda>u. u\<lparr>u_project_limit := None\<rparr>) d)
          else (Migrated, audit (workspace_audit ''DESKTOP_WORKSPACE_MIGRATED'' (u_id u) ''LEGACY_SINGLE_USER'')
            ((set_user (u_id u) as_workspace d)
              \<lparr>auth_sessions := filter (\<lambda>s. as_user_id s \<noteq> u_id u) (auth_sessions d), auth_attempts := []\<rparr>))
      | _ \<Rightarrow> (Multiple, d))"

definition workspace_row :: "time \<Rightarrow> string \<Rightarrow> db \<Rightarrow> user" where
  "workspace_row t preferred_locale d =
     \<lparr>u_id = fresh_id (map u_id (users d)), u_username = WORKSPACE_USERNAME, u_username_key = WORKSPACE_USERNAME_KEY,
      u_password_hash = WORKSPACE_PASSWORD_MARKER, u_role = USER, u_status = ACTIVE, u_project_limit = None,
      u_must_change_password = False, u_preferred_locale = preferred_locale, u_last_login_at = None,
      u_last_activity_at = None, u_created_at = whole_second t\<rparr>"

definition create_desktop_workspace :: "time \<Rightarrow> string \<Rightarrow> string \<Rightarrow> db \<Rightarrow> string + user \<times> db" where
  "create_desktop_workspace t preferred_locale source d =
     (if has_local_users d then Inl ''desktop_workspace_already_initialized''
      else
        let u = workspace_row t (if preferred_locale \<in> {''ru'', ''uk''} then preferred_locale else ''ru'') d
        in Inr (u, audit (workspace_audit ''DESKTOP_WORKSPACE_CREATED'' (u_id u) source) (add_user u d)))"

section \<open>Opening the window and the first start\<close>

text \<open>A new session with its synchronised CSRF cookie; the answer is the CSRF token.\<close>

definition open_workspace :: "env \<Rightarrow> time \<Rightarrow> request \<Rightarrow> int \<Rightarrow> string \<times> string \<times> string \<Rightarrow> db \<Rightarrow> string \<times> db" where
  "open_workspace ev t rq i tokens d =
     (let s = create_session ev t rq i (fst tokens) (fst (snd tokens)) d;
          sync = sync_csrf_cookie rq (snd (snd tokens)) s
      in (fst (fst sync),
          set_user i (\<lambda>u. u\<lparr>u_last_login_at := Some t, u_last_activity_at := Some t\<rparr>)
            (d\<lparr>auth_sessions := auth_sessions d @ [snd sync]\<rparr>)))"

abbreviation desktop_required :: http_error where
  "desktop_required \<equiv> HTTPException 404 ''desktop_runtime_required''"

abbreviation already_initialized :: http_error where
  "already_initialized \<equiv> HTTPException 409 ''desktop_workspace_already_initialized''"

text \<open>\<^verbatim>\<open>desktop_bootstrap\<close>: \<open>bound\<close> says whether this device has a licence binding. The answer is the session token
of the cookie, if somebody is signed in; a database with a strange account makes the request fail.\<close>

definition desktop_bootstrap ::
  "env \<Rightarrow> time \<Rightarrow> request \<Rightarrow> string \<times> string \<times> string \<Rightarrow> string \<Rightarrow> bool \<Rightarrow> string \<Rightarrow> (db, string option) handler" where
  "desktop_bootstrap ev t rq tokens session_secret bound token d =
     (if token \<noteq> session_secret then (Inl (HTTPException 403 ''invalid_desktop_session''), d)
      else case desktop_workspace_user d of
        Some u \<Rightarrow> (Inr (Some (fst tokens)), snd (open_workspace ev t rq (u_id u) tokens d))
      | None \<Rightarrow>
          if \<not> bound then (Inr None, d)
          else (case create_desktop_workspace t ''ru'' ''EXISTING_LICENSE_BINDING'' d of
              Inl _ \<Rightarrow> (Inl (HTTPException 500 ''internal_error''), d)
            | Inr (u, d') \<Rightarrow> (Inr (Some (fst tokens)), snd (open_workspace ev t rq (u_id u) tokens d'))))"

definition desktop_onboarding_status :: "bool \<Rightarrow> db \<Rightarrow> http_error + bool" where
  "desktop_onboarding_status desktop d = (if \<not> desktop then Inl desktop_required else Inr (\<not> has_local_users d))"

definition complete_desktop_onboarding ::
  "env \<Rightarrow> time \<Rightarrow> request \<Rightarrow> string \<times> string \<times> string \<Rightarrow> string \<Rightarrow> (db, user_view \<times> string \<times> string) handler" where
  "complete_desktop_onboarding ev t rq tokens preferred_locale d =
     (case create_desktop_workspace t preferred_locale ''LICENSE_ACTIVATION'' d of
        Inl e \<Rightarrow> (Inl (HTTPException 409 e), d)
      | Inr (u, d1) \<Rightarrow>
          let opened = open_workspace ev t rq (u_id u) tokens d1
          in (map_sum id (\<lambda>v. (v, fst tokens, fst opened)) (user_view_of (snd opened) (u_id u)), snd opened))"

text \<open>The guard shared by the requests of the first start; \<open>licence\<close> is the answer of the licence operation. Redeeming
an activation code and claiming a transfer differ in that operation only.\<close>

definition first_start :: "env \<Rightarrow> bool \<Rightarrow> request \<Rightarrow> (db, 'a) handler \<Rightarrow> (db, 'a) handler" where
  "first_start ev desktop rq k d =
     (if origin_refused ev rq then (Inl (HTTPException 403 ''origin_not_allowed''), d)
      else if \<not> desktop then (Inl desktop_required, d)
      else if has_local_users d then (Inl already_initialized, d)
      else k d)"

definition activate_desktop_workspace ::
  "env \<Rightarrow> bool \<Rightarrow> time \<Rightarrow> request \<Rightarrow> string \<times> string \<times> string \<Rightarrow> http_error option \<Rightarrow> string \<Rightarrow>
   (db, user_view \<times> string \<times> string) handler" where
  "activate_desktop_workspace ev desktop t rq tokens licence preferred_locale = first_start ev desktop rq (\<lambda>d.
     case licence of Some e \<Rightarrow> (Inl e, d) | None \<Rightarrow> complete_desktop_onboarding ev t rq tokens preferred_locale d)"

definition request_desktop_onboarding_transfer ::
  "env \<Rightarrow> bool \<Rightarrow> request \<Rightarrow> http_error + 'a \<Rightarrow> (db, 'a) handler" where
  "request_desktop_onboarding_transfer ev desktop rq licence = first_start ev desktop rq (\<lambda>d. (licence, d))"

definition claim_desktop_onboarding_transfer ::
  "env \<Rightarrow> bool \<Rightarrow> time \<Rightarrow> request \<Rightarrow> string \<times> string \<times> string \<Rightarrow> http_error option \<Rightarrow> string \<Rightarrow>
   (db, user_view \<times> string \<times> string) handler" where
  "claim_desktop_onboarding_transfer = activate_desktop_workspace"

text \<open>\<^verbatim>\<open>_require_desktop_data_access\<close>; \<open>None\<close> lets the request through.\<close>

definition require_desktop_data_access :: "bool \<Rightarrow> user \<Rightarrow> db \<Rightarrow> http_error option" where
  "require_desktop_data_access desktop u d =
     (if \<not> desktop then Some desktop_required
      else if u_role u = ADMIN then None
      else case desktop_workspace_user d of
          Some w \<Rightarrow> if u_id w = u_id u then None else Some (HTTPException 403 ''desktop_data_access_required'')
        | None \<Rightarrow> Some (HTTPException 403 ''desktop_data_access_required''))"

section \<open>Lemmas\<close>

lemma as_workspace_is [simp]: "is_workspace (as_workspace u)" "u_id (as_workspace u) = u_id u"
  by (simp_all add: is_workspace_def as_workspace_def)

lemma is_workspace_limit [simp]: "is_workspace (u\<lparr>u_project_limit := l\<rparr>) = is_workspace u"
  by (simp add: is_workspace_def)

lemma workspace_row_is: "is_workspace (workspace_row t l d)"
  by (simp add: is_workspace_def workspace_row_def)

lemma only_workspace: "users d = [u] \<Longrightarrow> is_workspace u \<Longrightarrow> desktop_workspace_user d = Some u"
  by (simp add: desktop_workspace_user_def first_row_def)

text \<open>A database without accounts other than the workspace.\<close>

definition workspace_only :: "db \<Rightarrow> bool" where
  "workspace_only d \<longleftrightarrow> length (users d) \<le> 1 \<and> list_all is_workspace (users d)"

lemma opened_users:
  "users (snd (open_workspace ev t rq i tokens d)) =
     update_where (\<lambda>u. u_id u = i) (\<lambda>u. u\<lparr>u_last_login_at := Some t, u_last_activity_at := Some t\<rparr>) (users d)"
  by (simp add: open_workspace_def Let_def set_user_def)

lemma update_where_workspace:
  "list_all is_workspace us \<Longrightarrow> (\<And>u. is_workspace u \<Longrightarrow> is_workspace (f u)) \<Longrightarrow> list_all is_workspace (update_where P f us)"
  by (induction us) auto

lemma opened_workspace_only: "workspace_only d \<Longrightarrow> workspace_only (snd (open_workspace ev t rq i tokens d))"
  unfolding workspace_only_def opened_users length_update_where
  by (auto intro!: update_where_workspace simp: is_workspace_def)

lemma created_workspace:
  assumes "create_desktop_workspace t l source d = Inr (u, d')"
  shows "users d = [] \<and> users d' = [u] \<and> is_workspace u \<and> workspace_only d'"
  using assms
  by (auto simp: create_desktop_workspace_def has_local_users_def Let_def add_user_def audit_def workspace_only_def
      workspace_row_is split: if_splits)

lemma migrated_workspace_only: "fst (migrate_legacy_desktop_workspace d) \<noteq> Multiple \<Longrightarrow> workspace_only (snd (migrate_legacy_desktop_workspace d))"
  by (auto simp: migrate_legacy_desktop_workspace_def workspace_only_def set_user_def audit_def split: list.splits if_splits)

text \<open>The account of an older installation becomes the hidden workspace in place. A single account keeps its id and
all its data; its password, its sessions and its role are gone; doing it again changes nothing; with several
accounts nothing is touched.\<close>

theorem legacy_account_becomes_workspace:
  "case migrate_legacy_desktop_workspace d of (result, d') \<Rightarrow>
     (result = Empty \<longleftrightarrow> users d = []) \<and> (result = Multiple \<longleftrightarrow> 1 < length (users d)) \<and>
     (result \<in> {Empty, Multiple} \<longrightarrow> d' = d) \<and>
     d' = d\<lparr>users := users d', auth_sessions := auth_sessions d', auth_attempts := auth_attempts d',
            audit_logs := audit_logs d'\<rparr> \<and>
     (\<forall>u. users d = [u] \<longrightarrow>
        (\<exists>u'. users d' = [u'] \<and> u_id u' = u_id u \<and> desktop_workspace_user d' = Some u' \<and> u_project_limit u' = None \<and>
           (result = Migrated \<longrightarrow> u_role u' = USER \<and> (\<forall>s \<in> set (auth_sessions d'). as_user_id s \<noteq> u_id u))) \<and>
        migrate_legacy_desktop_workspace d' = (Workspace, d'))"
proof -
  consider "users d = []" | u where "users d = [u]" "is_workspace u" | u where "users d = [u]" "\<not> is_workspace u"
    | u v us where "users d = u # v # us"
    by (cases "users d" rule: remdups_adj.cases) auto
  then show ?thesis
  proof cases
    case (2 u)
    then show ?thesis
      by (simp add: migrate_legacy_desktop_workspace_def set_user_def only_workspace)
  next
    case (3 u)
    have "as_workspace u\<lparr>u_project_limit := None\<rparr> = as_workspace u" "u_project_limit (as_workspace u) = None"
      "u_role (as_workspace u) = USER"
      by (simp_all add: as_workspace_def)
    then show ?thesis
      using 3 by (simp add: migrate_legacy_desktop_workspace_def set_user_def audit_def only_workspace)
  qed (simp_all add: migrate_legacy_desktop_workspace_def)
qed


text \<open>A session that has just been opened is accepted.\<close>

lemma opened_session_accepted:
  assumes "rq_token rq' = Some (fst tokens)" "fst tokens \<noteq> []" "get_user d i = Some u" "u_status u = ACTIVE"
    and "session_of_token d (fst tokens) = None" "t' < t + days (ev_session_days ev)"
  shows "\<exists>s. fst (get_auth_context t' rq' (snd (open_workspace ev t rq i tokens d))) = Inr (i, s)"
proof -
  let ?d = "snd (open_workspace ev t rq i tokens d)"
  let ?s = "snd (sync_csrf_cookie rq (snd (snd tokens)) (create_session ev t rq i (fst tokens) (fst (snd tokens)) d))"
  have s: "as_token_hash ?s = secure_hash (fst tokens)" "live_session t' ?s" "as_user_id ?s = i"
    using assms(6)
    by (auto simp: sync_csrf_cookie_def create_session_def live_session_def split: option.splits)
  have "auth_sessions ?d = auth_sessions d @ [?s]"
    by (simp add: open_workspace_def Let_def set_user_def)
  then have found: "session_of_token ?d (fst tokens) = Some ?s"
    using assms(5) s(1) by (simp add: session_of_token_def first_row_append)
  have u: "get_user ?d i = Some (u\<lparr>u_last_login_at := Some t, u_last_activity_at := Some t\<rparr>)"
    using assms(3) get_user_id [OF assms(3)] unfolding get_user_def opened_users
    by (simp add: first_row_update)
  have "get_auth_context t' rq' ?d = (Inr (i, ?s), touch_session t' (u\<lparr>u_last_login_at := Some t, u_last_activity_at := Some t\<rparr>) ?s ?d)"
    using found s assms(1,2,4) u get_user_id [OF assms(3)] by (simp add: get_auth_context_def)
  then show ?thesis by simp
qed


lemma created_get_user:
  "create_desktop_workspace t l source d = Inr (u, d') \<Longrightarrow> get_user d' (u_id u) = Some u \<and> u_status u = ACTIVE \<and>
     session_of_token d' token = session_of_token d token"
  using created_workspace [of t l source d u d']
  by (auto simp: get_user_def first_row_def is_workspace_def create_desktop_workspace_def Let_def session_of_token_def
      audit_def add_user_def split: if_splits)

lemma completed_onboarding:
  assumes "create_desktop_workspace t l ''LICENSE_ACTIVATION'' d = Inr (u, d1)"
  shows "\<exists>v csrf. complete_desktop_onboarding ev t rq tokens l d =
      (Inr (v, fst tokens, csrf), snd (open_workspace ev t rq (u_id u) tokens d1)) \<and>
    users (snd (open_workspace ev t rq (u_id u) tokens d1)) =
      [u\<lparr>u_last_login_at := Some t, u_last_activity_at := Some t\<rparr>]"
proof -
  have u: "users (snd (open_workspace ev t rq (u_id u) tokens d1)) =
      [u\<lparr>u_last_login_at := Some t, u_last_activity_at := Some t\<rparr>]"
    using created_workspace [OF assms] by (simp add: opened_users)
  then obtain v where "user_view_of (snd (open_workspace ev t rq (u_id u) tokens d1)) (u_id u) = Inr v"
    by (simp add: user_view_of_def get_user_def)
  then show ?thesis
    using assms u by (simp add: complete_desktop_onboarding_def Let_def)
qed

text \<open>The first start creates the workspace once. An activation, or a transfer claim, that is refused changes nothing;
one that succeeds had the licence, found no account, leaves exactly the passwordless workspace, gives the window
a session that is accepted until it expires, and makes every later activation fail without a change.\<close>

theorem workspace_is_created_once:
  assumes "fst tokens \<noteq> []" "session_of_token d (fst tokens) = None"
    and "rq_token rq' = Some (fst tokens)" "t' < t + days (ev_session_days ev)"
  shows "case activate_desktop_workspace ev desktop t rq tokens licence l d of
      (Inl e, d') \<Rightarrow> d' = d
    | (Inr (view, token, csrf), d') \<Rightarrow> licence = None \<and> users d = [] \<and> token = fst tokens \<and>
        (\<exists>u s. users d' = [u] \<and> is_workspace u \<and> desktop_workspace_user d' = Some u \<and>
           fst (get_auth_context t' rq' d') = Inr (u_id u, s)) \<and>
        (\<exists>e. activate_desktop_workspace ev2 desktop2 t2 rq2 tokens2 licence2 l2 d' = (Inl e, d'))"
proof (cases "origin_refused ev rq \<or> \<not> desktop \<or> has_local_users d \<or> licence \<noteq> None")
  case True
  then show ?thesis
    by (auto simp: activate_desktop_workspace_def first_start_def)
next
  case False
  then obtain u d1 where c: "create_desktop_workspace t l ''LICENSE_ACTIVATION'' d = Inr (u, d1)"
    by (simp add: create_desktop_workspace_def Let_def)
  let ?d = "snd (open_workspace ev t rq (u_id u) tokens d1)"
  let ?u = "u\<lparr>u_last_login_at := Some t, u_last_activity_at := Some t\<rparr>"
  obtain v csrf where o: "complete_desktop_onboarding ev t rq tokens l d = (Inr (v, fst tokens, csrf), ?d)" "users ?d = [?u]"
    using completed_onboarding [OF c, of ev rq tokens] by blast
  have "is_workspace ?u" "u_id ?u = u_id u"
    using created_workspace [OF c] by (simp_all add: is_workspace_def)
  moreover have "\<exists>s. fst (get_auth_context t' rq' ?d) = Inr (u_id u, s)"
    using created_get_user [OF c, of "fst tokens"] assms by (intro opened_session_accepted) auto
  moreover have "\<exists>e. activate_desktop_workspace ev2 desktop2 t2 rq2 tokens2 licence2 l2 ?d = (Inl e, ?d)"
    by (simp add: activate_desktop_workspace_def first_start_def has_local_users_def o(2))
  moreover have "activate_desktop_workspace ev desktop t rq tokens licence l d = (Inr (v, fst tokens, csrf), ?d)"
    using False o(1) by (simp add: activate_desktop_workspace_def first_start_def)
  ultimately show ?thesis
    using False o(2) by (simp add: has_local_users_def only_workspace)
qed

text \<open>Opening the window and the first start keep a database without strange accounts so.\<close>

interpretation workspace: request_invariant workspace_only
  by unfold_locales
    (auto simp: touch_session_def workspace_only_def set_user_def set_session_def length_update_where is_workspace_def
      intro!: update_where_workspace)

lemma bootstrap_keeps_workspace:
  assumes "workspace_only d"
  shows "workspace_only (snd (desktop_bootstrap ev t rq tokens secret bound token d))"
  using assms
  by (auto simp: desktop_bootstrap_def intro!: opened_workspace_only dest: created_workspace
      split: option.splits sum.splits)

text \<open>A window that was opened on the workspace is signed in, whatever was there before.\<close>

lemma bootstrap_signs_in:
  assumes "workspace_only d" "users d \<noteq> [] \<or> bound" "fst tokens \<noteq> []" "session_of_token d (fst tokens) = None"
    and "rq_token rq' = Some (fst tokens)" "t' < t + days (ev_session_days ev)"
  shows "\<exists>d' i s. desktop_bootstrap ev t rq tokens secret bound secret d = (Inr (Some (fst tokens)), d') \<and>
     fst (get_auth_context t' rq' d') = Inr (i, s)"
proof (cases "users d")
  case Nil
  then obtain u d1 where c: "create_desktop_workspace t ''ru'' ''EXISTING_LICENSE_BINDING'' d = Inr (u, d1)"
    by (simp add: create_desktop_workspace_def has_local_users_def Let_def)
  have "desktop_workspace_user d = None" using Nil by (simp add: desktop_workspace_user_def first_row_def)
  then show ?thesis
    using assms(2,3,5,6) Nil c created_get_user [OF c] opened_session_accepted [OF assms(5,3), of d1 "u_id u" u t' t ev rq]
      assms(4)
    by (simp add: desktop_bootstrap_def) metis
next
  case (Cons u us)
  then have u: "users d = [u]" "is_workspace u" using assms(1) by (auto simp: workspace_only_def)
  then have "get_user d (u_id u) = Some u" "u_status u = ACTIVE" "desktop_workspace_user d = Some u"
    by (simp_all add: get_user_def is_workspace_def only_workspace)
  then show ?thesis
    using opened_session_accepted [OF assms(5,3) _ _ assms(4,6), of "u_id u" u rq] by (simp add: desktop_bootstrap_def) blast
qed

lemma workspace_is_created_once_witness:
  "\<exists>d'. fst (activate_desktop_workspace sample_env True 0 (sample_request ''s'') (''s'', ''c'', ''f'') None ''uk'' empty_db) \<in> range Inr \<and>
     snd (activate_desktop_workspace sample_env True 0 (sample_request ''s'') (''s'', ''c'', ''f'') None ''uk'' empty_db) = d' \<and>
     (\<exists>u s. users d' = [u] \<and> fst (get_auth_context 1 (sample_request ''s'') d') = Inr (u_id u, s))"
proof -
  let ?r = "activate_desktop_workspace sample_env True 0 (sample_request ''s'') (''s'', ''c'', ''f'') None ''uk'' empty_db"
  have "\<not> origin_refused sample_env (sample_request ''s'')" by code_simp
  moreover have "users empty_db = []" "session_of_token empty_db ''s'' = None"
    by (simp_all add: empty_db_def session_of_token_def first_row_def)
  ultimately have "case ?r of (Inl e, d') \<Rightarrow> False | (Inr x, d') \<Rightarrow> True"
    by (simp add: activate_desktop_workspace_def first_start_def has_local_users_def complete_desktop_onboarding_def
        create_desktop_workspace_def Let_def opened_users user_view_of_def get_user_def add_user_def audit_def)
  moreover have "case ?r of (Inl e, d') \<Rightarrow> d' = empty_db
    | (Inr (view, token, csrf), d') \<Rightarrow> (None :: http_error option) = None \<and> users empty_db = [] \<and> token = fst (''s'', ''c'', ''f'') \<and>
        (\<exists>u s. users d' = [u] \<and> is_workspace u \<and> desktop_workspace_user d' = Some u \<and>
           fst (get_auth_context 1 (sample_request ''s'') d') = Inr (u_id u, s)) \<and>
        (\<exists>e. activate_desktop_workspace sample_env True 5 (sample_request ''s'') (''s'', ''c'', ''f'') None ''uk'' d' = (Inl e, d'))"
    by (rule workspace_is_created_once)
      (simp_all add: sample_request_def sample_env_def days_def empty_db_def session_of_token_def first_row_def)
  ultimately show ?thesis
    by (cases ?r; cases "fst ?r") auto
qed


text \<open>An installation with one administrator.\<close>

definition legacy_db :: db where
  "legacy_db = empty_db\<lparr>users := [sample_user 7 ADMIN ACTIVE]\<rparr>"

lemma legacy_account_becomes_workspace_witness:
  "\<exists>u. users (snd (migrate_legacy_desktop_workspace legacy_db)) = [u] \<and> u_id u = 7 \<and> u_role u = USER \<and>
     desktop_workspace_user (snd (migrate_legacy_desktop_workspace legacy_db)) = Some u"
proof -
  have m: "fst (migrate_legacy_desktop_workspace legacy_db) = Migrated"
    by (simp add: migrate_legacy_desktop_workspace_def legacy_db_def is_workspace_def sample_user_def
        WORKSPACE_USERNAME_KEY_def)
  have "users legacy_db = [sample_user 7 ADMIN ACTIVE]" "u_id (sample_user 7 ADMIN ACTIVE) = 7"
    by (simp_all add: legacy_db_def sample_user_def)
  then show ?thesis
    using legacy_account_becomes_workspace [of legacy_db] m
    by (cases "migrate_legacy_desktop_workspace legacy_db") auto
qed

end
