(* ===== verification/Migrations.thy ===== *)
theory Migrations
  imports JobQueue PyStd
begin

text \<open>
  The migrations of the desktop database, \<^verbatim>\<open>backend/app/sqlite_migrations.py\<close>. An \<open>image\<close> is the content of a
  database file: its rows, the migrations recorded in it and what SQLite's own checks say of it. A column that an
  old file does not have yet is read as the default that its migration gives it, so adding a column changes no row.
\<close>

section \<open>Database files\<close>

record image =
  im_db :: db
  im_applied :: "(int \<times> string \<times> string) list option"
  im_integrity :: string
  im_violations :: nat

definition recorded :: "image \<Rightarrow> (int \<times> string \<times> string) list" where
  "recorded im = (case im_applied im of Some rows \<Rightarrow> rows | None \<Rightarrow> [])"

definition schema_version :: "image \<Rightarrow> int" where
  "schema_version im = foldr max (map fst (recorded im)) 0"

section \<open>The migrations\<close>

record sqlite_migration =
  mg_version :: int
  mg_name :: string
  mg_action :: "time \<Rightarrow> db \<Rightarrow> db"

definition migration_checksum :: "sqlite_migration \<Rightarrow> string" where
  "migration_checksum m = sha256_hex (''searchcar-sqlite:'' @ show_int (mg_version m) @ '':'' @ mg_name m @ '':v1'')"

definition coalesce :: "'a option \<Rightarrow> 'a \<Rightarrow> 'a option" where
  "coalesce a b = (case a of Some x \<Rightarrow> Some x | None \<Rightarrow> Some b)"

definition close_prototype_run :: "time \<Rightarrow> scan_run \<Rightarrow> scan_run" where
  "close_prototype_run t r = r\<lparr>r_status := INTERRUPTED, r_worker_id := None, r_finished_at := coalesce (r_finished_at r) t,
     r_error := coalesce (r_error r) ''Application stopped before the scan finished''\<rparr>"

definition interrupted_run_ids :: "db \<Rightarrow> int list" where
  "interrupted_run_ids d = map r_id (filter (\<lambda>r. r_status r = INTERRUPTED) (scan_runs d))"

definition durable_scan_queue :: "time \<Rightarrow> db \<Rightarrow> db" where
  "durable_scan_queue t d =
     (let d' = d\<lparr>scan_runs := update_where (\<lambda>r. active_status (r_status r)) (close_prototype_run t) (scan_runs d)\<rparr>
      in d'\<lparr>project_scan_runs := update_where (open_project_run (interrupted_run_ids d'))
           (\<lambda>x. x\<lparr>psr_status := INTERRUPTED, psr_error_code := coalesce (psr_error_code x) ''APP_INTERRUPTED''\<rparr>)
           (project_scan_runs d')\<rparr>)"

definition new_car_ids :: "db \<Rightarrow> int list" where
  "new_car_ids d = map c_id (filter (\<lambda>c. c_status c = ''NEW'') (cars d))"

definition project_car_new_status :: "time \<Rightarrow> db \<Rightarrow> db" where
  "project_car_new_status t d =
     d\<lparr>project_cars := update_where (\<lambda>l. pc_car_id l \<in> set (new_car_ids d)) (\<lambda>l. l\<lparr>pc_is_new := True\<rparr>) (project_cars d)\<rparr>"

text \<open>The other migrations create tables or add columns only.\<close>

definition schema_only :: "time \<Rightarrow> db \<Rightarrow> db" where
  "schema_only t d = d"

definition MIGRATIONS :: "sqlite_migration list" where
  "MIGRATIONS =
     [\<lparr>mg_version = 1, mg_name = ''current_web_schema_baseline'', mg_action = schema_only\<rparr>,
      \<lparr>mg_version = 2, mg_name = ''durable_single_worker_scan_queue'', mg_action = durable_scan_queue\<rparr>,
      \<lparr>mg_version = 3, mg_name = ''desktop_scheduler_controls'', mg_action = schema_only\<rparr>,
      \<lparr>mg_version = 4, mg_name = ''scheduler_completion_checkpoint'', mg_action = schema_only\<rparr>,
      \<lparr>mg_version = 5, mg_name = ''project_price_filters'', mg_action = schema_only\<rparr>,
      \<lparr>mg_version = 6, mg_name = ''search_performance_mode'', mg_action = schema_only\<rparr>,
      \<lparr>mg_version = 7, mg_name = ''project_car_new_status'', mg_action = project_car_new_status\<rparr>]"

section \<open>Applying them\<close>

definition migration_row :: "sqlite_migration \<Rightarrow> int \<times> string \<times> string" where
  "migration_row m = (mg_version m, mg_name m, migration_checksum m)"

definition apply_migration :: "time \<Rightarrow> sqlite_migration \<Rightarrow> image \<Rightarrow> image" where
  "apply_migration t m im =
     im\<lparr>im_db := mg_action m t (im_db im), im_applied := Some (recorded im @ [migration_row m])\<rparr>"

definition mismatch :: "sqlite_migration \<Rightarrow> string" where
  "mismatch m = ''sqlite_migration_checksum_mismatch:'' @ show_int (mg_version m)"

text \<open>\<open>applied\<close> is read once, before the first migration.\<close>

fun run_migrations ::
  "time \<Rightarrow> (int \<rightharpoonup> string \<times> string) \<Rightarrow> sqlite_migration list \<Rightarrow> image \<Rightarrow> string + image" where
  "run_migrations t applied [] im = Inr im"
| "run_migrations t applied (m # ms) im =
     (case applied (mg_version m) of
        Some row \<Rightarrow>
          if row = (mg_name m, migration_checksum m) then run_migrations t applied ms im else Inl (mismatch m)
      | None \<Rightarrow> run_migrations t applied ms (apply_migration t m im))"

text \<open>On an error the transaction is rolled back: the file keeps the image it had.\<close>

definition migrate_sqlite :: "time \<Rightarrow> image \<Rightarrow> string + image" where
  "migrate_sqlite t im = run_migrations t (map_of (recorded im)) MIGRATIONS (im\<lparr>im_applied := Some (recorded im)\<rparr>)"

section \<open>Migrating twice changes nothing\<close>

lemma recorded_applied [simp]: "recorded (im\<lparr>im_applied := Some rows\<rparr>) = rows"
  by (simp add: recorded_def)

lemma recorded_apply: "recorded (apply_migration t m im) = recorded im @ [migration_row m]"
  by (simp add: apply_migration_def recorded_def)

lemma run_migrations_recorded:
  assumes "run_migrations t applied ms im = Inr im'"
  shows "recorded im' = recorded im @ map migration_row (filter (\<lambda>m. applied (mg_version m) = None) ms) \<and>
     (im_applied im \<noteq> None \<longrightarrow> im_applied im' \<noteq> None) \<and>
     (\<forall>m \<in> set ms. applied (mg_version m) \<noteq> None \<longrightarrow> applied (mg_version m) = Some (mg_name m, migration_checksum m))"
  using assms
  by (induction ms arbitrary: im)
    (auto simp: recorded_apply apply_migration_def split: option.splits if_splits)

lemma run_migrations_done:
  assumes "\<forall>m \<in> set ms. applied (mg_version m) = Some (mg_name m, migration_checksum m)"
  shows "run_migrations t applied ms im = Inr im"
  using assms by (induction ms) auto

lemma map_of_migration_rows:
  assumes "distinct (map mg_version ms)" "m \<in> set ms" "P m"
  shows "map_of (map migration_row (filter P ms)) (mg_version m) = Some (mg_name m, migration_checksum m)"
  using assms by (induction ms) (auto simp: migration_row_def, (metis imageI)+)

lemma migration_versions: "distinct (map mg_version MIGRATIONS)" "map mg_version MIGRATIONS = [1, 2, 3, 4, 5, 6, 7]"
  by (simp_all add: MIGRATIONS_def)

lemma migrated_rows:
  assumes "migrate_sqlite t im = Inr im'" "m \<in> set MIGRATIONS"
  shows "map_of (recorded im') (mg_version m) = Some (mg_name m, migration_checksum m)"
proof (cases "map_of (recorded im) (mg_version m)")
  case None
  then show ?thesis
    using run_migrations_recorded [OF assms(1) [unfolded migrate_sqlite_def]] assms(2) migration_versions(1)
    by (auto simp: map_add_Some_iff intro!: map_of_migration_rows)
next
  case (Some row)
  then have "row = (mg_name m, migration_checksum m)"
    using run_migrations_recorded [OF assms(1) [unfolded migrate_sqlite_def]] assms(2) by auto
  moreover have "map_of (map migration_row (filter (\<lambda>m. map_of (recorded im) (mg_version m) = None) ms)) (mg_version m) = None"
    for ms using Some by (induction ms) (auto simp: migration_row_def)
  ultimately show ?thesis
    using run_migrations_recorded [OF assms(1) [unfolded migrate_sqlite_def]] Some by (simp add: map_add_def)
qed

lemma schema_version_bound: "v \<in> fst ` set (recorded im) \<Longrightarrow> v \<le> schema_version im"
proof -
  have "v \<in> set vs \<Longrightarrow> v \<le> foldr max vs 0" for vs :: "int list"
    by (induction vs) (auto simp: le_max_iff_disj)
  then show "v \<in> fst ` set (recorded im) \<Longrightarrow> v \<le> schema_version im"
    by (simp add: schema_version_def)
qed

definition up_to_date :: "image \<Rightarrow> bool" where
  "up_to_date im \<longleftrightarrow> im_applied im \<noteq> None \<and>
     list_all (\<lambda>m. map_of (recorded im) (mg_version m) = Some (mg_name m, migration_checksum m)) MIGRATIONS"

lemma migrated_up_to_date: "migrate_sqlite t im = Inr im' \<Longrightarrow> up_to_date im'"
  using run_migrations_recorded [of t "map_of (recorded im)" MIGRATIONS] migrated_rows [of t im im']
  by (auto simp: up_to_date_def list_all_iff migrate_sqlite_def)

lemma up_to_date_migrate: "up_to_date im \<Longrightarrow> migrate_sqlite t im = Inr im"
  by (auto simp: up_to_date_def list_all_iff migrate_sqlite_def recorded_def run_migrations_done)

lemma up_to_date_version: "up_to_date im \<Longrightarrow> 7 \<le> schema_version im"
proof -
  assume up: "up_to_date im"
  have "(7 :: int) \<in> set (map mg_version MIGRATIONS)"
    by (simp add: migration_versions(2))
  then obtain m where m: "m \<in> set MIGRATIONS" "mg_version m = 7"
    by auto
  then have "map_of (recorded im) 7 = Some (mg_name m, migration_checksum m)"
    using up by (auto simp: up_to_date_def list_all_iff)
  then have "7 \<in> fst ` set (recorded im)"
    by (force dest: map_of_SomeD)
  then show ?thesis
    by (rule schema_version_bound)
qed

text \<open>Migrations run once. A file that was migrated is at version 7 or newer, and migrating it again, at any later
start, changes nothing of it.\<close>

theorem migrations_run_once:
  assumes "migrate_sqlite t im = Inr im'"
  shows "migrate_sqlite t' im' = Inr im' \<and> 7 \<le> schema_version im'"
  using migrated_up_to_date [OF assms] up_to_date_migrate up_to_date_version by blast

text \<open>A file of the prototype has no active run after its first migration, and no scan that was closed keeps an open
project.\<close>

lemma prototype_runs_closed:
  "active_ids (durable_scan_queue t d) = {}"
  by (auto simp: active_ids_empty_iff durable_scan_queue_def Let_def ball_update_where close_prototype_run_def active_status_def)

definition fresh_image :: image where
  "fresh_image = \<lparr>im_db = sample_queue RUNNING, im_applied = None, im_integrity = ''ok'', im_violations = 0\<rparr>"

lemma fresh_image_migrates:
  "migrate_sqlite 30 fresh_image = Inr (foldl (\<lambda>im m. apply_migration 30 m im) (fresh_image\<lparr>im_applied := Some []\<rparr>) MIGRATIONS)"
  by (simp add: migrate_sqlite_def MIGRATIONS_def recorded_def fresh_image_def)

theorem migrations_run_once_witness:
  "\<exists>im. migrate_sqlite 30 fresh_image = Inr im \<and> migrate_sqlite 40 im = Inr im \<and> 7 \<le> schema_version im"
  using fresh_image_migrates migrations_run_once [OF fresh_image_migrates, of 40] by blast

end
