(* ===== verification/Backup.thy ===== *)
theory Backup
  imports Migrations StoragePaths
begin

text \<open>
  Backups of the desktop data, \<^verbatim>\<open>backend/app/desktop_backup.py\<close>: the archive with its manifest and checksums, its
  validation and extraction, the export of the live data and the restore with its exchange of the database file
  and the directory of photos, where any operating system call may fail.

  The contents of files are values of \<open>content\<close>; an archive is the list of its members, \<open>None\<close> where the file is no
  archive. Arguments are the digest and the size of a content and the paths of the installation (\<open>backup_env\<close>).
  Every database here has the tables of the schema.
\<close>

section \<open>Contents and archives\<close>

datatype content = Sqlite image | Json_Text json | Bytes string

record zip_info =
  zi_name :: string
  zi_link :: bool
  zi_size :: int
  zi_data :: "content option"

datatype backup_error = Backup_Error string | Busy string | Validation string | Database_Error | Os_Error

type_synonym path = "string list"

type_synonym file_tree = "(path \<times> content) list"

record backup_env =
  be_digest :: "content \<Rightarrow> string"
  be_size :: "content \<Rightarrow> int"
  be_below :: "string \<Rightarrow> string option"
  be_app_version :: string
  be_database :: path
  be_storage :: path
  be_rollback :: path

definition DATABASE_PATH :: string where "DATABASE_PATH = ''database.sqlite3''"
definition MANIFEST_PATH :: string where "MANIFEST_PATH = ''manifest.json''"
definition CHECKSUMS_PATH :: string where "CHECKSUMS_PATH = ''checksums.json''"
definition MAX_FILE :: int where "MAX_FILE = 20 * 1024 * 1024 * 1024"
definition MAX_TOTAL :: int where "MAX_TOTAL = 50 * 1024 * 1024 * 1024"

definition backslash :: char where "backslash = char_of (92 :: nat)"

text \<open>\<^verbatim>\<open>_safe_archive_path\<close>. A drive of a Windows path is a colon at the second place; a path that is absolute for
Windows has a drive or is absolute here as well.\<close>

definition has_drive :: "string \<Rightarrow> bool" where
  "has_drive s \<longleftrightarrow> 2 \<le> length s \<and> s ! 1 = CHR '':''"

definition safe_archive_path :: "string \<Rightarrow> backup_error + path" where
  "safe_archive_path raw =
     (if raw = [] \<or> backslash \<in> set raw \<or> path_root raw \<noteq> [] \<or> has_drive raw \<or> ''..'' \<in> set (path_parts raw)
      then Inl (Validation (''unsafe_archive_path:'' @ raw))
      else Inr (path_parts raw))"

definition drop_slashes :: "string \<Rightarrow> string" where
  "drop_slashes s = rev (dropWhile (\<lambda>c. c = CHR ''/'') (rev s))"

definition is_dir :: "zip_info \<Rightarrow> bool" where
  "is_dir zi \<longleftrightarrow> zi_name zi \<noteq> [] \<and> last (zi_name zi) = CHR ''/''"

text \<open>The loop of \<^verbatim>\<open>_validate_zip_members\<close>; \<open>seen\<close> and the members are keyed by the parts of a path, which stand
for its normalised text.\<close>

fun scan_members :: "path list \<Rightarrow> int \<Rightarrow> (path \<times> zip_info) list \<Rightarrow> zip_info list \<Rightarrow> backup_error + (path \<times> zip_info) list" where
  "scan_members seen n members [] = Inr members"
| "scan_members seen n members (zi # rest) =
     (let raw = drop_slashes (zi_name zi)
      in if raw = [] then scan_members seen n members rest
         else case safe_archive_path raw of
           Inl e \<Rightarrow> Inl e
         | Inr p \<Rightarrow>
             if p \<in> set seen then Inl (Validation (''duplicate_archive_path:'' @ as_posix raw))
             else if zi_link zi then Inl (Validation (''archive_symlink_not_allowed:'' @ as_posix raw))
             else if MAX_FILE < zi_size zi then Inl (Validation (''archive_file_too_large:'' @ as_posix raw))
             else if MAX_TOTAL < n + zi_size zi then Inl (Validation ''archive_total_size_too_large'')
             else scan_members (p # seen) (n + zi_size zi) (if is_dir zi then members else members @ [(p, zi)]) rest)"

definition required_members :: "string list" where
  "required_members = [CHECKSUMS_PATH, DATABASE_PATH, MANIFEST_PATH]"

definition validate_zip_members :: "zip_info list \<Rightarrow> backup_error + (path \<times> zip_info) list" where
  "validate_zip_members archive =
     (case scan_members [] 0 [] archive of
        Inl e \<Rightarrow> Inl e
      | Inr members \<Rightarrow>
          let missing = filter (\<lambda>n. [n] \<notin> fst ` set members) required_members
          in if missing = [] then Inr members
             else Inl (Validation (''backup_required_files_missing:'' @ join '','' missing)))"

definition invalid_archive :: backup_error where
  "invalid_archive = Validation ''invalid_backup_archive''"

text \<open>The data of a member is \<open>None\<close> when reading it fails.\<close>

definition read_json_member :: "zip_info \<Rightarrow> backup_error + dict" where
  "read_json_member zi =
     (case zi_data zi of
        None \<Rightarrow> Inl invalid_archive
      | Some (Json_Text (JObj d)) \<Rightarrow> Inr d
      | Some (Json_Text _) \<Rightarrow> Inl (Validation (''invalid_json_object:'' @ zi_name zi))
      | Some _ \<Rightarrow> Inl (Validation (''invalid_json:'' @ zi_name zi)))"

section \<open>Checking a database\<close>

definition table_counts :: "db \<Rightarrow> dict" where
  "table_counts d =
     [(''audit_logs'', JInt (int (length (audit_logs d)))), (''auth_attempts'', JInt (int (length (auth_attempts d)))),
      (''auth_sessions'', JInt (int (length (auth_sessions d)))), (''car_aliases'', JInt (int (length (car_aliases d)))),
      (''car_events'', JInt (int (length (car_events d)))), (''car_images'', JInt (int (length (car_images d)))),
      (''car_snapshots'', JInt (int (length (car_snapshots d)))), (''cars'', JInt (int (length (cars d)))),
      (''price_history'', JInt (int (length (price_history d)))), (''project_cars'', JInt (int (length (project_cars d)))),
      (''project_scan_runs'', JInt (int (length (project_scan_runs d)))), (''projects'', JInt (int (length (projects d)))),
      (''scan_runs'', JInt (int (length (scan_runs d)))), (''scheduled_projects'', JInt (int (length (scheduled_projects d)))),
      (''scheduler_settings'', JInt (int (length (scheduler_settings d)))),
      (''user_car_states'', JInt (int (length (user_car_states d)))), (''users'', JInt (int (length (users d))))]"

definition verify_sqlite :: "content \<Rightarrow> backup_error + int \<times> dict" where
  "verify_sqlite c =
     (case c of
        Sqlite im \<Rightarrow>
          if im_integrity im \<noteq> ''ok'' then Inl (Validation (''sqlite_integrity_failed:'' @ im_integrity im))
          else if im_violations im \<noteq> 0 then Inl (Validation (''sqlite_foreign_key_failed:'' @ show_nat (im_violations im)))
          else Inr (schema_version im, table_counts (im_db im))
      | _ \<Rightarrow> Inl (Validation ''invalid_sqlite_database''))"

definition unfinished_status :: "run_status \<Rightarrow> bool" where
  "unfinished_status s \<longleftrightarrow> s = QUEUED \<or> s = RUNNING \<or> s = CANCEL_REQUESTED"

definition active_scan_count :: "content option \<Rightarrow> backup_error + nat" where
  "active_scan_count f =
     (case f of
        None \<Rightarrow> Inr 0
      | Some (Sqlite im) \<Rightarrow> Inr (length (filter (\<lambda>r. unfinished_status (r_status r)) (scan_runs (im_db im))))
      | Some _ \<Rightarrow> Inl Database_Error)"

section \<open>The copy that is exported\<close>

definition PORTABLE_PATH_KEYS :: "string list" where
  "PORTABLE_PATH_KEYS = [''path'', ''screenshot_path'', ''main_image_path'']"

definition portable_text :: "(string \<Rightarrow> string option) \<Rightarrow> string \<Rightarrow> string \<Rightarrow> string" where
  "portable_text below key v =
     (if key \<in> set PORTABLE_PATH_KEYS
      then case portable_storage_path below (Some v) of Some p \<Rightarrow> p | None \<Rightarrow> v
      else v)"

text \<open>The key is empty at the top, where the code has none; an empty key is no path key either.\<close>

function portable_json :: "(string \<Rightarrow> string option) \<Rightarrow> string \<Rightarrow> json \<Rightarrow> json" where
  "portable_json below key (JObj d) = JObj (map (\<lambda>(k, v). (k, portable_json below k v)) d)"
| "portable_json below key (JList xs) = JList (map (portable_json below key) xs)"
| "portable_json below key (JStr s) = JStr (portable_text below key s)"
| "portable_json below key JNull = JNull"
| "portable_json below key (JBool b) = JBool b"
| "portable_json below key (JInt i) = JInt i"
| "portable_json below key (JDec i) = JDec i"
| "portable_json below key (JTime t) = JTime t"
  by pat_completeness auto

termination
  by (relation "measure (\<lambda>(_, _, j). size j)") (auto simp: json_size_list dest: json_size_obj)

definition portable_dict :: "(string \<Rightarrow> string option) \<Rightarrow> dict \<Rightarrow> dict" where
  "portable_dict below d = jobj (portable_json below [] (JObj d))"

definition portable_record :: "(string \<Rightarrow> string option) \<Rightarrow> 'a car_record_scheme \<Rightarrow> 'a car_record_scheme" where
  "portable_record below r = r\<lparr>cr_payload := portable_dict below (cr_payload r)\<rparr>"

text \<open>The JSON columns of all tables.\<close>

definition portable_db :: "(string \<Rightarrow> string option) \<Rightarrow> db \<Rightarrow> db" where
  "portable_db below d = d\<lparr>
     audit_logs := map (\<lambda>a. a\<lparr>al_payload := map_option (portable_dict below) (al_payload a)\<rparr>) (audit_logs d),
     cars := map (\<lambda>c. c\<lparr>c_details := map_option (portable_dict below) (c_details c)\<rparr>) (cars d),
     car_snapshots := map (portable_record below) (car_snapshots d),
     price_history := map (portable_record below) (price_history d),
     car_events := map (portable_record below) (car_events d),
     car_images := map (portable_record below) (car_images d),
     scan_runs := map (\<lambda>r. r\<lparr>r_payload := map_option (portable_dict below) (r_payload r)\<rparr>) (scan_runs d)\<rparr>"

definition prepare_backup_database_copy :: "(string \<Rightarrow> string option) \<Rightarrow> image \<Rightarrow> image" where
  "prepare_backup_database_copy below im = im\<lparr>im_db := (portable_db below (im_db im))\<lparr>auth_sessions := []\<rparr>\<rparr>"

section \<open>Validation and extraction\<close>

datatype backup_file = Missing | No_Archive | Zip "zip_info list"

definition int_like :: "json \<Rightarrow> bool" where
  "int_like j = (case j of JInt _ \<Rightarrow> True | JBool _ \<Rightarrow> True | _ \<Rightarrow> False)"

definition str_like :: "json \<Rightarrow> bool" where
  "str_like j = (case j of JStr _ \<Rightarrow> True | JTime _ \<Rightarrow> True | _ \<Rightarrow> False)"

definition as_int :: "json \<Rightarrow> int" where
  "as_int j = (case j of JInt i \<Rightarrow> i | JBool b \<Rightarrow> of_bool b | JDec i \<Rightarrow> i div 100 | _ \<Rightarrow> 0)"

definition counts_ok :: "json \<Rightarrow> bool" where
  "counts_ok j = (case j of JObj d \<Rightarrow> list_all (\<lambda>(_, v). int_like v \<and> 0 \<le> as_int v) d | _ \<Rightarrow> False)"

definition check_manifest :: "dict \<Rightarrow> backup_error + unit" where
  "check_manifest m =
     (if dget m ''format'' \<noteq> JStr ''searchcar-backup'' \<or> \<not> py_eq (dget m ''format_version'') (JInt 1)
      then Inl (Validation ''unsupported_backup_format'')
      else if \<not> int_like (dget m ''schema_version'') then Inl (Validation ''invalid_backup_schema_version'')
      else if \<not> str_like (dget m ''created_at'') then Inl (Validation ''invalid_backup_created_at'')
      else if \<not> counts_ok (dget m ''table_counts'') then Inl (Validation ''invalid_backup_table_counts'')
      else Inr ())"

definition expected_checksums :: "dict \<Rightarrow> backup_error + dict" where
  "expected_checksums doc =
     (case dget doc ''files'' of
        JObj files \<Rightarrow> if dget doc ''algorithm'' = JStr ''sha256'' then Inr files else Inl (Validation ''invalid_backup_checksums'')
      | _ \<Rightarrow> Inl (Validation ''invalid_backup_checksums''))"

definition member_name :: "path \<Rightarrow> string" where
  "member_name p = (if p = [] then ''.'' else join_with ''/'' p)"

fun check_sums :: "backup_env \<Rightarrow> dict \<Rightarrow> (path \<times> zip_info) list \<Rightarrow> backup_error + unit" where
  "check_sums ev expected [] = Inr ()"
| "check_sums ev expected ((p, zi) # rest) =
     (case dget expected (member_name p) of
        JStr e \<Rightarrow>
          if length e \<noteq> 64 then Inl (Validation (''invalid_backup_checksum:'' @ member_name p))
          else (case zi_data zi of
            None \<Rightarrow> Inl invalid_archive
          | Some c \<Rightarrow>
              if be_digest ev c \<noteq> e then Inl (Validation (''backup_checksum_mismatch:'' @ member_name p))
              else check_sums ev expected rest)
      | _ \<Rightarrow> Inl (Validation (''invalid_backup_checksum:'' @ member_name p)))"

definition below_path :: "path \<Rightarrow> path \<Rightarrow> bool" where
  "below_path p q \<longleftrightarrow> length p < length q \<and> take (length p) q = p"

text \<open>Writing the members fails when one of them is the directory of another, or the destination itself.\<close>

definition targets_clash :: "path list \<Rightarrow> bool" where
  "targets_clash ps \<longleftrightarrow> [] \<in> set ps \<or> (\<exists>p \<in> set ps. \<exists>q \<in> set ps. below_path p q)"

definition written :: "path \<times> zip_info \<Rightarrow> path \<times> content" where
  "written m = (fst m, case zi_data (snd m) of Some c \<Rightarrow> c | None \<Rightarrow> Bytes [])"

definition extract_members :: "(path \<times> zip_info) list \<Rightarrow> backup_error + file_tree" where
  "extract_members ms = (if targets_clash (map fst ms) then Inl invalid_archive else Inr (map written ms))"

definition payload_members :: "(path \<times> zip_info) list \<Rightarrow> (path \<times> zip_info) list" where
  "payload_members ms = filter (\<lambda>(p, _). p \<noteq> [MANIFEST_PATH] \<and> p \<noteq> [CHECKSUMS_PATH]) ms"

definition read_member :: "(path \<times> zip_info) list \<Rightarrow> string \<Rightarrow> backup_error + dict" where
  "read_member ms n = (case map_of ms [n] of Some zi \<Rightarrow> read_json_member zi | None \<Rightarrow> Inl invalid_archive)"

definition extract_validated_archive :: "backup_env \<Rightarrow> backup_file \<Rightarrow> backup_error + dict \<times> dict \<times> file_tree" where
  "extract_validated_archive ev f =
     (case f of
        Zip archive \<Rightarrow>
          and_then (validate_zip_members archive) (\<lambda>ms.
          and_then (read_member ms MANIFEST_PATH) (\<lambda>manifest.
          and_then (read_member ms CHECKSUMS_PATH) (\<lambda>doc.
          and_then (check_manifest manifest) (\<lambda>_.
          and_then (expected_checksums doc) (\<lambda>expected.
          let pm = payload_members ms
          in if fst ` set expected \<noteq> (member_name \<circ> fst) ` set pm
             then Inl (Validation ''backup_checksum_file_set_mismatch'')
             else and_then (check_sums ev expected pm) (\<lambda>_.
                  and_then (extract_members pm) (\<lambda>tree. Inr (manifest, expected, tree))))))))
      | _ \<Rightarrow> Inl invalid_archive)"

record backup_validation =
  bv_format_version :: int
  bv_schema_version :: int
  bv_created_at :: json
  bv_files :: nat
  bv_bytes :: int
  bv_table_counts :: dict

definition extracted_file :: "file_tree \<Rightarrow> string \<Rightarrow> content" where
  "extracted_file tree n = (case map_of tree [n] of Some c \<Rightarrow> c | None \<Rightarrow> Bytes [])"

definition validate_backup :: "backup_env \<Rightarrow> backup_file \<Rightarrow> backup_error + backup_validation" where
  "validate_backup ev f =
     (if f = Missing then Inl (Validation ''backup_not_found'')
      else and_then (extract_validated_archive ev f) (\<lambda>(manifest, listed, tree).
        and_then (verify_sqlite (extracted_file tree DATABASE_PATH)) (\<lambda>(version, counts).
        if \<not> py_eq (JInt version) (dget manifest ''schema_version'') then Inl (Validation ''backup_schema_version_mismatch'')
        else if \<not> py_eq (JObj counts) (dget manifest ''table_counts'') then Inl (Validation ''backup_table_counts_mismatch'')
        else Inr \<lparr>bv_format_version = as_int (dget manifest ''format_version''),
                  bv_schema_version = as_int (dget manifest ''schema_version''),
                  bv_created_at = dget manifest ''created_at'', bv_files = length listed,
                  bv_bytes = sum_list (map (\<lambda>(_, c). be_size ev c) tree),
                  bv_table_counts = jobj (dget manifest ''table_counts'')\<rparr>)))"

section \<open>Export\<close>

text \<open>
  The data of the installation. \<open>in_wal\<close> is the write-ahead log beside the database file: it holds the database that
  a reader sees when the log has changes that are not in the file yet. An entry of the photos is \<open>None\<close> for a
  symbolic link. \<open>in_old_db\<close>, \<open>in_old_cars\<close> are the two temporary names of a restore.
\<close>

record installation =
  in_db :: "content option"
  in_wal :: "content option"
  in_cars :: "(path \<times> content option) list option"
  in_lock :: bool
  in_rollbacks :: "zip_info list list"
  in_old_db :: "content option"
  in_old_cars :: "(path \<times> content option) list option"

definition current_db :: "installation \<Rightarrow> content option" where
  "current_db s = (case in_db s of None \<Rightarrow> None | Some c \<Rightarrow> (case in_wal s of Some w \<Rightarrow> Some w | None \<Rightarrow> Some c))"

fun photo_files :: "(path \<times> content option) list \<Rightarrow> backup_error + file_tree" where
  "photo_files [] = Inr []"
| "photo_files ((p, None) # ps) = Inl (Validation (''storage_symlink_not_allowed:'' @ member_name p))"
| "photo_files ((p, Some c) # ps) =
     (case photo_files ps of Inl e \<Rightarrow> Inl e | Inr fs \<Rightarrow> Inr ((''storage'' # ''cars'' # p, c) # fs))"

definition storage_files :: "(path \<times> content option) list option \<Rightarrow> backup_error + file_tree" where
  "storage_files entries = (case entries of None \<Rightarrow> Inr [] | Some ps \<Rightarrow> photo_files (sort_key fst ps))"

definition zip_member :: "backup_env \<Rightarrow> path \<Rightarrow> content \<Rightarrow> zip_info" where
  "zip_member ev p c = \<lparr>zi_name = member_name p, zi_link = False, zi_size = be_size ev c, zi_data = Some c\<rparr>"

definition manifest_document :: "backup_env \<Rightarrow> time \<Rightarrow> int \<Rightarrow> dict \<Rightarrow> content" where
  "manifest_document ev t version counts = Json_Text (JObj
     [(''format'', JStr ''searchcar-backup''), (''format_version'', JInt 1), (''app_version'', JStr (be_app_version ev)),
      (''created_at'', JTime t), (''schema_version'', JInt version), (''table_counts'', JObj counts),
      (''storage_root'', JStr ''storage/cars'')])"

definition checksums_document :: "backup_env \<Rightarrow> file_tree \<Rightarrow> content" where
  "checksums_document ev files = Json_Text (JObj
     [(''algorithm'', JStr ''sha256''),
      (''files'', JObj (map (\<lambda>(p, c). (member_name p, JStr (be_digest ev c))) files))])"

definition backup_archive :: "backup_env \<Rightarrow> time \<Rightarrow> int \<Rightarrow> dict \<Rightarrow> file_tree \<Rightarrow> zip_info list" where
  "backup_archive ev t version counts files =
     zip_member ev [MANIFEST_PATH] (manifest_document ev t version counts)
     # zip_member ev [CHECKSUMS_PATH] (checksums_document ev files)
     # map (\<lambda>(p, c). zip_member ev p c) files"

definition export_archive :: "backup_env \<Rightarrow> time \<Rightarrow> image \<Rightarrow> installation \<Rightarrow> backup_error + zip_info list \<times> backup_validation" where
  "export_archive ev t im s =
     (let copy = prepare_backup_database_copy (be_below ev) im
      in and_then (verify_sqlite (Sqlite copy)) (\<lambda>(version, counts).
         and_then (storage_files (in_cars s)) (\<lambda>photos.
         let archive = backup_archive ev t version counts (([DATABASE_PATH], Sqlite copy) # photos)
         in and_then (validate_backup ev (Zip archive)) (\<lambda>v. Inr (archive, v)))))"

definition export_backup :: "backup_env \<Rightarrow> time \<Rightarrow> path \<Rightarrow> installation \<Rightarrow> backup_error + zip_info list \<times> backup_validation" where
  "export_backup ev t destination s =
     (if in_db s = None then Inl (Backup_Error (''database_not_found:'' @ member_name (be_database ev)))
      else if destination = be_database ev \<or> below_path (be_storage ev) destination
      then Inl (Backup_Error ''backup_destination_overlaps_live_data'')
      else if in_lock s then Inl (Busy ''desktop_maintenance_already_active'')
      else and_then (active_scan_count (current_db s)) (\<lambda>n.
        if n \<noteq> 0 then Inl (Busy ''backup_blocked_by_active_scan'')
        else case current_db s of Some (Sqlite im) \<Rightarrow> export_archive ev t im s | _ \<Rightarrow> Inl Database_Error))"

section \<open>Restore\<close>

definition interrupt_queued :: "string \<Rightarrow> time \<Rightarrow> scan_run \<Rightarrow> scan_run" where
  "interrupt_queued reason t job = job\<lparr>
     r_status := INTERRUPTED,
     r_payload := Some (dmerge (payload_of job)
       [(''current_project_id'', JNull), (''interrupted_at'', JTime t), (''interruption_reason'', JStr reason)]),
     r_error := Some (str_or (r_error job) ''Queued scan was cancelled by data restore''),
     r_finished_at := Some t,
     r_worker_id := None\<rparr>"

definition queued_ids :: "db \<Rightarrow> int list" where
  "queued_ids d = map r_id (filter (\<lambda>r. r_status r = QUEUED) (scan_runs d))"

definition interrupt_unfinished_jobs :: "string \<Rightarrow> time \<Rightarrow> db \<Rightarrow> int list \<times> db" where
  "interrupt_unfinished_jobs reason t d =
     (let (recovered, d1) = recover_interrupted_jobs reason t d;
          ids = queued_ids d1
      in (recovered @ ids,
          d1\<lparr>scan_runs := update_where (\<lambda>r. r_status r = QUEUED) (interrupt_queued reason t) (scan_runs d1),
             project_scan_runs := update_where (open_project_run ids)
               (\<lambda>x. x\<lparr>psr_status := INTERRUPTED,
                      psr_error_code := Some (str_or (psr_error_code x) (take 30 reason))\<rparr>)
               (project_scan_runs d1)\<rparr>))"

text \<open>\<^verbatim>\<open>prepare_portable_database\<close>: the migrations, the interruption of all scans, the end of all sessions.\<close>

definition prepare_portable_database :: "time \<Rightarrow> content \<Rightarrow> backup_error + image" where
  "prepare_portable_database t c =
     (case c of
        Sqlite im \<Rightarrow>
          (case migrate_sqlite t im of
             Inl _ \<Rightarrow> Inl Database_Error
           | Inr im1 \<Rightarrow>
               let im2 = im1\<lparr>im_db := (snd (interrupt_unfinished_jobs ''BACKUP_RESTORED'' t (im_db im1)))\<lparr>auth_sessions := []\<rparr>\<rparr>
               in and_then (verify_sqlite (Sqlite im2)) (\<lambda>_. Inr im2))
      | _ \<Rightarrow> Inl Database_Error)"

definition restored_photos :: "file_tree \<Rightarrow> (path \<times> content option) list option" where
  "restored_photos tree =
     (let photos = filter (\<lambda>(p, _). take 2 p = [''storage'', ''cars'']) tree
      in if photos = [] then None else Some (map (\<lambda>(p, c). (drop 2 p, Some c)) photos))"

text \<open>The exchange, one system call after the other.\<close>

definition move_database :: "installation \<Rightarrow> installation" where
  "move_database s = (if in_db s = None then s else s\<lparr>in_db := None, in_old_db := in_db s\<rparr>)"

definition drop_sidecars :: "installation \<Rightarrow> installation" where
  "drop_sidecars s = s\<lparr>in_wal := None\<rparr>"

definition move_photos :: "installation \<Rightarrow> installation" where
  "move_photos s = (if in_cars s = None then s else s\<lparr>in_cars := None, in_old_cars := in_cars s\<rparr>)"

definition place_database :: "image \<Rightarrow> installation \<Rightarrow> installation" where
  "place_database im s = s\<lparr>in_db := Some (Sqlite im)\<rparr>"

definition place_photos :: "(path \<times> content option) list option \<Rightarrow> installation \<Rightarrow> installation" where
  "place_photos photos s = s\<lparr>in_cars := (case photos of Some ps \<Rightarrow> Some ps | None \<Rightarrow> Some [])\<rparr>"

definition swap_steps :: "image \<Rightarrow> (path \<times> content option) list option \<Rightarrow> (installation \<Rightarrow> installation) list" where
  "swap_steps im photos = [move_database, drop_sidecars, move_photos, place_database im, place_photos photos]"

definition undo_swap :: "installation \<Rightarrow> installation" where
  "undo_swap s = s\<lparr>in_db := in_old_db s, in_cars := in_old_cars s, in_old_db := None, in_old_cars := None\<rparr>"

definition finish_swap :: "installation \<Rightarrow> installation" where
  "finish_swap s = s\<lparr>in_old_db := None, in_old_cars := None\<rparr>"

text \<open>\<open>Some k\<close>: the \<open>k\<close>-th call raises, \<open>k = 5\<close> being the last check. The calls of the undoing succeed.\<close>

definition swap_files ::
  "nat option \<Rightarrow> image \<Rightarrow> (path \<times> content option) list option \<Rightarrow> installation \<Rightarrow> (backup_error + int \<times> dict) \<times> installation" where
  "swap_files fault im photos s =
     (let k = (case fault of Some k \<Rightarrow> k | None \<Rightarrow> 6);
          moved = fold (\<lambda>f s. f s) (take k (swap_steps im photos)) s
      in if k \<le> 5 then (Inl Os_Error, undo_swap moved)
         else case current_db moved of
           None \<Rightarrow> (Inl (Validation ''invalid_sqlite_database''), undo_swap moved)
         | Some c \<Rightarrow>
             (case verify_sqlite c of
                Inl e \<Rightarrow> (Inl e, undo_swap moved)
              | Inr info \<Rightarrow> (Inr info, finish_swap moved)))"

definition rollback_backup :: "backup_env \<Rightarrow> time \<Rightarrow> installation \<Rightarrow> backup_error + installation" where
  "rollback_backup ev t s =
     (if in_db s = None then Inr s
      else and_then (export_backup ev t (be_rollback ev) s) (\<lambda>(archive, _).
        Inr (s\<lparr>in_rollbacks := in_rollbacks s @ [archive]\<rparr>)))"

definition restore_sources :: "backup_env \<Rightarrow> time \<Rightarrow> backup_file \<Rightarrow> backup_error + image \<times> (path \<times> content option) list option" where
  "restore_sources ev t f =
     and_then (extract_validated_archive ev f) (\<lambda>(_, _, tree).
     and_then (prepare_portable_database t (extracted_file tree DATABASE_PATH)) (\<lambda>im.
     Inr (im, restored_photos tree)))"

text \<open>The answer: whether a rollback archive was made, and what the restored database contains.\<close>

definition restore_backup ::
  "backup_env \<Rightarrow> time \<Rightarrow> nat option \<Rightarrow> backup_file \<Rightarrow> installation \<Rightarrow> (backup_error + bool \<times> int \<times> dict) \<times> installation" where
  "restore_backup ev t fault f s =
     (case active_scan_count (current_db s) of
        Inl e \<Rightarrow> (Inl e, s)
      | Inr n \<Rightarrow>
          if n \<noteq> 0 then (Inl (Busy ''restore_blocked_by_active_scan''), s)
          else case rollback_backup ev t s of
            Inl e \<Rightarrow> (Inl e, s)
          | Inr s1 \<Rightarrow>
              (case restore_sources ev t f of
                 Inl e \<Rightarrow> (Inl e, s1)
               | Inr (im, photos) \<Rightarrow>
                   let r = swap_files fault im photos s1
                   in (map_sum id (\<lambda>info. (in_db s \<noteq> None, info)) (fst r), snd r)))"

section \<open>What is extracted\<close>

lemma safe_archive_path_Inr:
  "safe_archive_path raw = Inr p \<longleftrightarrow> p = path_parts raw \<and> raw \<noteq> [] \<and> backslash \<notin> set raw \<and> path_root raw = [] \<and>
     \<not> has_drive raw \<and> ''..'' \<notin> set (path_parts raw)"
  by (auto simp: safe_archive_path_def)

definition inner_path :: "path \<Rightarrow> bool" where
  "inner_path p \<longleftrightarrow> good_parts p \<and> ''..'' \<notin> set p"

lemma scan_members_ok:
  assumes "scan_members seen n ms archive = Inr ms'"
    and "fst ` set ms \<subseteq> set seen" and "distinct (map fst ms)" and "\<forall>m \<in> set ms. inner_path (fst m)"
  shows "distinct (map fst ms') \<and> (\<forall>m \<in> set ms'. inner_path (fst m))"
  using assms
proof (induction seen n ms archive rule: scan_members.induct)
  case (2 seen n ms zi rest)
  let ?raw = "drop_slashes (zi_name zi)"
  show ?case
  proof (cases "?raw = []")
    case True
    then show ?thesis using 2 by simp
  next
    case False
    then obtain p where p: "safe_archive_path ?raw = Inr p" "p \<notin> set seen"
      "scan_members (p # seen) (n + zi_size zi) (if is_dir zi then ms else ms @ [(p, zi)]) rest = Inr ms'"
      using "2.prems"(1) by (auto simp: Let_def split: sum.splits if_splits)
    have "inner_path p"
      using p(1) good_path_parts by (auto simp: safe_archive_path_Inr inner_path_def)
    then show ?thesis
      using 2(2) [OF refl False p(1), of ] "2.prems" p False
      by (auto simp: Let_def split: if_splits)
  qed
qed simp

lemma members_ok:
  assumes "validate_zip_members archive = Inr ms"
  shows "distinct (map fst ms) \<and> (\<forall>m \<in> set ms. inner_path (fst m))"
  using assms scan_members_ok [of "[]" 0 "[]" archive ms]
  by (auto simp: validate_zip_members_def Let_def split: sum.splits if_splits)

lemma check_sums_ok:
  assumes "check_sums ev expected ms = Inr u" "m \<in> set ms"
  shows "dget expected (member_name (fst m)) = JStr (be_digest ev (snd (written m)))"
  using assms by (induction ms) (auto simp: written_def split: json.splits option.splits if_splits)

lemma extractE:
  assumes "extract_validated_archive ev f = Inr (manifest, listed, tree)"
  obtains archive ms where "f = Zip archive" "validate_zip_members archive = Inr ms"
    "check_sums ev listed (payload_members ms) = Inr ()" "tree = map written (payload_members ms)"
    "\<not> targets_clash (map fst (payload_members ms))"
    "fst ` set listed = (member_name \<circ> fst) ` set (payload_members ms)" "check_manifest manifest = Inr ()"
  using assms
  by (auto simp: extract_validated_archive_def extract_members_def Let_def split: backup_file.splits if_splits)

lemma fst_written [simp]: "fst (written m) = fst m"
  by (simp add: written_def)


section \<open>An exported archive holds the data\<close>

lemma join_last: "good_parts p \<Longrightarrow> p \<noteq> [] \<Longrightarrow> join_with ''/'' p \<noteq> [] \<and> last (join_with ''/'' p) \<noteq> CHR ''/''"
proof (induction "''/''" p rule: join_with.induct)
  case (2 s)
  then have "s \<noteq> []" "CHR ''/'' \<notin> set s" by (simp_all add: good_parts_def)
  then show ?case by (metis join_with.simps(2) last_in_set)
next
  case (3 s t ss)
  then have "join_with ''/'' (t # ss) \<noteq> [] \<and> last (join_with ''/'' (t # ss)) \<noteq> CHR ''/''"
    by (simp add: good_parts_def)
  then show ?case by simp
qed simp

lemma rstrip_member:
  assumes "good_parts p" "p \<noteq> []"
  shows "drop_slashes (member_name p) = join_with ''/'' p" "member_name p = join_with ''/'' p" "join_with ''/'' p \<noteq> []"
proof -
  let ?j = "join_with ''/'' p"
  show j: "member_name p = ?j" "?j \<noteq> []"
    using assms join_last by (auto simp: member_name_def)
  have "rev ?j \<noteq> []" "hd (rev ?j) \<noteq> CHR ''/''"
    using join_last [OF assms] by (simp_all add: hd_rev)
  then have "dropWhile (\<lambda>c. c = CHR ''/'') (rev ?j) = rev ?j"
    by (cases "rev ?j") simp_all
  then show "drop_slashes (member_name p) = ?j"
    using j by (simp add: drop_slashes_def)
qed

definition archived :: "backup_env \<Rightarrow> path \<times> content \<Rightarrow> path \<times> zip_info" where
  "archived ev x = (fst x, zip_member ev (fst x) (snd x))"

lemma written_archived [simp]: "written (archived ev x) = x"
  by (simp add: written_def archived_def zip_member_def)

lemma scan_archived:
  assumes "scan_members seen n ms (map (\<lambda>(p, c). zip_member ev p c) files) = Inr ms'"
    and "\<forall>x \<in> set files. good_parts (fst x) \<and> fst x \<noteq> []"
  shows "ms' = ms @ map (archived ev) files"
  using assms
proof (induction files arbitrary: seen n ms)
  case (Cons x files)
  obtain p c where x: "x = (p, c)" by (cases x)
  have p: "good_parts p" "p \<noteq> []" using Cons.prems(2) x by auto
  let ?zi = "zip_member ev p c"
  have raw: "drop_slashes (zi_name ?zi) = join_with ''/'' p" "join_with ''/'' p \<noteq> []" "\<not> is_dir ?zi"
    using rstrip_member [OF p] join_last [OF p] by (simp_all add: zip_member_def is_dir_def)
  have "safe_archive_path (join_with ''/'' p) = Inr q \<Longrightarrow> q = p" for q
    using path_parts_join [OF p(1)] by (simp add: safe_archive_path_Inr)
  then obtain seen' n' where "scan_members seen' n' (ms @ [(p, ?zi)]) (map (\<lambda>(p, c). zip_member ev p c) files) = Inr ms'"
    using Cons.prems(1) raw by (auto simp: x Let_def split: sum.splits if_splits)
  from Cons.IH [OF this] Cons.prems(2) show ?case by (simp add: x archived_def)
qed simp

lemma validated_archive:
  assumes "validate_backup ev (Zip (backup_archive ev t version counts files)) = Inr v"
    and "\<forall>x \<in> set files. good_parts (fst x) \<and> fst x \<noteq> [] \<and> fst x \<noteq> [MANIFEST_PATH] \<and> fst x \<noteq> [CHECKSUMS_PATH]"
  shows "\<exists>m l. extract_validated_archive ev (Zip (backup_archive ev t version counts files)) = Inr (m, l, files)"
proof -
  let ?docs = "[([MANIFEST_PATH], manifest_document ev t version counts), ([CHECKSUMS_PATH], checksums_document ev files)]"
  have eq: "backup_archive ev t version counts files = map (\<lambda>(p, c). zip_member ev p c) (?docs @ files)"
    by (simp add: backup_archive_def)
  obtain m l tree where ex: "extract_validated_archive ev (Zip (backup_archive ev t version counts files)) = Inr (m, l, tree)"
    using assms(1) by (auto simp: validate_backup_def)
  then obtain ms where ms: "validate_zip_members (backup_archive ev t version counts files) = Inr ms"
    "tree = map written (payload_members ms)"
    by (rule extractE) auto
  have good: "good_parts [MANIFEST_PATH]" "good_parts [CHECKSUMS_PATH]"
    by (simp_all add: good_parts_def MANIFEST_PATH_def CHECKSUMS_PATH_def)
  have "ms = map (archived ev) (?docs @ files)"
    using ms(1) scan_archived [of "[]" 0 "[]" ev "?docs @ files" ms] assms(2) good
    by (auto simp: eq validate_zip_members_def Let_def split: sum.splits if_splits)
  moreover have "filter (\<lambda>(p, _). p \<noteq> [MANIFEST_PATH] \<and> p \<noteq> [CHECKSUMS_PATH]) (map (archived ev) files) = map (archived ev) files"
    using assms(2) by (auto simp: filter_id_conv archived_def)
  ultimately have "payload_members ms = map (archived ev) files"
    by (simp add: payload_members_def) (simp add: archived_def)
  then have "tree = files"
    using ms(2) by (simp add: comp_def)
  with ex show ?thesis by blast
qed

text \<open>The photos in the order of the export; \<open>tidy\<close>: their names are names a directory can contain.\<close>

definition photos_of :: "installation \<Rightarrow> (path \<times> content option) list" where
  "photos_of s = (case in_cars s of None \<Rightarrow> [] | Some ps \<Rightarrow> sort_key fst ps)"

definition tidy :: "installation \<Rightarrow> bool" where
  "tidy s \<longleftrightarrow> list_all (\<lambda>x. good_parts (fst x)) (photos_of s)"

lemma photo_files_map:
  "photo_files ps = Inr fs \<Longrightarrow> map (\<lambda>(p, c). (drop 2 p, Some c)) fs = ps \<and>
     map fst fs = map (\<lambda>x. ''storage'' # ''cars'' # fst x) ps"
  by (induction ps arbitrary: fs rule: photo_files.induct) (auto split: sum.splits)

lemma good_parts_Cons: "good_parts (s # p) \<longleftrightarrow> s \<noteq> [] \<and> s \<noteq> ''.'' \<and> CHR ''/'' \<notin> set s \<and> good_parts p"
  by (auto simp: good_parts_def)

lemma storage_files_photos:
  assumes "storage_files (in_cars s) = Inr fs" "tidy s"
  shows "map (\<lambda>(p, c). (drop 2 p, Some c)) fs = photos_of s"
    and "\<forall>x \<in> set fs. good_parts (fst x) \<and> take 2 (fst x) = [''storage'', ''cars'']"
proof -
  have fs: "photo_files (photos_of s) = Inr fs"
    using assms(1) by (auto simp: storage_files_def photos_of_def split: option.splits)
  note m = photo_files_map [OF fs]
  then show "map (\<lambda>(p, c). (drop 2 p, Some c)) fs = photos_of s"
    by simp
  have "\<forall>q \<in> set (map fst fs). good_parts q \<and> take 2 q = [''storage'', ''cars'']"
    unfolding conjunct2 [OF m] using assms(2) by (auto simp: tidy_def list_all_iff good_parts_Cons)
  then show "\<forall>x \<in> set fs. good_parts (fst x) \<and> take 2 (fst x) = [''storage'', ''cars'']"
    by simp
qed

text \<open>The archive can be extracted and holds the portable copy of the database and all photos.\<close>

definition archive_holds :: "backup_env \<Rightarrow> zip_info list \<Rightarrow> installation \<Rightarrow> bool" where
  "archive_holds ev archive s \<longleftrightarrow>
     (case extract_validated_archive ev (Zip archive) of
        Inl _ \<Rightarrow> False
      | Inr (_, _, tree) \<Rightarrow>
          (case current_db s of
             Some (Sqlite im) \<Rightarrow> extracted_file tree DATABASE_PATH = Sqlite (prepare_backup_database_copy (be_below ev) im)
           | _ \<Rightarrow> False) \<and>
          (case restored_photos tree of None \<Rightarrow> [] | Some ps \<Rightarrow> ps) = photos_of s)"

lemma restored_photos_files:
  assumes "\<forall>x \<in> set fs. take 2 (fst x) = [''storage'', ''cars'']"
  shows "restored_photos (([DATABASE_PATH], c) # fs) =
     (if fs = [] then None else Some (map (\<lambda>(p, c). (drop 2 p, Some c)) fs))"
proof -
  have "filter (\<lambda>(p, _). take 2 p = [''storage'', ''cars'']) fs = fs"
    using assms by (auto simp: filter_id_conv)
  then show ?thesis by (simp add: restored_photos_def)
qed

lemma exportE:
  assumes "export_backup ev t dest s = Inr (archive, v)" "tidy s"
  obtains im m l fs where "current_db s = Some (Sqlite im)" "active_scan_count (current_db s) = Inr 0"
    "in_db s \<noteq> None" "verify_sqlite (Sqlite (prepare_backup_database_copy (be_below ev) im)) \<in> range Inr"
    "extract_validated_archive ev (Zip archive) =
       Inr (m, l, ([DATABASE_PATH], Sqlite (prepare_backup_database_copy (be_below ev) im)) # fs)"
    "map (\<lambda>(p, c). (drop 2 p, Some c)) fs = photos_of s"
    "\<forall>x \<in> set fs. take 2 (fst x) = [''storage'', ''cars'']"
proof -
  obtain im where im: "current_db s = Some (Sqlite im)" "active_scan_count (current_db s) = Inr 0"
    "export_archive ev t im s = Inr (archive, v)" "in_db s \<noteq> None"
    using assms(1) by (auto simp: export_backup_def split: if_splits option.splits content.splits)
  let ?copy = "prepare_backup_database_copy (be_below ev) im"
  obtain version counts fs where fs: "verify_sqlite (Sqlite ?copy) = Inr (version, counts)"
    "storage_files (in_cars s) = Inr fs" "archive = backup_archive ev t version counts (([DATABASE_PATH], Sqlite ?copy) # fs)"
    "validate_backup ev (Zip archive) = Inr v"
    using im(3) by (auto simp: export_archive_def Let_def split: prod.splits)
  note ph = storage_files_photos [OF fs(2) assms(2)]
  have "good_parts [DATABASE_PATH]" "[DATABASE_PATH] \<noteq> [MANIFEST_PATH]" "[DATABASE_PATH] \<noteq> [CHECKSUMS_PATH]"
    by (simp_all add: good_parts_def DATABASE_PATH_def MANIFEST_PATH_def CHECKSUMS_PATH_def)
  then have "\<forall>x \<in> set (([DATABASE_PATH], Sqlite ?copy) # fs).
      good_parts (fst x) \<and> fst x \<noteq> [] \<and> fst x \<noteq> [MANIFEST_PATH] \<and> fst x \<noteq> [CHECKSUMS_PATH]"
    using ph(2) by auto
  from validated_archive [OF fs(4) [unfolded fs(3)] this]
  obtain m l where "extract_validated_archive ev (Zip archive) = Inr (m, l, ([DATABASE_PATH], Sqlite ?copy) # fs)"
    unfolding fs(3) [symmetric] by blast
  moreover have "verify_sqlite (Sqlite ?copy) \<in> range Inr" by (simp add: fs(1))
  ultimately show ?thesis
    using that im ph by blast
qed

lemma exported_archive_holds:
  assumes "export_backup ev t dest s = Inr (archive, v)" "tidy s"
  shows "archive_holds ev archive s"
proof (rule exportE [OF assms], goal_cases)
  case (1 im m l fs)
  then show ?case
    using restored_photos_files [OF 1(7)] by (auto simp: archive_holds_def extracted_file_def)
qed

section \<open>A restore that fails\<close>

definition late_fault :: "nat option \<Rightarrow> bool" where
  "late_fault fault \<longleftrightarrow> (case fault of Some k \<Rightarrow> 3 \<le> k | None \<Rightarrow> True)"

lemma nat_up_to_5: "(k :: nat) \<le> 5 \<Longrightarrow> k = 0 \<or> k = 1 \<or> k = 2 \<or> k = 3 \<or> k = 4 \<or> k = 5"
  by arith

lemma numeral_takes: "take 1 (x # xs) = [x]" "take 2 (x # y # xs) = [x, y]" "take 3 (x # y # z # xs) = [x, y, z]"
  by (simp_all add: numeral_2_eq_2 numeral_3_eq_3)

lemma swap_rollbacks: "in_rollbacks (snd (swap_files fault im photos s)) = in_rollbacks s"
proof -
  have "in_rollbacks (fold (\<lambda>f s. f s) fs s) = in_rollbacks s"
    if "\<forall>f \<in> set fs. \<forall>s. in_rollbacks (f s) = in_rollbacks s" for fs
    using that by (induction fs arbitrary: s) auto
  moreover have "\<forall>f \<in> set (swap_steps im photos). \<forall>s. in_rollbacks (f s) = in_rollbacks s"
    by (simp add: swap_steps_def move_database_def drop_sidecars_def move_photos_def place_database_def place_photos_def)
  then have "\<forall>f \<in> set (take k (swap_steps im photos)). \<forall>s. in_rollbacks (f s) = in_rollbacks s" for k
    using in_set_takeD by fast
  ultimately have "in_rollbacks (fold (\<lambda>f s. f s) (take k (swap_steps im photos)) s) = in_rollbacks s" for k
    by blast
  then show ?thesis
    by (auto simp: swap_files_def Let_def undo_swap_def finish_swap_def split: option.splits sum.splits)
qed

lemma all_steps:
  assumes "3 \<le> k" "in_db s \<noteq> None" "in_wal s = None" "in_old_db s = None" "in_old_cars s = None"
  shows "undo_swap (fold (\<lambda>f s. f s) (take k (swap_steps im photos)) s) = s"
proof -
  let ?moved = "move_photos (drop_sidecars (move_database s))"
  have "fold (\<lambda>f s. f s) (take k (swap_steps im photos)) s
      \<in> {?moved, place_database im ?moved, place_photos photos (place_database im ?moved)}"
    using assms(1) by (simp add: swap_steps_def take_Cons')
  moreover have "undo_swap ?moved = s" "undo_swap (place_database im ?moved) = s"
    "undo_swap (place_photos photos (place_database im ?moved)) = s"
    using assms(2-)
    by (cases "in_cars s"; simp add: undo_swap_def move_photos_def drop_sidecars_def move_database_def place_database_def
        place_photos_def)+
  ultimately show ?thesis by auto
qed

lemma swap_late:
  assumes "swap_files fault im photos s = (Inl e, s')" "late_fault fault"
    and "in_db s \<noteq> None" "in_wal s = None" "in_old_db s = None" "in_old_cars s = None"
  shows "s' = s"
proof -
  define k where "k = (case fault of Some k \<Rightarrow> k | None \<Rightarrow> 6)"
  have "3 \<le> k" using assms(2) by (simp add: k_def late_fault_def split: option.splits)
  moreover have "s' = undo_swap (fold (\<lambda>f s. f s) (take k (swap_steps im photos)) s)"
    using assms(1) by (auto simp: swap_files_def Let_def k_def [symmetric] split: if_splits option.splits sum.splits)
  ultimately show ?thesis using all_steps [OF _ assms(3-)] by simp
qed

text \<open>A failed restore loses nothing. Whatever fails, the archive, its contents, or any call of the exchange, either
the database and the photos are as they were, or the archive made just before holds them. From the placing of
the restored database on, and if no log was pending, the undoing brings the installation back exactly.\<close>

theorem failed_restore_loses_nothing:
  assumes "restore_backup ev t fault f s = (Inl e, s')"
    and "tidy s" "in_db s \<noteq> None" "in_old_db s = None" "in_old_cars s = None"
  shows "((in_db s' = in_db s \<and> in_wal s' = in_wal s \<and> in_cars s' = in_cars s) \<or>
      (\<exists>archive. in_rollbacks s' = in_rollbacks s @ [archive] \<and> archive_holds ev archive s)) \<and>
    (late_fault fault \<and> in_wal s = None \<longrightarrow> s' = s\<lparr>in_rollbacks := in_rollbacks s'\<rparr>)"
proof -
  consider "s' = s"
    | s1 where "rollback_backup ev t s = Inr s1" "s' = s1"
    | s1 im photos where "rollback_backup ev t s = Inr s1" "swap_files fault im photos s1 = (Inl e, s')"
    using assms(1)
    by (auto simp: restore_backup_def Let_def map_sum_def prod_eq_iff split: sum.splits if_splits prod.splits)
  then show ?thesis
  proof cases
    case 1
    then show ?thesis by simp
  next
    case 2
    then show ?thesis using assms(3) by (auto simp: rollback_backup_def split: prod.splits)
  next
    case (3 s1 im photos)
    then obtain archive v where a: "export_backup ev t (be_rollback ev) s = Inr (archive, v)"
      "s1 = s\<lparr>in_rollbacks := in_rollbacks s @ [archive]\<rparr>"
      using assms(3) by (auto simp: rollback_backup_def split: prod.splits)
    have "in_rollbacks s' = in_rollbacks s @ [archive]"
      using swap_rollbacks [of fault im photos s1] 3(2) a(2) by simp
    moreover have "late_fault fault \<and> in_wal s = None \<longrightarrow> s' = s1"
      using swap_late [OF 3(2)] assms(3-) a(2) by simp
    ultimately show ?thesis
      using exported_archive_holds [OF a(1) assms(2)] a(2) by auto
  qed
qed

text \<open>A call that fails before both moves are done does delete what it could not move: the installation is left
without a database, and only the rollback archive has it.\<close>

lemma failed_move_deletes_live_data:
  "in_db (snd (swap_files (Some 0) im photos s)) = in_old_db s"
  "in_db s \<noteq> None \<Longrightarrow> in_cars (snd (swap_files (Some 2) im photos s)) = in_old_cars s"
  by (simp_all add: swap_files_def swap_steps_def numeral_takes undo_swap_def drop_sidecars_def move_database_def)

section \<open>A restore that succeeds\<close>

lemma extract_digest:
  "be_digest ev = be_digest ev' \<Longrightarrow> extract_validated_archive ev f = extract_validated_archive ev' f"
proof -
  assume d: "be_digest ev = be_digest ev'"
  have "check_sums ev expected ms = check_sums ev' expected ms" for expected ms
    using d by (induction ms) (auto split: json.splits option.splits)
  then have "check_sums ev = check_sums ev'" by (intro ext)
  then show "extract_validated_archive ev f = extract_validated_archive ev' f"
    unfolding extract_validated_archive_def by (simp only:)
qed

lemma no_open_runs:
  "active_scan_count (Some (Sqlite im)) = Inr 0 \<longleftrightarrow> (\<forall>r \<in> set (scan_runs (im_db im)). \<not> unfinished_status (r_status r))"
  by (auto simp: active_scan_count_def filter_empty_conv)

lemma interrupt_nothing:
  assumes "\<forall>r \<in> set (scan_runs d). \<not> unfinished_status (r_status r)"
  shows "snd (interrupt_unfinished_jobs reason t d) = d"
proof -
  have a: "\<not> active_status (r_status r)" "r_status r \<noteq> QUEUED" if "r \<in> set (scan_runs d)" for r
    using assms that by (auto simp: unfinished_status_def active_status_def)
  have "filter (\<lambda>r. active_status (r_status r)) (scan_runs d) = []" "queued_ids d = []"
    using a by (auto simp: filter_empty_conv queued_ids_def)
  then have "recover_interrupted_jobs reason t d = ([], d)"
    using a by (simp add: recover_interrupted_jobs_def open_project_run_def)
  then show ?thesis
    using a \<open>queued_ids d = []\<close> by (simp add: interrupt_unfinished_jobs_def open_project_run_def)
qed

lemma interrupted_all:
  assumes "r \<in> set (scan_runs (snd (interrupt_unfinished_jobs reason t d)))"
  shows "\<not> unfinished_status (r_status r)"
proof -
  have "\<forall>r \<in> set (scan_runs (snd (recover_interrupted_jobs reason t d))). \<not> active_status (r_status r)"
    using recovered_idle [of reason t d] by (simp add: active_ids_empty_iff)
  then show ?thesis
    using assms
    by (auto simp: interrupt_unfinished_jobs_def Let_def set_update_where interrupt_queued_def unfinished_status_def
        active_status_def split: prod.splits)
qed

lemma prepared_image:
  assumes "prepare_portable_database t c = Inr im"
  shows "(\<forall>r \<in> set (scan_runs (im_db im)). \<not> unfinished_status (r_status r)) \<and> auth_sessions (im_db im) = [] \<and>
    up_to_date im \<and> verify_sqlite (Sqlite im) = Inr (schema_version im, table_counts (im_db im))"
proof -
  obtain im0 im1 where im1: "c = Sqlite im0" "migrate_sqlite t im0 = Inr im1"
    "im = im1\<lparr>im_db := (snd (interrupt_unfinished_jobs ''BACKUP_RESTORED'' t (im_db im1)))\<lparr>auth_sessions := []\<rparr>\<rparr>"
    "\<exists>x. verify_sqlite (Sqlite im) = Inr x"
    using assms by (auto simp: prepare_portable_database_def Let_def split: content.splits sum.splits)
  have "up_to_date im"
    using migrated_up_to_date [OF im1(2)] by (simp add: im1(3) up_to_date_def recorded_def)
  moreover have "verify_sqlite (Sqlite im) = Inr (schema_version im, table_counts (im_db im))"
    using im1(4) by (auto simp: verify_sqlite_def split: if_splits)
  ultimately show ?thesis
    using interrupted_all by (auto simp: im1(3))
qed

text \<open>Round trip. What one installation exports, another one restores: whenever the exported data was at the current
schema and the other installation can make its own rollback archive (or has no data), the restore succeeds and
leaves there the exported database, with portable paths and without sessions, and exactly the exported photos.\<close>

theorem backup_round_trip:
  assumes export: "export_backup ev t dest s = Inr (archive, v)" and tidy: "tidy s"
    and current: "current_db s = Some (Sqlite im)" "up_to_date im"
    and rollback: "rollback_backup ev' t' s' = Inr s1" and digest: "be_digest ev' = be_digest ev"
  shows "\<exists>info s2. restore_backup ev' t' None (Zip archive) s' = (Inr info, s2) \<and>
    current_db s2 = Some (Sqlite (prepare_backup_database_copy (be_below ev) im)) \<and>
    in_cars s2 = Some (photos_of s) \<and> in_rollbacks s2 = in_rollbacks s1"
proof -
  let ?copy = "prepare_backup_database_copy (be_below ev) im"
  obtain im' m l fs where e': "current_db s = Some (Sqlite im')" "active_scan_count (current_db s) = Inr 0"
    "verify_sqlite (Sqlite (prepare_backup_database_copy (be_below ev) im')) \<in> range Inr"
    "extract_validated_archive ev (Zip archive) =
       Inr (m, l, ([DATABASE_PATH], Sqlite (prepare_backup_database_copy (be_below ev) im')) # fs)"
    "map (\<lambda>(p, c). (drop 2 p, Some c)) fs = photos_of s" "\<forall>x \<in> set fs. take 2 (fst x) = [''storage'', ''cars'']"
    by (rule exportE [OF export tidy])
  have "im' = im" using e'(1) current(1) by simp
  note e = e'(2-) [unfolded this]
  have idle: "active_scan_count (current_db s') = Inr 0"
    using rollback
    by (cases "in_db s' = None")
      (auto simp: rollback_backup_def export_backup_def current_db_def active_scan_count_def split: if_splits prod.splits)
  have "\<forall>r \<in> set (scan_runs (im_db ?copy)). \<not> unfinished_status (r_status r)"
    using e(1) by (auto simp: current(1) no_open_runs prepare_backup_database_copy_def portable_db_def)
  moreover have "up_to_date ?copy"
    using current(2) by (simp add: up_to_date_def prepare_backup_database_copy_def recorded_def)
  moreover have "?copy\<lparr>im_db := (im_db ?copy)\<lparr>auth_sessions := []\<rparr>\<rparr> = ?copy"
    by (simp add: prepare_backup_database_copy_def)
  ultimately have "prepare_portable_database t' (Sqlite ?copy) = Inr ?copy"
    using e(2) by (auto simp: prepare_portable_database_def up_to_date_migrate interrupt_nothing)
  then have sources: "restore_sources ev' t' (Zip archive) = Inr (?copy, if fs = [] then None else Some (photos_of s))"
    using e(3-5) restored_photos_files [OF e(5)] extract_digest [OF digest]
    by (simp add: restore_sources_def extracted_file_def)
  obtain info where info: "verify_sqlite (Sqlite ?copy) = Inr info" using e(2) by auto
  let ?s2 = "s1\<lparr>in_db := Some (Sqlite ?copy), in_wal := None, in_cars := Some (photos_of s),
    in_old_db := None, in_old_cars := None\<rparr>"
  have "swap_files None ?copy (if fs = [] then None else Some (photos_of s)) s1 = (Inr info, ?s2)"
    using e(4) info
    by (auto simp: swap_files_def swap_steps_def move_database_def drop_sidecars_def move_photos_def place_database_def
        place_photos_def current_db_def finish_swap_def)
  then have "restore_backup ev' t' None (Zip archive) s' = (Inr (in_db s' \<noteq> None, info), ?s2)"
    using idle rollback sources by (simp add: restore_backup_def)
  then show ?thesis by (simp add: current_db_def)
qed

text \<open>After a successful restore nothing is left open: no scan waits or runs, nobody is signed in, the file passes
the checks of SQLite and has the current schema, and no temporary copy remains.\<close>

theorem restored_installation_is_quiet:
  assumes "restore_backup ev t fault f s = (Inr (made, version, counts), s')"
  shows "\<exists>im. current_db s' = Some (Sqlite im) \<and> list_all (\<lambda>r. \<not> unfinished_status (r_status r)) (scan_runs (im_db im)) \<and>
    auth_sessions (im_db im) = [] \<and> up_to_date im \<and> im_integrity im = ''ok'' \<and> im_violations im = 0 \<and>
    version = schema_version im \<and> counts = table_counts (im_db im) \<and>
    in_cars s' \<noteq> None \<and> in_old_db s' = None \<and> in_old_cars s' = None"
proof -
  obtain s1 im photos where im: "restore_sources ev t f = Inr (im, photos)"
    "swap_files fault im photos s1 = (Inr (version, counts), s')"
    using assms by (auto simp: restore_backup_def Let_def map_sum_def prod_eq_iff split: sum.splits if_splits prod.splits)
  then obtain c where "prepare_portable_database t c = Inr im"
    by (auto simp: restore_sources_def split: prod.splits)
  note p = prepared_image [OF this]
  have ok: "im_integrity im = ''ok''" "im_violations im = 0"
    using p by (auto simp: verify_sqlite_def split: if_splits)
  define k where "k = (case fault of Some k \<Rightarrow> k | None \<Rightarrow> 6)"
  have "5 < k"
    using im(2) by (auto simp: swap_files_def Let_def k_def [symmetric] split: if_splits)
  then have "take k (swap_steps im photos) = swap_steps im photos"
    by (simp add: swap_steps_def)
  then have "current_db s' = Some (Sqlite im) \<and> version = schema_version im \<and> counts = table_counts (im_db im) \<and>
      in_cars s' \<noteq> None \<and> in_old_db s' = None \<and> in_old_cars s' = None"
    using im(2) p \<open>5 < k\<close>
    by (auto simp: swap_files_def Let_def k_def [symmetric] swap_steps_def move_database_def drop_sidecars_def move_photos_def
        place_database_def place_photos_def current_db_def finish_swap_def split: if_splits option.splits)
  then show ?thesis using p ok by (auto simp: list_all_iff)
qed

section \<open>Examples\<close>

definition backup_sample :: backup_env where
  "backup_sample = \<lparr>be_digest = (\<lambda>_. replicate 64 (CHR ''a'')), be_size = (\<lambda>_. 1), be_below = (\<lambda>_. None),
     be_app_version = ''0.1.0'', be_database = [''data'', ''searchcar.sqlite3''], be_storage = [''storage''],
     be_rollback = [''rollback'', ''pre-restore'']\<rparr>"

definition idle_image :: image where
  "idle_image = \<lparr>im_db = empty_db, im_applied = None, im_integrity = ''ok'', im_violations = 0\<rparr>"

definition sample_installation :: "image \<Rightarrow> installation" where
  "sample_installation im = \<lparr>in_db = Some (Sqlite im), in_wal = None,
     in_cars = Some [([''4'', ''a.png''], Some (Bytes ''photo''))], in_lock = False, in_rollbacks = [],
     in_old_db = None, in_old_cars = None\<rparr>"

definition sample_archive :: "zip_info list" where
  "sample_archive = backup_archive backup_sample 0 0 (table_counts empty_db)
     [([DATABASE_PATH], Sqlite idle_image), ([''storage'', ''cars'', ''4'', ''a.png''], Bytes ''photo'')]"

lemma sample_archive_extracts:
  "map_sum id (\<lambda>x. map fst (snd (snd x))) (extract_validated_archive backup_sample (Zip sample_archive)) =
     Inr [[''database.sqlite3''], [''storage'', ''cars'', ''4'', ''a.png'']]"
  by code_simp

lemma sample_export: "map_sum id bv_files (map_sum id snd (export_backup backup_sample 0 [''x''] (sample_installation idle_image))) = Inr 2"
  by code_simp


lemma sample_export_applied:
  "map_sum id (\<lambda>_. ()) (export_backup backup_sample 0 [''x''] (sample_installation (idle_image\<lparr>im_applied := Some rows\<rparr>))) = Inr ()"
  by code_simp

lemma sample_rollback: "map_sum id (\<lambda>_. ()) (export_backup backup_sample 0 (be_rollback backup_sample) (sample_installation idle_image)) = Inr ()"
  by code_simp

lemma sample_tidy: "tidy (sample_installation im)"
  by (simp add: tidy_def photos_of_def sample_installation_def good_parts_def)

lemma idle_migrated:
  "migrate_sqlite t idle_image = Inr (foldl (\<lambda>im m. apply_migration t m im) (idle_image\<lparr>im_applied := Some []\<rparr>) MIGRATIONS)"
  by (simp add: migrate_sqlite_def MIGRATIONS_def recorded_def idle_image_def)

lemma idle_migrated_image:
  "foldl (\<lambda>im m. apply_migration t m im) (idle_image\<lparr>im_applied := Some []\<rparr>) MIGRATIONS =
     idle_image\<lparr>im_applied := Some (map migration_row MIGRATIONS)\<rparr>"
  by (simp add: MIGRATIONS_def apply_migration_def recorded_def idle_image_def schema_only_def durable_scan_queue_def
      project_car_new_status_def empty_db_def)

lemma idle_prepared:
  "prepare_portable_database t (Sqlite idle_image) = Inr (idle_image\<lparr>im_applied := Some (map migration_row MIGRATIONS)\<rparr>)"
  by (simp add: prepare_portable_database_def idle_migrated idle_migrated_image interrupt_nothing)
    (simp add: idle_image_def empty_db_def verify_sqlite_def interrupt_nothing)

definition current_image :: image where
  "current_image = idle_image\<lparr>im_applied := Some (map migration_row MIGRATIONS)\<rparr>"

lemma current_image_up_to_date: "up_to_date current_image"
  using migrated_up_to_date [OF idle_migrated] by (simp add: current_image_def idle_migrated_image)

theorem backup_round_trip_witness:
  "\<exists>archive v. export_backup backup_sample 0 [''x''] (sample_installation current_image) = Inr (archive, v) \<and>
     (\<exists>info s2. restore_backup backup_sample 5 None (Zip archive) ((sample_installation idle_image)\<lparr>in_db := None\<rparr>) = (Inr info, s2) \<and>
        in_cars s2 = Some [([''4'', ''a.png''], Some (Bytes ''photo''))])"
proof -
  obtain archive v where ex: "export_backup backup_sample 0 [''x''] (sample_installation current_image) = Inr (archive, v)"
    using sample_export_applied [of "map migration_row MIGRATIONS"]
    by (cases "export_backup backup_sample 0 [''x''] (sample_installation current_image)") (auto simp: current_image_def)
  have "current_db (sample_installation current_image) = Some (Sqlite current_image)"
    by (simp add: current_db_def sample_installation_def)
  moreover have "rollback_backup backup_sample 5 ((sample_installation idle_image)\<lparr>in_db := None\<rparr>) =
      Inr ((sample_installation idle_image)\<lparr>in_db := None\<rparr>)"
    by (simp add: rollback_backup_def)
  moreover have "photos_of (sample_installation current_image) = [([''4'', ''a.png''], Some (Bytes ''photo''))]"
    by (simp add: photos_of_def sample_installation_def)
  ultimately show ?thesis
    using ex backup_round_trip [OF ex sample_tidy _ current_image_up_to_date _ refl] by metis
qed

lemma sample_sources:
  "restore_sources backup_sample t (Zip sample_archive) =
     Inr (current_image, Some [([''4'', ''a.png''], Some (Bytes ''photo''))])"
proof -
  have "map_sum id (\<lambda>x. snd (snd x)) (extract_validated_archive backup_sample (Zip sample_archive)) =
      Inr [([DATABASE_PATH], Sqlite idle_image), ([''storage'', ''cars'', ''4'', ''a.png''], Bytes ''photo'')]"
    by code_simp
  then obtain m l where "extract_validated_archive backup_sample (Zip sample_archive) =
      Inr (m, l, [([DATABASE_PATH], Sqlite idle_image), ([''storage'', ''cars'', ''4'', ''a.png''], Bytes ''photo'')])"
    by (cases "extract_validated_archive backup_sample (Zip sample_archive)") auto
  then show ?thesis
    by (simp add: restore_sources_def extracted_file_def idle_prepared current_image_def restored_photos_def DATABASE_PATH_def)
qed

lemma sample_restore:
  "\<exists>s1. rollback_backup backup_sample 0 (sample_installation idle_image) = Inr s1 \<and>
     restore_backup backup_sample 0 fault (Zip sample_archive) (sample_installation idle_image) =
       (map_sum id (\<lambda>info. (True, info)) (fst (swap_files fault current_image (Some [([''4'', ''a.png''], Some (Bytes ''photo''))]) s1)),
        snd (swap_files fault current_image (Some [([''4'', ''a.png''], Some (Bytes ''photo''))]) s1))"
proof -
  obtain a where "export_backup backup_sample 0 (be_rollback backup_sample) (sample_installation idle_image) = Inr a"
    using sample_rollback
    by (cases "export_backup backup_sample 0 (be_rollback backup_sample) (sample_installation idle_image)") auto
  then obtain s1 where "rollback_backup backup_sample 0 (sample_installation idle_image) = Inr s1"
    by (cases a) (simp add: rollback_backup_def sample_installation_def)
  moreover have "active_scan_count (current_db (sample_installation idle_image)) = Inr 0"
    by (simp add: current_db_def sample_installation_def no_open_runs) (simp add: idle_image_def empty_db_def)
  moreover have "in_db (sample_installation idle_image) \<noteq> None"
    by (simp add: sample_installation_def)
  ultimately show ?thesis
    by (simp add: restore_backup_def sample_sources Let_def)
qed

theorem failed_restore_loses_nothing_witness:
  "\<exists>e s'. restore_backup backup_sample 0 (Some 4) (Zip sample_archive) (sample_installation idle_image) = (Inl e, s') \<and>
     s' = (sample_installation idle_image)\<lparr>in_rollbacks := in_rollbacks s'\<rparr>"
proof -
  obtain s' where r: "restore_backup backup_sample 0 (Some 4) (Zip sample_archive) (sample_installation idle_image) = (Inl Os_Error, s')"
    using sample_restore [of "Some 4"] by (auto simp: swap_files_def)
  have "in_db (sample_installation idle_image) \<noteq> None" "in_old_db (sample_installation idle_image) = None"
    "in_old_cars (sample_installation idle_image) = None" "in_wal (sample_installation idle_image) = None"
    by (simp_all add: sample_installation_def)
  then show ?thesis
    using r failed_restore_loses_nothing [OF r sample_tidy] by (auto simp: late_fault_def)
qed

lemma swap_none:
  "verify_sqlite (Sqlite im) = Inr info \<Longrightarrow> fst (swap_files None im photos s) = Inr info"
  by (simp add: swap_files_def swap_steps_def current_db_def place_database_def place_photos_def drop_sidecars_def
      move_photos_def Let_def)

theorem restored_installation_is_quiet_witness:
  "\<exists>made version counts s'.
     restore_backup backup_sample 0 None (Zip sample_archive) (sample_installation idle_image) = (Inr (made, version, counts), s') \<and>
     (\<exists>im. current_db s' = Some (Sqlite im) \<and> up_to_date im)"
proof -
  have "verify_sqlite (Sqlite current_image) = Inr (schema_version current_image, table_counts empty_db)"
    by (simp add: verify_sqlite_def current_image_def idle_image_def)
  then obtain version counts s' where r:
    "restore_backup backup_sample 0 None (Zip sample_archive) (sample_installation idle_image) = (Inr (True, version, counts), s')"
    using sample_restore [of None] swap_none by auto
  then show ?thesis
    using restored_installation_is_quiet [OF r] by blast
qed

end
