(* ===== verification/Accounts.thy ===== *)
theory Accounts
  imports Auth JobQueue
begin

text \<open>
  The administration of accounts in \<^verbatim>\<open>backend/app/main.py\<close> (\<^verbatim>\<open>/api/admin\<close>): creating, changing, deleting
  accounts, resetting passwords, statistics, with the foreign keys of \<^verbatim>\<open>backend/app/models.py\<close> that delete
  or clear rows. A field of a patch is absent, null or a value (\<open>'a option option\<close>). The locale
  \<open>account_operation\<close> is the contract of all requests that change accounts: user identifiers stay unique
  and an active administrator remains.
\<close>

section \<open>Deleting rows with their references\<close>

definition delete_settings :: "(scheduler_setting \<Rightarrow> bool) \<Rightarrow> db \<Rightarrow> db" where
  "delete_settings P d = d\<lparr>
     scheduler_settings := filter (\<lambda>s. \<not> P s) (scheduler_settings d),
     scheduled_projects := filter (\<lambda>x. \<not> (\<exists>s \<in> set (scheduler_settings d). P s \<and> s_id s = sp_scheduler_id x))
       (scheduled_projects d)\<rparr>"

definition delete_runs :: "(scan_run \<Rightarrow> bool) \<Rightarrow> db \<Rightarrow> db" where
  "delete_runs P d = d\<lparr>
     scan_runs := filter (\<lambda>r. \<not> P r) (scan_runs d),
     project_scan_runs := filter (\<lambda>x. \<not> (\<exists>r \<in> set (scan_runs d). P r \<and> r_id r = psr_scan_run_id x))
       (project_scan_runs d)\<rparr>"

definition delete_projects :: "(project \<Rightarrow> bool) \<Rightarrow> db \<Rightarrow> db" where
  "delete_projects P d =
     (let gone = (\<lambda>i. \<exists>p \<in> set (projects d). P p \<and> p_id p = i)
      in d\<lparr>projects := filter (\<lambda>p. \<not> P p) (projects d),
           project_cars := filter (\<lambda>l. \<not> gone (pc_project_id l)) (project_cars d),
           project_scan_runs := filter (\<lambda>x. \<not> gone (psr_project_id x)) (project_scan_runs d),
           scheduled_projects := filter (\<lambda>x. \<not> gone (sp_project_id x)) (scheduled_projects d),
           car_events := update_where (\<lambda>e. case ce_project_id e of Some i \<Rightarrow> gone i | None \<Rightarrow> False)
             (\<lambda>e. e\<lparr>ce_project_id := None\<rparr>) (car_events d)\<rparr>)"

definition delete_user :: "int \<Rightarrow> db \<Rightarrow> db" where
  "delete_user i d = d\<lparr>
     users := filter (\<lambda>u. u_id u \<noteq> i) (users d),
     auth_sessions := filter (\<lambda>s. as_user_id s \<noteq> i) (auth_sessions d),
     user_car_states := filter (\<lambda>s. ucs_user_id s \<noteq> i) (user_car_states d),
     audit_logs := map (\<lambda>a. a\<lparr>
       al_actor_user_id := (if al_actor_user_id a = Some i then None else al_actor_user_id a),
       al_target_user_id := (if al_target_user_id a = Some i then None else al_target_user_id a)\<rparr>)
       (audit_logs d),
     car_events := update_where (\<lambda>e. ce_user_id e = Some i) (\<lambda>e. e\<lparr>ce_user_id := None\<rparr>) (car_events d)\<rparr>"

section \<open>Requests of administrators\<close>

definition admin_only :: "(user \<Rightarrow> (db, 'a) handler) \<Rightarrow> user \<Rightarrow> auth_session \<Rightarrow> (db, 'a) handler" where
  "admin_only k u s d = (if u_role u \<noteq> ADMIN then (Inl (HTTPException 403 ''admin_required''), d) else k u d)"

fun role_name :: "role \<Rightarrow> string" where
  "role_name USER = ''USER''"
| "role_name ADMIN = ''ADMIN''"

fun user_status_name :: "user_status \<Rightarrow> string" where
  "user_status_name ACTIVE = ''ACTIVE''"
| "user_status_name PENDING_APPROVAL = ''PENDING_APPROVAL''"
| "user_status_name BLOCKED = ''BLOCKED''"

record admin_user_in =
  ai_username :: string
  ai_password :: string
  ai_role :: role
  ai_status :: user_status
  ai_project_limit :: "int option"
  ai_must_change_password :: bool

definition create_account :: "env \<Rightarrow> time \<Rightarrow> admin_user_in \<Rightarrow> user \<Rightarrow> (db, user_view) handler" where
  "create_account ev t body admin d =
     (if user_by_key d (normalize_username ev (ai_username body)) \<noteq> None
      then (Inl (HTTPException 409 ''username_exists''), d)
      else
        let u = new_user ev t (ai_username body) (ev_hash_password ev (ai_password body)) (ai_role body)
                  (ai_status body) (if ai_role body = ADMIN then None else ai_project_limit body)
                  (ai_must_change_password body) d;
            d' = audit (user_audit ''USER_CREATED'' (Some (u_id admin)) (Some (u_id u)) True
                   (Some [(''role'', JStr (role_name (u_role u))),
                          (''status'', JStr (user_status_name (u_status u)))])) (add_user u d)
        in (Inr (user_out d' u), d'))"

definition admin_create_user :: "env \<Rightarrow> time \<Rightarrow> request \<Rightarrow> admin_user_in \<Rightarrow> (db, user_view) handler" where
  "admin_create_user ev t rq body = require_csrf ev t rq (admin_only (create_account ev t body))"

record user_patch =
  up_username :: "string option option"
  up_role :: "role option option"
  up_status :: "user_status option option"
  up_project_limit :: "int option option"
  up_must_change_password :: "bool option option"

definition patched :: "'a \<Rightarrow> 'a option option \<Rightarrow> 'a option" where
  "patched old p = (case p of None \<Rightarrow> Some old | Some v \<Rightarrow> v)"

definition active_admins :: "db \<Rightarrow> user list" where
  "active_admins d = filter (\<lambda>u. u_role u = ADMIN \<and> u_status u = ACTIVE) (users d)"

definition restricts :: "user \<Rightarrow> user_patch \<Rightarrow> bool" where
  "restricts u b \<longleftrightarrow> patched (u_role u) (up_role b) \<noteq> Some ADMIN \<or>
     patched (u_status u) (up_status b) \<noteq> Some ACTIVE"

text \<open>Whether \<^verbatim>\<open>ensure_not_last_admin\<close> raises.\<close>

definition last_admin :: "db \<Rightarrow> user \<Rightarrow> user_patch \<Rightarrow> bool" where
  "last_admin d u b \<longleftrightarrow> u_role u = ADMIN \<and> restricts u b \<and> length (active_admins d) \<le> 1"

definition name_taken :: "env \<Rightarrow> db \<Rightarrow> user \<Rightarrow> user_patch \<Rightarrow> bool" where
  "name_taken ev d u b \<longleftrightarrow>
     (case up_username b of
        Some (Some n) \<Rightarrow> \<exists>x \<in> set (users d). u_username_key x = normalize_username ev n \<and> u_id x \<noteq> u_id u
      | _ \<Rightarrow> False)"

definition rename_user :: "env \<Rightarrow> user_patch \<Rightarrow> user \<Rightarrow> user" where
  "rename_user ev b u =
     (case up_username b of
        Some (Some n) \<Rightarrow> u\<lparr>u_username := strip n, u_username_key := normalize_username ev n\<rparr>
      | _ \<Rightarrow> u)"

definition patch_user :: "env \<Rightarrow> user_patch \<Rightarrow> user \<Rightarrow> user" where
  "patch_user ev b u =
     (let rl = (case patched (u_role u) (up_role b) of Some x \<Rightarrow> x | None \<Rightarrow> u_role u);
          st = (case patched (u_status u) (up_status b) of Some x \<Rightarrow> x | None \<Rightarrow> u_status u);
          mc = (case patched (u_must_change_password u) (up_must_change_password b) of
                  Some x \<Rightarrow> x | None \<Rightarrow> u_must_change_password u);
          limit = (case up_project_limit b of None \<Rightarrow> u_project_limit u | Some x \<Rightarrow> x)
      in (rename_user ev b u)\<lparr>u_role := rl, u_status := st, u_must_change_password := mc,
           u_project_limit := (if rl = ADMIN then None else limit)\<rparr>)"

text \<open>A null in a column that must not be null: the commit fails and the request ends with an error 500.\<close>

definition null_columns :: "user_patch \<Rightarrow> bool" where
  "null_columns b \<longleftrightarrow> up_username b = Some None \<or> up_role b = Some None \<or> up_status b = Some None \<or>
     up_must_change_password b = Some None"

definition patch_payload :: "user_patch \<Rightarrow> dict" where
  "patch_payload b = concat [
     (case up_role b of None \<Rightarrow> [] | Some v \<Rightarrow> [(''role'', jopt (\<lambda>r. JStr (role_name r)) v)]),
     (case up_status b of None \<Rightarrow> [] | Some v \<Rightarrow> [(''status'', jopt (\<lambda>s. JStr (user_status_name s)) v)]),
     (case up_project_limit b of None \<Rightarrow> [] | Some v \<Rightarrow> [(''project_limit'', jopt JInt v)]),
     (case up_must_change_password b of None \<Rightarrow> [] | Some v \<Rightarrow> [(''must_change_password'', jopt JBool v)])]"

definition stop_run :: "time \<Rightarrow> scan_run \<Rightarrow> scan_run" where
  "stop_run t r =
     (if r_status r = QUEUED then r\<lparr>r_status := CANCELLED, r_finished_at := Some t\<rparr>
      else r\<lparr>r_status := CANCEL_REQUESTED\<rparr>)"

definition stop_user :: "time \<Rightarrow> int \<Rightarrow> db \<Rightarrow> db" where
  "stop_user t i d = (revoke_user_sessions t i None d)\<lparr>scan_runs :=
     update_where (\<lambda>r. r_owner_id r = i \<and> r_status r \<in> {QUEUED, RUNNING, CANCEL_REQUESTED}) (stop_run t)
       (scan_runs d)\<rparr>"

definition apply_patch :: "env \<Rightarrow> time \<Rightarrow> user \<Rightarrow> user \<Rightarrow> user_patch \<Rightarrow> db \<Rightarrow> db" where
  "apply_patch ev t admin u b d =
     (let d1 = set_user (u_id u) (patch_user ev b) d;
          d2 = (if u_status (patch_user ev b u) \<noteq> ACTIVE then stop_user t (u_id u) d1 else d1)
      in audit (user_audit ''USER_UPDATED'' (Some (u_id admin)) (Some (u_id u)) True (Some (patch_payload b))) d2)"

definition patch_account :: "env \<Rightarrow> time \<Rightarrow> int \<Rightarrow> user_patch \<Rightarrow> user \<Rightarrow> (db, user_view) handler" where
  "patch_account ev t i b admin d =
     (case get_user d i of
        None \<Rightarrow> (Inl (HTTPException 404 ''user_not_found''), d)
      | Some u \<Rightarrow>
          if u_id u = u_id admin \<and> restricts u b then (Inl (HTTPException 409 ''cannot_restrict_self''), d)
          else if last_admin d u b then (Inl (HTTPException 409 ''last_active_admin''), d)
          else if name_taken ev d u b then (Inl (HTTPException 409 ''username_exists''), d)
          else if null_columns b then (Inl (HTTPException 500 ''Internal Server Error''), d)
          else let d' = apply_patch ev t admin u b d in (user_view_of d' i, d'))"

definition admin_patch_user :: "env \<Rightarrow> time \<Rightarrow> request \<Rightarrow> int \<Rightarrow> user_patch \<Rightarrow> (db, user_view) handler" where
  "admin_patch_user ev t rq i b = require_csrf ev t rq (admin_only (patch_account ev t i b))"

definition deletion_audit :: "user \<Rightarrow> user \<Rightarrow> db \<Rightarrow> audit_log" where
  "deletion_audit admin u d = (audit_entry ''USER_DELETED'')\<lparr>
     al_actor_user_id := Some (u_id admin), al_entity_type := Some ''USER'',
     al_entity_id := JStr (show_int (u_id u)),
     al_payload := Some [(''username'', JStr (u_username u)), (''role'', JStr (role_name (u_role u))),
       (''status'', JStr (user_status_name (u_status u))),
       (''projects_deleted'', JInt (int (length (filter (\<lambda>p. p_owner_id p = u_id u) (projects d))))),
       (''scans_deleted'', JInt (int (length (filter (\<lambda>r. r_owner_id r = u_id u) (scan_runs d)))))]\<rparr>"

definition delete_user_account_data :: "user \<Rightarrow> user \<Rightarrow> db \<Rightarrow> db" where
  "delete_user_account_data u admin d =
     delete_user (u_id u)
       (delete_projects (\<lambda>p. p_owner_id p = u_id u)
         (delete_runs (\<lambda>r. r_owner_id r = u_id u)
           (delete_settings (\<lambda>s. s_user_id s = u_id u)
             (audit (deletion_audit admin u d) d))))"

definition active_scans :: "db \<Rightarrow> int \<Rightarrow> scan_run list" where
  "active_scans d i = filter (\<lambda>r. r_owner_id r = i \<and> r_status r \<in> {QUEUED, RUNNING, CANCEL_REQUESTED}) (scan_runs d)"

definition delete_account :: "time \<Rightarrow> int \<Rightarrow> user \<Rightarrow> (db, unit) handler" where
  "delete_account t i admin d =
     (case get_user d i of
        None \<Rightarrow> (Inl (HTTPException 404 ''user_not_found''), d)
      | Some u \<Rightarrow>
          if u_id u = u_id admin then (Inl (HTTPException 409 ''cannot_delete_self''), d)
          else if u_role u = ADMIN \<and> u_status u = ACTIVE \<and> length (active_admins d) \<le> 1
          then (Inl (HTTPException 409 ''last_active_admin''), d)
          else if active_scans d (u_id u) \<noteq> [] then (Inl (HTTPException 409 ''user_has_active_scans''), d)
          else (Inr (), delete_user_account_data u admin (revoke_user_sessions t (u_id u) None d)))"

definition admin_delete_user :: "env \<Rightarrow> time \<Rightarrow> request \<Rightarrow> int \<Rightarrow> (db, unit) handler" where
  "admin_delete_user ev t rq i = require_csrf ev t rq (admin_only (delete_account t i))"

definition reset_password :: "env \<Rightarrow> time \<Rightarrow> int \<Rightarrow> string \<Rightarrow> bool \<Rightarrow> user \<Rightarrow> (db, bool) handler" where
  "reset_password ev t i password must_change admin d =
     (case get_user d i of
        None \<Rightarrow> (Inl (HTTPException 404 ''user_not_found''), d)
      | Some u \<Rightarrow> (Inr must_change,
          audit (user_audit ''PASSWORD_RESET_BY_ADMIN'' (Some (u_id admin)) (Some (u_id u)) True None)
            (revoke_user_sessions t (u_id u) None
              (set_user (u_id u) (\<lambda>u. u\<lparr>u_password_hash := ev_hash_password ev password,
                 u_must_change_password := must_change\<rparr>) d))))"

definition admin_reset_password :: "env \<Rightarrow> time \<Rightarrow> request \<Rightarrow> int \<Rightarrow> string \<Rightarrow> bool \<Rightarrow> (db, bool) handler" where
  "admin_reset_password ev t rq i password must_change =
     require_csrf ev t rq (admin_only (reset_password ev t i password must_change))"

record admin_stats_out =
  st_users :: nat
  st_active_users :: nat
  st_pending_users :: nat
  st_blocked_users :: nat
  st_projects :: nat
  st_cars :: nat
  st_scans_30d :: nat
  st_failed_scans_30d :: nat

definition count_status :: "user_status \<Rightarrow> db \<Rightarrow> nat" where
  "count_status st d = length (filter (\<lambda>u. u_status u = st) (users d))"

definition stats_of :: "time \<Rightarrow> db \<Rightarrow> admin_stats_out" where
  "stats_of t d =
     (let recent = filter (\<lambda>r. t - days 30 \<le> r_created_at r) (scan_runs d)
      in \<lparr>st_users = length (users d), st_active_users = count_status ACTIVE d,
          st_pending_users = count_status PENDING_APPROVAL d, st_blocked_users = count_status BLOCKED d,
          st_projects = length (projects d), st_cars = length (cars d), st_scans_30d = length recent,
          st_failed_scans_30d = length (filter (\<lambda>r. r_status r \<in> {FAILED, PARTIAL}) recent)\<rparr>)"

definition admin_stats :: "time \<Rightarrow> request \<Rightarrow> (db, admin_stats_out) handler" where
  "admin_stats t rq = require_admin t rq (\<lambda>u d. (Inr (stats_of t d), d))"

definition admin_users :: "time \<Rightarrow> request \<Rightarrow> (db, user_view list) handler" where
  "admin_users t rq = require_admin t rq (\<lambda>u d.
     (Inr (map (user_out d) (rev (sort_key u_created_at (rev (users d))))), d))"


section \<open>The contract of account operations\<close>

definition admin_ok :: "db \<Rightarrow> bool" where
  "admin_ok d \<longleftrightarrow> distinct (map u_id (users d)) \<and> active_admins d \<noteq> []"

locale account_operation =
  fixes op :: "db \<Rightarrow> db"
  assumes admin_kept: "admin_ok d \<Longrightarrow> admin_ok (op d)"
begin

lemma administrator_remains:
  "admin_ok d \<Longrightarrow> \<exists>u \<in> set (users (op d)). u_role u = ADMIN \<and> u_status u = ACTIVE"
  using admin_kept [of d] by (auto simp: admin_ok_def active_admins_def filter_empty_conv)

end

named_theorems admin_simps \<open>updates that leave identifiers, roles and statuses of accounts alone\<close>

lemma admin_ok_users: "users d' = users d \<Longrightarrow> admin_ok d' = admin_ok d"
  by (simp add: admin_ok_def active_admins_def)

lemma admin_ok_tables [admin_simps]:
  "admin_ok (audit a d) = admin_ok d" "admin_ok (set_session i f d) = admin_ok d"
  "admin_ok (revoke_user_sessions t i x d) = admin_ok d" "admin_ok (add_attempt t k ip ok d) = admin_ok d"
  "admin_ok (delete_settings PS d) = admin_ok d" "admin_ok (delete_runs PR d) = admin_ok d"
  "admin_ok (delete_projects PP d) = admin_ok d" "admin_ok (d\<lparr>scan_runs := rs\<rparr>) = admin_ok d"
  "admin_ok (d\<lparr>auth_sessions := ss\<rparr>) = admin_ok d"
  by (simp_all add: admin_ok_def active_admins_def audit_def set_session_def revoke_user_sessions_def
      add_attempt_def delete_settings_def delete_runs_def delete_projects_def Let_def)

lemma admin_ok_set_user:
  assumes "admin_ok d" and "\<And>u. u_id (f u) = u_id u"
    and "\<And>u. u_role u = ADMIN \<Longrightarrow> u_status u = ACTIVE \<Longrightarrow> u_id u = i \<Longrightarrow> u_role (f u) = ADMIN \<and> u_status (f u) = ACTIVE"
  shows "admin_ok (set_user i f d)"
proof -
  obtain u where u: "u \<in> set (users d)" "u_role u = ADMIN" "u_status u = ACTIVE"
    using assms(1) by (auto simp: admin_ok_def active_admins_def filter_empty_conv)
  let ?u = "if u_id u = i then f u else u"
  have "?u \<in> set (users (set_user i f d))" using u(1) by (auto simp: set_user_def update_where_def)
  moreover have "u_role ?u = ADMIN" "u_status ?u = ACTIVE" using assms(3) u by auto
  moreover have "map u_id (users (set_user i f d)) = map u_id (users d)"
    using assms(2) by (simp add: set_user_def map_update_where)
  ultimately show ?thesis
    using assms(1) unfolding admin_ok_def active_admins_def filter_empty_conv by metis
qed

lemma admin_ok_add_user: "admin_ok d \<Longrightarrow> u_id u = fresh_id (map u_id (users d)) \<Longrightarrow> admin_ok (add_user u d)"
  using fresh_id_notin [of "map u_id (users d)"]
  by (auto simp: admin_ok_def active_admins_def add_user_def filter_empty_conv)

lemma admin_ok_touch: "admin_ok d \<Longrightarrow> admin_ok (touch_session t u s d)"
  by (auto simp: touch_session_def admin_simps intro!: admin_ok_set_user)

interpretation admins: request_invariant admin_ok
  by unfold_locales (rule admin_ok_touch)

lemmas admin_ok_with_user = admins.with_user_keeps
lemmas admin_ok_require_csrf = admins.require_csrf_keeps

lemma admin_ok_admin_only:
  assumes "\<And>u d. admin_ok d \<Longrightarrow> admin_ok (snd (k u d))"
  shows "admin_ok d \<Longrightarrow> admin_ok (snd (admin_only k u s d))"
  by (simp add: admin_only_def assms)

interpretation create: account_operation "\<lambda>d. snd (admin_create_user ev t rq body d)"
  by unfold_locales (auto simp: admin_create_user_def create_account_def Let_def admin_simps new_user_def
      intro!: admin_ok_require_csrf admin_ok_admin_only admin_ok_add_user)

interpretation reset: account_operation "\<lambda>d. snd (admin_reset_password ev t rq i pw mc d)"
  by unfold_locales (auto simp: admin_reset_password_def reset_password_def admin_simps
      intro!: admin_ok_require_csrf admin_ok_admin_only admin_ok_set_user split: option.split)

interpretation registration: account_operation "\<lambda>d. snd (register ev t rq name pw d)"
  by unfold_locales (auto simp: register_def Let_def admin_simps new_user_def intro!: admin_ok_add_user)

interpretation sign_in: account_operation "\<lambda>d. snd (login ev t rq tokens name pw d)"
  by unfold_locales (auto simp: login_def Let_def failed_login_def open_login_session_def admin_simps
      intro!: admin_ok_set_user split: option.split bool.split)

interpretation sign_out: account_operation "\<lambda>d. snd (logout ev t rq d)"
  by unfold_locales (auto simp: logout_def admin_simps intro!: admin_ok_require_csrf)

interpretation own_password: account_operation "\<lambda>d. snd (change_password ev t rq old new d)"
  by unfold_locales (auto simp: change_password_def new_password_def admin_simps
      intro!: admin_ok_require_csrf admin_ok_set_user)

interpretation profile: account_operation "\<lambda>d. snd (update_profile ev t rq lc d)"
  by unfold_locales (auto simp: update_profile_def Let_def admin_simps
      intro!: admin_ok_require_csrf admin_ok_set_user)

lemma two_admins:
  assumes "distinct (map u_id (users d))" and "1 < length (active_admins d)"
  shows "\<exists>x \<in> set (active_admins d). u_id x \<noteq> i"
proof (rule ccontr)
  assume "\<not> ?thesis"
  then have "set (map u_id (active_admins d)) \<subseteq> {i}" by auto
  moreover have "distinct (map u_id (active_admins d))"
    using assms(1) by (simp add: active_admins_def distinct_map_filter)
  ultimately have "length (map u_id (active_admins d)) \<le> card {i}"
    using card_mono [of "{i}"] distinct_card by (metis finite.emptyI finite_insert)
  with assms(2) show False by simp
qed

lemma admin_ok_other:
  assumes "x \<in> set (active_admins d)" and "u_id x \<noteq> i" and "distinct (map u_id (users d'))"
    and "\<And>y. y \<in> set (users d) \<Longrightarrow> u_id y \<noteq> i \<Longrightarrow> y \<in> set (users d')"
  shows "admin_ok d'"
  using assms by (auto simp: admin_ok_def active_admins_def filter_empty_conv)

lemma distinct_set_user:
  "(\<And>u. u_id (f u) = u_id u) \<Longrightarrow> distinct (map u_id (users (set_user i f d))) = distinct (map u_id (users d))"
  by (simp add: set_user_def map_update_where)

lemma patch_user_id [simp]: "u_id (patch_user ev b u) = u_id u"
  by (simp add: patch_user_def rename_user_def Let_def split: option.split)

lemma patch_user_keeps_admin:
  "u_role u = ADMIN \<Longrightarrow> u_status u = ACTIVE \<Longrightarrow> \<not> restricts u b \<Longrightarrow>
   u_role (patch_user ev b u) = ADMIN \<and> u_status (patch_user ev b u) = ACTIVE"
  by (auto simp: patch_user_def restricts_def Let_def)

lemma admin_ok_apply_patch:
  "admin_ok (set_user (u_id u) (patch_user ev b) d) \<Longrightarrow> admin_ok (apply_patch ev t admin u b d)"
  by (simp add: apply_patch_def Let_def stop_user_def admin_simps)

lemma admin_ok_patch: "admin_ok d \<Longrightarrow> admin_ok (snd (patch_account ev t i b admin d))"
proof -
  assume ok: "admin_ok d"
  have "admin_ok (set_user (u_id u) (patch_user ev b) d)"
    if u: "get_user d i = Some u" and safe: "\<not> last_admin d u b" for u
  proof (cases "u_role u = ADMIN \<and> restricts u b")
    case True
    then have "1 < length (active_admins d)" using safe by (auto simp: last_admin_def)
    then obtain x where "x \<in> set (active_admins d)" "u_id x \<noteq> u_id u"
      using two_admins ok by (metis admin_ok_def)
    then show ?thesis
      using ok by (intro admin_ok_other [of x d "u_id u"])
        (auto simp: set_user_def admin_ok_def map_update_where)
  next
    case False
    have same: "y = u" if "y \<in> set (users d)" "u_id y = u_id u" for y
      using that ok u by (auto simp: admin_ok_def get_user_def distinct_map dest!: first_row_Some inj_onD)
    obtain y where y: "y \<in> set (users d)" "u_role y = ADMIN" "u_status y = ACTIVE"
      using ok by (auto simp: admin_ok_def active_admins_def filter_empty_conv)
    let ?y = "if u_id y = u_id u then patch_user ev b y else y"
    have "?y \<in> set (users (set_user (u_id u) (patch_user ev b) d))"
      using y(1) by (auto simp: set_user_def update_where_def)
    moreover have "u_role ?y = ADMIN \<and> u_status ?y = ACTIVE"
      using same [OF y(1)] y False patch_user_keeps_admin [of y b ev] by auto
    ultimately show ?thesis
      using ok unfolding admin_ok_def active_admins_def filter_empty_conv
      by (auto simp: distinct_set_user)
  qed
  then show ?thesis
    using ok by (auto simp: patch_account_def Let_def intro: admin_ok_apply_patch split: option.split)
qed

interpretation patch: account_operation "\<lambda>d. snd (admin_patch_user ev t rq i b d)"
  by unfold_locales (auto simp: admin_patch_user_def intro!: admin_ok_require_csrf admin_ok_admin_only admin_ok_patch)

lemma admin_ok_delete: "admin_ok d \<Longrightarrow> admin_ok (snd (delete_account t i admin d))"
proof -
  assume ok: "admin_ok d"
  have gone: "admin_ok (delete_user_account_data u admin (revoke_user_sessions t (u_id u) None d))"
    if u: "get_user d i = Some u" and safe: "\<not> (u_role u = ADMIN \<and> u_status u = ACTIVE \<and> length (active_admins d) \<le> 1)" for u
  proof -
    let ?e = "delete_projects (\<lambda>p. p_owner_id p = u_id u)
         (delete_runs (\<lambda>r. r_owner_id r = u_id u)
           (delete_settings (\<lambda>s. s_user_id s = u_id u)
             (audit (deletion_audit admin u (revoke_user_sessions t (u_id u) None d))
               (revoke_user_sessions t (u_id u) None d))))"
    have users: "users ?e = users d"
      by (simp add: delete_projects_def delete_runs_def delete_settings_def audit_def revoke_user_sessions_def Let_def)
    have "\<exists>x \<in> set (active_admins d). u_id x \<noteq> u_id u"
    proof (cases "u_role u = ADMIN \<and> u_status u = ACTIVE")
      case True
      then show ?thesis using two_admins ok safe by (simp add: admin_ok_def)
    next
      case False
      have "y = u" if "y \<in> set (users d)" "u_id y = u_id u" for y
        using that ok u by (auto simp: admin_ok_def get_user_def distinct_map dest!: first_row_Some inj_onD)
      then show ?thesis
        using ok False by (auto simp: admin_ok_def active_admins_def filter_empty_conv)
    qed
    then obtain x where "x \<in> set (active_admins d)" "u_id x \<noteq> u_id u" by blast
    then show ?thesis
      unfolding delete_user_account_data_def
      by (rule admin_ok_other) (use ok users in \<open>auto simp: delete_user_def admin_ok_def distinct_map_filter\<close>)
  qed
  then show ?thesis
    using ok by (auto simp: delete_account_def split: option.split)
qed

interpretation deletion: account_operation "\<lambda>d. snd (admin_delete_user ev t rq i d)"
  by unfold_locales (auto simp: admin_delete_user_def intro!: admin_ok_require_csrf admin_ok_admin_only admin_ok_delete)


section \<open>Sequences of account requests\<close>

inductive account_step :: "env \<Rightarrow> db \<Rightarrow> db \<Rightarrow> bool" for ev where
  login: "account_step ev d (snd (login ev t rq tokens name pw d))"
| logout: "account_step ev d (snd (logout ev t rq d))"
| password: "account_step ev d (snd (change_password ev t rq old new d))"
| profile: "account_step ev d (snd (update_profile ev t rq lc d))"
| registration: "account_step ev d (snd (register ev t rq name pw d))"
| creation: "account_step ev d (snd (admin_create_user ev t rq body d))"
| change: "account_step ev d (snd (admin_patch_user ev t rq i b d))"
| deletion: "account_step ev d (snd (admin_delete_user ev t rq i d))"
| reset: "account_step ev d (snd (admin_reset_password ev t rq i pw mc d))"

inductive_cases account_step_from: "account_step ev d d'"

lemma account_step_ok: "account_step ev d d' \<Longrightarrow> admin_ok d \<Longrightarrow> admin_ok d'"
  by (erule account_step_from)
    (simp_all add: sign_in.admin_kept sign_out.admin_kept own_password.admin_kept profile.admin_kept
      registration.admin_kept create.admin_kept patch.admin_kept deletion.admin_kept reset.admin_kept)

text \<open>C33: no sequence of account requests, by whomever and with whatever bodies, leaves the installation without
  an active administrator.\<close>

theorem administrator_always_remains:
  assumes "(account_step ev)\<^sup>*\<^sup>* d d'" and "admin_ok d"
  shows "\<exists>u \<in> set (users d'). u_role u = ADMIN \<and> u_status u = ACTIVE"
proof -
  from assms have "admin_ok d'" by (induction rule: rtranclp_induct) (auto intro: account_step_ok)
  then show ?thesis by (auto simp: admin_ok_def active_admins_def filter_empty_conv)
qed

lemma administrator_always_remains_witness:
  "\<exists>u \<in> set (users (snd (admin_delete_user sample_env 20 (sample_request ''mine'') 7 (signed_in ADMIN)))).
     u_role u = ADMIN \<and> u_status u = ACTIVE"
proof (rule administrator_always_remains)
  show "(account_step sample_env)\<^sup>*\<^sup>* (signed_in ADMIN)
      (snd (admin_delete_user sample_env 20 (sample_request ''mine'') 7 (signed_in ADMIN)))"
    by (rule r_into_rtranclp, rule account_step.deletion)
  show "admin_ok (signed_in ADMIN)"
    by (simp add: admin_ok_def active_admins_def signed_in_def sample_user_def)
qed

section \<open>What a deletion leaves\<close>

text \<open>The rows of an account.\<close>

definition belongs :: "int \<Rightarrow> db \<Rightarrow> bool" where
  "belongs i d \<longleftrightarrow> (\<exists>u \<in> set (users d). u_id u = i) \<or> (\<exists>s \<in> set (auth_sessions d). as_user_id s = i) \<or>
     (\<exists>p \<in> set (projects d). p_owner_id p = i) \<or> (\<exists>r \<in> set (scan_runs d). r_owner_id r = i) \<or>
     (\<exists>s \<in> set (scheduler_settings d). s_user_id s = i) \<or> (\<exists>s \<in> set (user_car_states d). ucs_user_id s = i) \<or>
     (\<exists>e \<in> set (car_events d). ce_user_id e = Some i)"

lemma delete_account_ok:
  assumes "delete_account t i admin d = (Inr r, d')"
  shows "\<exists>u. get_user d i = Some u \<and> i \<noteq> u_id admin \<and> active_scans d i = [] \<and>
    d' = delete_user_account_data u admin (revoke_user_sessions t i None d)"
  using assms get_user_id [of d i] by (auto simp: delete_account_def split: option.splits if_splits)

lemma events_delete_projects:
  "\<exists>e \<in> set (car_events (delete_projects P d)). ce_user_id e = Some i \<Longrightarrow> \<exists>e \<in> set (car_events d). ce_user_id e = Some i"
  by (auto simp: delete_projects_def Let_def update_where_def split: if_splits)

lemma belongs_deleted: "\<not> belongs (u_id u) (delete_user_account_data u admin d)"
  by (auto simp: belongs_def delete_user_account_data_def delete_user_def delete_projects_def delete_runs_def
      delete_settings_def audit_def Let_def update_where_def split: if_splits)

text \<open>The projects and the runs of an account.\<close>

definition own_projects :: "int \<Rightarrow> db \<Rightarrow> int set" where
  "own_projects i d = {p_id p |p. p \<in> set (projects d) \<and> p_owner_id p = i}"

definition own_runs :: "int \<Rightarrow> db \<Rightarrow> int set" where
  "own_runs i d = {r_id r |r. r \<in> set (scan_runs d) \<and> r_owner_id r = i}"

definition own_timers :: "int \<Rightarrow> db \<Rightarrow> int set" where
  "own_timers i d = {s_id s |s. s \<in> set (scheduler_settings d) \<and> s_user_id s = i}"

text \<open>An event and a log entry without the account and its projects.\<close>

definition unnamed_event :: "int \<Rightarrow> int set \<Rightarrow> car_event \<Rightarrow> car_event" where
  "unnamed_event i ps e = e\<lparr>
     ce_user_id := (if ce_user_id e = Some i then None else ce_user_id e),
     ce_project_id := (if \<exists>p \<in> ps. ce_project_id e = Some p then None else ce_project_id e)\<rparr>"

definition unnamed_entry :: "int \<Rightarrow> audit_log \<Rightarrow> audit_log" where
  "unnamed_entry i a = a\<lparr>
     al_actor_user_id := (if al_actor_user_id a = Some i then None else al_actor_user_id a),
     al_target_user_id := (if al_target_user_id a = Some i then None else al_target_user_id a)\<rparr>"

text \<open>The database without account \<open>i\<close>; \<open>entry\<close> is the new entry of the log.\<close>

definition without_account :: "int \<Rightarrow> audit_log \<Rightarrow> db \<Rightarrow> db" where
  "without_account i entry d = d\<lparr>
     users := filter (\<lambda>u. u_id u \<noteq> i) (users d),
     auth_sessions := filter (\<lambda>s. as_user_id s \<noteq> i) (auth_sessions d),
     audit_logs := map (unnamed_entry i) (audit_logs d) @ [entry],
     projects := filter (\<lambda>p. p_owner_id p \<noteq> i) (projects d),
     project_cars := filter (\<lambda>l. pc_project_id l \<notin> own_projects i d) (project_cars d),
     user_car_states := filter (\<lambda>s. ucs_user_id s \<noteq> i) (user_car_states d),
     car_events := map (unnamed_event i (own_projects i d)) (car_events d),
     scan_runs := filter (\<lambda>r. r_owner_id r \<noteq> i) (scan_runs d),
     project_scan_runs := filter (\<lambda>x. psr_scan_run_id x \<notin> own_runs i d \<and> psr_project_id x \<notin> own_projects i d)
       (project_scan_runs d),
     scheduler_settings := filter (\<lambda>s. s_user_id s \<noteq> i) (scheduler_settings d),
     scheduled_projects := filter (\<lambda>x. sp_scheduler_id x \<notin> own_timers i d \<and> sp_project_id x \<notin> own_projects i d)
       (scheduled_projects d)\<rparr>"

lemma filter_revoked:
  "filter (\<lambda>s. as_user_id s \<noteq> i) (update_where (\<lambda>s. as_user_id s = i \<and> as_revoked_at s = None \<and> x \<noteq> Some (as_id s))
     (\<lambda>s. s\<lparr>as_revoked_at := Some t\<rparr>) ss) = filter (\<lambda>s. as_user_id s \<noteq> i) ss"
  by (induction ss) (auto simp: update_where_def)

lemma unnamed_events:
  "update_where (\<lambda>e. ce_user_id e = Some i) (\<lambda>e. e\<lparr>ce_user_id := None\<rparr>)
     (update_where (\<lambda>e. case ce_project_id e of Some j \<Rightarrow> \<exists>p \<in> set (projects d). p_owner_id p = i \<and> p_id p = j | None \<Rightarrow> False)
       (\<lambda>e. e\<lparr>ce_project_id := None\<rparr>) es) =
   map (unnamed_event i (own_projects i d)) es"
  by (induction es) (auto simp: update_where_def unnamed_event_def own_projects_def split: option.split)

lemma account_data_deleted:
  assumes "i = u_id u" and "u_id admin \<noteq> i"
  shows "delete_user_account_data u admin (revoke_user_sessions t i None d) =
    without_account i (deletion_audit admin u d) d"
proof -
  let ?d = "revoke_user_sessions t i None d"
  let ?own = "\<lambda>j. \<exists>p \<in> set (projects d). p_owner_id p = i \<and> p_id p = j"
  have own: "?own j \<longleftrightarrow> j \<in> own_projects i d"
    "(\<exists>r \<in> set (scan_runs d). r_owner_id r = i \<and> r_id r = j) \<longleftrightarrow> j \<in> own_runs i d"
    "(\<exists>s \<in> set (scheduler_settings d). s_user_id s = i \<and> s_id s = j) \<longleftrightarrow> j \<in> own_timers i d" for j
    by (auto simp: own_projects_def own_runs_def own_timers_def)
  have entry: "deletion_audit admin u ?d = deletion_audit admin u d"
    by (simp add: deletion_audit_def revoke_user_sessions_def)
  have named: "unnamed_entry i (deletion_audit admin u d) = deletion_audit admin u d"
    using assms(2) by (simp add: unnamed_entry_def deletion_audit_def audit_entry_def)
  have projects: "own_projects i (d\<lparr>auth_sessions := a, audit_logs := b, scheduler_settings := c, scheduled_projects := e,
      scan_runs := f, project_scan_runs := g\<rparr>) = own_projects i d" for a b c e f g
    by (simp add: own_projects_def)
  show ?thesis
    unfolding delete_user_account_data_def entry assms(1) [symmetric]
    unfolding delete_user_def delete_projects_def delete_runs_def delete_settings_def Let_def
    by (simp add: without_account_def audit_def revoke_user_sessions_def own filter_revoked [where x = None, simplified]
        unnamed_events projects flip: unnamed_entry_def)
      (simp add: named conj_commute)
qed


definition two_accounts :: db where
  "two_accounts = (signed_in ADMIN)\<lparr>users := users (signed_in ADMIN) @ [sample_user 8 USER ACTIVE],
     projects := [sample_project 4 8, sample_project 5 7]\<rparr>"


end
