(* ===== verification/Projects.thy ===== *)
theory Projects
  imports Accounts Observations VehicleGroups
begin

text \<open>
  Search projects: the request bodies of \<^verbatim>\<open>backend/app/schemas.py\<close> with their validators, and the requests
  under \<^verbatim>\<open>/api/projects\<close> of \<^verbatim>\<open>backend/app/main.py\<close> that list, create, change and delete projects. The case
  folding of project names (\<^verbatim>\<open>str.casefold\<close>) is the argument \<open>casefold\<close>.
\<close>

section \<open>Request bodies\<close>

definition validate_price_filter :: "string option \<Rightarrow> int option \<Rightarrow> int option \<Rightarrow> string option" where
  "validate_price_filter mode low high =
     (if mode \<noteq> Some ''LINK'' \<and> mode \<noteq> Some ''CUSTOM'' then Some ''unsupported_price_filter_mode''
      else if mode \<noteq> Some ''CUSTOM'' then
        (if low \<noteq> None \<or> high \<noteq> None then Some ''price_bounds_require_custom_mode'' else None)
      else if low = None \<and> high = None then Some ''custom_price_range_requires_a_bound''
      else if (case (low, high) of (Some a, Some b) \<Rightarrow> b < a | _ \<Rightarrow> False) then Some ''invalid_price_range''
      else if list_ex (\<lambda>v. case v of Some n \<Rightarrow> n mod 10000 \<noteq> 0 | None \<Rightarrow> False) [low, high]
      then Some ''price_must_use_10000_krw_steps''
      else None)"

definition MAX_PROJECT_PRICE_KRW :: int where
  "MAX_PROJECT_PRICE_KRW = 100000000"

definition price_in_range :: "int option \<Rightarrow> bool" where
  "price_in_range p = (case p of None \<Rightarrow> True | Some n \<Rightarrow> 0 \<le> n \<and> n \<le> MAX_PROJECT_PRICE_KRW)"

definition encar_url :: "string \<Rightarrow> bool" where
  "encar_url v =
     (case parse_url v of
        None \<Rightarrow> False
      | Some u \<Rightarrow> up_host u \<in> {''encar.com'', ''www.encar.com'', ''fem.encar.com'', ''m.encar.com''} \<or>
                  ends_with ''.encar.com'' (up_host u))"

text \<open>\<open>None\<close>: the value is refused.\<close>

definition telegram_channel_url :: "string option \<Rightarrow> string option option" where
  "telegram_channel_url v =
     (case v of
        None \<Rightarrow> Some None
      | Some s \<Rightarrow>
          if s = [] then Some None
          else (case parse_url (strip s) of
            None \<Rightarrow> None
          | Some u \<Rightarrow> if up_scheme u \<in> {''http'', ''https''} \<and> up_host u \<in> set TELEGRAM_HOSTS
                      then Some (Some (strip s)) else None))"

record project_in =
  pi_name :: string
  pi_search_url :: string
  pi_telegram_url :: "string option"
  pi_scan_mode :: string
  pi_search_page_mode :: string
  pi_price_filter_mode :: string
  pi_price_min_krw :: "int option"
  pi_price_max_krw :: "int option"
  pi_auto_update :: bool

definition valid_project_in :: "project_in \<Rightarrow> bool" where
  "valid_project_in b \<longleftrightarrow> 1 \<le> length (pi_name b) \<and> length (code_points (pi_name b)) \<le> 140 \<and>
     encar_url (pi_search_url b) \<and> telegram_channel_url (pi_telegram_url b) \<noteq> None \<and>
     pi_scan_mode b \<in> {''FAST'', ''ACCURATE''} \<and> pi_search_page_mode b \<in> {''FIRST_PAGE'', ''ALL_PAGES''} \<and>
     pi_price_filter_mode b \<in> {''LINK'', ''CUSTOM''} \<and> price_in_range (pi_price_min_krw b) \<and>
     price_in_range (pi_price_max_krw b) \<and>
     validate_price_filter (Some (pi_price_filter_mode b)) (pi_price_min_krw b) (pi_price_max_krw b) = None"

text \<open>Every field of a patch is absent, null or a value.\<close>

record project_patch =
  pp_name :: "string option option"
  pp_search_url :: "string option option"
  pp_telegram_url :: "string option option"
  pp_scan_mode :: "string option option"
  pp_search_page_mode :: "string option option"
  pp_price_filter_mode :: "string option option"
  pp_price_min_krw :: "int option option"
  pp_price_max_krw :: "int option option"
  pp_auto_update :: "bool option option"

definition valid_project_patch :: "project_patch \<Rightarrow> bool" where
  "valid_project_patch b \<longleftrightarrow>
     (case pp_search_url b of None \<Rightarrow> True | Some None \<Rightarrow> False | Some (Some v) \<Rightarrow> encar_url v) \<and>
     (case pp_telegram_url b of None \<Rightarrow> True | Some v \<Rightarrow> telegram_channel_url v \<noteq> None) \<and>
     (case pp_scan_mode b of Some (Some m) \<Rightarrow> m \<in> {''FAST'', ''ACCURATE''} | _ \<Rightarrow> True) \<and>
     (case pp_search_page_mode b of Some (Some m) \<Rightarrow> m \<in> {''FIRST_PAGE'', ''ALL_PAGES''} | _ \<Rightarrow> True) \<and>
     (case pp_price_filter_mode b of Some (Some m) \<Rightarrow> m \<in> {''LINK'', ''CUSTOM''} | _ \<Rightarrow> True) \<and>
     (case pp_price_min_krw b of Some p \<Rightarrow> price_in_range p | None \<Rightarrow> True) \<and>
     (case pp_price_max_krw b of Some p \<Rightarrow> price_in_range p | None \<Rightarrow> True)"

section \<open>Reading projects\<close>

definition owned_project_row :: "db \<Rightarrow> int \<Rightarrow> int \<Rightarrow> project option" where
  "owned_project_row d p owner = first_row (\<lambda>x. p_id x = p \<and> p_owner_id x = owner) (projects d)"

abbreviation project_not_found :: http_error where
  "project_not_found \<equiv> HTTPException 404 ''project_not_found''"

record project_view =
  pv_project :: project
  pv_cars :: nat
  pv_latest_scan :: "(int \<times> run_status \<times> string option \<times> time) option"

definition excluded_by :: "db \<Rightarrow> int \<Rightarrow> int \<Rightarrow> bool" where
  "excluded_by d usr c \<longleftrightarrow> (\<exists>s \<in> set (user_car_states d). ucs_user_id s = usr \<and> ucs_car_id s = c \<and> ucs_excluded s)"

definition visible_cars :: "db \<Rightarrow> project \<Rightarrow> car list" where
  "visible_cars d p =
     List.map_filter (\<lambda>l. if pc_project_id l = p_id p \<and> pc_tracking_enabled l \<and>
          \<not> excluded_by d (p_owner_id p) (pc_car_id l)
        then (case get_car d (pc_car_id l) of Some c \<Rightarrow> if c_excluded c then None else Some c | None \<Rightarrow> None)
        else None) (project_cars d)"

fun newest :: "('a \<Rightarrow> time) \<Rightarrow> 'a list \<Rightarrow> 'a option" where
  "newest f [] = None"
| "newest f (x # xs) = (case newest f xs of None \<Rightarrow> Some x | Some y \<Rightarrow> if f x < f y then Some y else Some x)"

definition project_scans :: "db \<Rightarrow> int \<Rightarrow> (project_scan_run \<times> scan_run) list" where
  "project_scans d p =
     List.map_filter (\<lambda>x. if psr_project_id x = p then map_option (Pair x) (get_run d (psr_scan_run_id x)) else None)
       (project_scan_runs d)"

definition car_listing :: "car \<Rightarrow> listing" where
  "car_listing c = \<lparr>ls_id = c_id c, ls_status = [], ls_details = details_of c\<rparr>"

definition project_out :: "(string \<Rightarrow> string) \<Rightarrow> db \<Rightarrow> project \<Rightarrow> project_view" where
  "project_out nfkc d p =
     \<lparr>pv_project = p,
      pv_cars = length (group_vehicle_listings nfkc (map car_listing (visible_cars d p))),
      pv_latest_scan = map_option (\<lambda>(x, r). (r_id r, psr_status x, psr_error_code x, r_created_at r))
        (newest (\<lambda>(x, r). r_created_at r) (project_scans d (p_id p)))\<rparr>"

definition list_projects :: "(string \<Rightarrow> string) \<Rightarrow> time \<Rightarrow> request \<Rightarrow> (db, project_view list) handler" where
  "list_projects nfkc t rq = with_user t rq (\<lambda>u s d.
     (Inr (map (project_out nfkc d) (rev (sort_key p_updated_at
        (rev (filter (\<lambda>p. p_owner_id p = u_id u) (projects d)))))), d))"

definition get_project :: "(string \<Rightarrow> string) \<Rightarrow> time \<Rightarrow> request \<Rightarrow> int \<Rightarrow> (db, project_view) handler" where
  "get_project nfkc t rq i = with_user t rq (\<lambda>u s d.
     case owned_project_row d i (u_id u) of
       None \<Rightarrow> (Inl project_not_found, d)
     | Some p \<Rightarrow> (Inr (project_out nfkc d p), d))"

section \<open>Creating, changing and deleting\<close>

text \<open>The unique constraints of the table: the name and the address of a project, per owner.\<close>

definition project_clash :: "project list \<Rightarrow> project \<Rightarrow> bool" where
  "project_clash ps p \<longleftrightarrow> (\<exists>q \<in> set ps. p_id q \<noteq> p_id p \<and> p_owner_id q = p_owner_id p \<and>
     (p_name_key q = p_name_key p \<or> p_search_url q = p_search_url p))"

abbreviation name_or_url_exists :: http_error where
  "name_or_url_exists \<equiv> HTTPException 409 ''project_name_or_url_exists''"

definition project_audit :: "string \<Rightarrow> int \<Rightarrow> int \<Rightarrow> dict option \<Rightarrow> audit_log" where
  "project_audit action actor p payload = (audit_entry action)\<lparr>al_actor_user_id := Some actor,
     al_entity_type := Some ''PROJECT'', al_entity_id := JStr (show_int p), al_payload := payload\<rparr>"

definition new_project :: "(string \<Rightarrow> string) \<Rightarrow> time \<Rightarrow> project_in \<Rightarrow> int \<Rightarrow> db \<Rightarrow> project" where
  "new_project casefold t b owner d =
     \<lparr>p_id = fresh_id (map p_id (projects d)), p_owner_id = owner, p_name = strip (pi_name b),
      p_name_key = casefold (strip (pi_name b)), p_search_url = pi_search_url b,
      p_telegram_url = (case telegram_channel_url (pi_telegram_url b) of Some v \<Rightarrow> v | None \<Rightarrow> None),
      p_scan_mode = pi_scan_mode b, p_search_page_mode = pi_search_page_mode b,
      p_price_filter_mode = pi_price_filter_mode b, p_price_min_krw = pi_price_min_krw b,
      p_price_max_krw = pi_price_max_krw b, p_price_filter_revision = 1,
      p_price_filter_baseline_revision = 0, p_auto_update = pi_auto_update b, p_updated_at = t\<rparr>"

definition limit_reached :: "db \<Rightarrow> user \<Rightarrow> bool" where
  "limit_reached d u \<longleftrightarrow>
     (case u_project_limit u of
        None \<Rightarrow> False
      | Some n \<Rightarrow> n \<le> int (length (filter (\<lambda>p. p_owner_id p = u_id u) (projects d))))"

definition insert_project :: "project \<Rightarrow> int \<Rightarrow> db \<Rightarrow> db" where
  "insert_project p actor d = audit (project_audit ''PROJECT_CREATED'' actor (p_id p) None)
     (d\<lparr>projects := projects d @ [p]\<rparr>)"

definition create_project ::
  "env \<Rightarrow> (string \<Rightarrow> string) \<Rightarrow> (string \<Rightarrow> string) \<Rightarrow> time \<Rightarrow> request \<Rightarrow> project_in \<Rightarrow> (db, project_view) handler" where
  "create_project ev casefold nfkc t rq b = require_csrf ev t rq (\<lambda>u s d.
     let p = new_project casefold t b (u_id u) d; d' = insert_project p (u_id u) d
     in if \<not> valid_project_in b then (Inl (HTTPException 422 ''validation_error''), d)
        else if limit_reached d u then (Inl (HTTPException 403 ''project_limit_reached''), d)
        else if project_clash (projects d) p then (Inl name_or_url_exists, d)
        else (Inr (project_out nfkc d' p), d'))"

definition patch_value :: "'a \<Rightarrow> 'a option option \<Rightarrow> 'a" where
  "patch_value old p = (case patched old p of Some v \<Rightarrow> v | None \<Rightarrow> old)"

definition next_price_filter :: "project_patch \<Rightarrow> project \<Rightarrow> string option \<times> int option \<times> int option" where
  "next_price_filter b p =
     (patched (p_price_filter_mode p) (pp_price_filter_mode b),
      (case pp_price_min_krw b of None \<Rightarrow> p_price_min_krw p | Some v \<Rightarrow> v),
      (case pp_price_max_krw b of None \<Rightarrow> p_price_max_krw p | Some v \<Rightarrow> v))"

definition price_filter_refused :: "project_patch \<Rightarrow> project \<Rightarrow> string option" where
  "price_filter_refused b p =
     (let f = next_price_filter b p in validate_price_filter (fst f) (fst (snd f)) (snd (snd f)))"

definition changes_search_conditions :: "project_patch \<Rightarrow> project \<Rightarrow> bool" where
  "changes_search_conditions b p \<longleftrightarrow>
     (pp_search_url b \<noteq> None \<or> pp_price_filter_mode b \<noteq> None \<or> pp_price_min_krw b \<noteq> None \<or> pp_price_max_krw b \<noteq> None) \<and>
     (fst (next_price_filter b p) \<noteq> Some (p_price_filter_mode p) \<or>
      fst (snd (next_price_filter b p)) \<noteq> p_price_min_krw p \<or>
      snd (snd (next_price_filter b p)) \<noteq> p_price_max_krw p \<or>
      patched (p_search_url p) (pp_search_url b) \<noteq> Some (p_search_url p))"

definition patch_name :: "(string \<Rightarrow> string) \<Rightarrow> project_patch \<Rightarrow> project \<Rightarrow> project" where
  "patch_name casefold b p =
     (case pp_name b of
        Some (Some n) \<Rightarrow> p\<lparr>p_name := strip n, p_name_key := (if n = [] then p_name_key p else casefold (strip n))\<rparr>
      | _ \<Rightarrow> p)"

definition patch_telegram :: "project_patch \<Rightarrow> project \<Rightarrow> project" where
  "patch_telegram b p =
     (case pp_telegram_url b of
        None \<Rightarrow> p
      | Some v \<Rightarrow> p\<lparr>p_telegram_url := (case telegram_channel_url v of Some x \<Rightarrow> x | None \<Rightarrow> None)\<rparr>)"

definition patch_fields :: "(string \<Rightarrow> string) \<Rightarrow> time \<Rightarrow> project_patch \<Rightarrow> project \<Rightarrow> project" where
  "patch_fields casefold t b p =
     (let f = next_price_filter b p; q = patch_telegram b (patch_name casefold b p)
      in q\<lparr>p_search_url := patch_value (p_search_url p) (pp_search_url b),
           p_scan_mode := patch_value (p_scan_mode p) (pp_scan_mode b),
           p_search_page_mode := patch_value (p_search_page_mode p) (pp_search_page_mode b),
           p_price_filter_mode := (case fst f of Some m \<Rightarrow> m | None \<Rightarrow> p_price_filter_mode p),
           p_price_min_krw := fst (snd f), p_price_max_krw := snd (snd f),
           p_auto_update := patch_value (p_auto_update p) (pp_auto_update b),
           p_price_filter_revision := (if changes_search_conditions b p
             then p_price_filter_revision p + 1 else p_price_filter_revision p),
           p_updated_at := t\<rparr>)"

text \<open>A null in a column that must not be null breaks the commit like a duplicate does.\<close>

definition null_project_columns :: "project_patch \<Rightarrow> bool" where
  "null_project_columns b \<longleftrightarrow> pp_name b = Some None \<or> pp_scan_mode b = Some None \<or>
     pp_search_page_mode b = Some None \<or> pp_auto_update b = Some None"

definition changed_fields :: "project_patch \<Rightarrow> string list" where
  "changed_fields b = sorted_strings (concat [
     (if pp_name b = None then [] else [''name'']), (if pp_search_url b = None then [] else [''search_url'']),
     (if pp_telegram_url b = None then [] else [''telegram_url'']),
     (if pp_scan_mode b = None then [] else [''scan_mode'']),
     (if pp_search_page_mode b = None then [] else [''search_page_mode'']),
     (if pp_price_filter_mode b = None then [] else [''price_filter_mode'']),
     (if pp_price_min_krw b = None then [] else [''price_min_krw'']),
     (if pp_price_max_krw b = None then [] else [''price_max_krw'']),
     (if pp_auto_update b = None then [] else [''auto_update''])])"

definition replace_project :: "project \<Rightarrow> db \<Rightarrow> db" where
  "replace_project q d = d\<lparr>projects := update_where (\<lambda>x. p_id x = p_id q) (\<lambda>_. q) (projects d)\<rparr>"

definition change_project ::
  "(string \<Rightarrow> string) \<Rightarrow> (string \<Rightarrow> string) \<Rightarrow> time \<Rightarrow> int \<Rightarrow> project_patch \<Rightarrow> user \<Rightarrow> auth_session \<Rightarrow>
   (db, project_view) handler" where
  "change_project casefold nfkc t i b u s d =
    (if \<not> valid_project_patch b then (Inl (HTTPException 422 ''validation_error''), d)
     else case owned_project_row d i (u_id u) of
       None \<Rightarrow> (Inl project_not_found, d)
     | Some p \<Rightarrow>
         (case price_filter_refused b p of
            Some msg \<Rightarrow> (Inl (HTTPException 422 msg), d)
          | None \<Rightarrow>
              let q = patch_fields casefold t b p;
                  d' = audit (project_audit ''PROJECT_UPDATED'' (u_id u) (p_id p)
                         (Some [(''fields'', JList (map JStr (changed_fields b)))])) (replace_project q d)
              in if null_project_columns b \<or> project_clash (projects d) q then (Inl name_or_url_exists, d)
                 else (Inr (project_out nfkc d' q), d')))"

definition patch_project ::
  "env \<Rightarrow> (string \<Rightarrow> string) \<Rightarrow> (string \<Rightarrow> string) \<Rightarrow> time \<Rightarrow> request \<Rightarrow> int \<Rightarrow> project_patch \<Rightarrow>
   (db, project_view) handler" where
  "patch_project ev casefold nfkc t rq i b = require_csrf ev t rq (change_project casefold nfkc t i b)"

definition remove_project :: "time \<Rightarrow> int \<Rightarrow> user \<Rightarrow> auth_session \<Rightarrow> (db, unit) handler" where
  "remove_project t i u s d =
    (case owned_project_row d i (u_id u) of
       None \<Rightarrow> (Inl project_not_found, d)
     | Some p \<Rightarrow>
         let detached = detach_project_from_active_jobs (u_id u) (p_id p) t d
         in (Inr (), delete_projects (\<lambda>x. p_id x = p_id p)
               (audit (project_audit ''PROJECT_DELETED'' (u_id u) (p_id p)
                  (Some [(''name'', JStr (p_name p)), (''affected_scans'', JList (map JInt (fst detached)))]))
                 (snd detached))))"

definition delete_project :: "env \<Rightarrow> time \<Rightarrow> request \<Rightarrow> int \<Rightarrow> (db, unit) handler" where
  "delete_project ev t rq i = require_csrf ev t rq (remove_project t i)"

section \<open>What every stored project satisfies\<close>

definition project_ok :: "project \<Rightarrow> bool" where
  "project_ok p \<longleftrightarrow> encar_url (p_search_url p) \<and> p_scan_mode p \<in> {''FAST'', ''ACCURATE''} \<and>
     p_search_page_mode p \<in> {''FIRST_PAGE'', ''ALL_PAGES''} \<and> price_in_range (p_price_min_krw p) \<and>
     price_in_range (p_price_max_krw p) \<and>
     validate_price_filter (Some (p_price_filter_mode p)) (p_price_min_krw p) (p_price_max_krw p) = None"

definition projects_ok :: "project list \<Rightarrow> bool" where
  "projects_ok ps \<longleftrightarrow> distinct (map p_id ps) \<and> (\<forall>p \<in> set ps. project_ok p \<and> \<not> project_clash ps p)"

lemma projects_ok_add:
  assumes "projects_ok ps" "project_ok p" "p_id p \<notin> p_id ` set ps" "\<not> project_clash ps p"
  shows "projects_ok (ps @ [p])"
  using assms by (auto simp: projects_ok_def project_clash_def)

lemma projects_ok_filter: "projects_ok ps \<Longrightarrow> projects_ok (filter P ps)"
  by (auto simp: projects_ok_def project_clash_def distinct_map_filter)

lemma projects_ok_replace:
  assumes "projects_ok ps" "project_ok q" "\<not> project_clash ps q" "p \<in> set ps" "p_owner_id p = p_owner_id q"
  shows "projects_ok (update_where (\<lambda>x. p_id x = p_id q) (\<lambda>_. q) ps)"
proof -
  have "map p_id (update_where (\<lambda>x. p_id x = p_id q) (\<lambda>_. q) ps) = map p_id ps"
    by (auto simp: update_where_def)
  then show ?thesis
    using assms(1-3) by (auto simp: projects_ok_def project_clash_def set_update_where split: if_splits)
qed

lemma new_project_ok: "valid_project_in b \<Longrightarrow> project_ok (new_project cf t b owner d)"
  by (auto simp: valid_project_in_def project_ok_def new_project_def)

lemma patch_telegram_columns [simp]:
  "p_id (patch_telegram b p) = p_id p" "p_owner_id (patch_telegram b p) = p_owner_id p"
  "p_name_key (patch_telegram b p) = p_name_key p"
  "p_price_filter_baseline_revision (patch_telegram b p) = p_price_filter_baseline_revision p"
  by (auto simp: patch_telegram_def split: option.split)

lemma patch_name_columns [simp]:
  "p_id (patch_name cf b p) = p_id p" "p_owner_id (patch_name cf b p) = p_owner_id p"
  "p_price_filter_baseline_revision (patch_name cf b p) = p_price_filter_baseline_revision p"
  by (auto simp: patch_name_def split: option.split)

lemma patch_fields_columns [simp]:
  "p_id (patch_fields cf t b p) = p_id p" "p_owner_id (patch_fields cf t b p) = p_owner_id p"
  "p_price_filter_baseline_revision (patch_fields cf t b p) = p_price_filter_baseline_revision p"
  by (simp_all add: patch_fields_def Let_def)

lemma refused_without_mode: "validate_price_filter None a b \<noteq> None"
  by (simp add: validate_price_filter_def)

lemma patch_value_keeps:
  "P old \<Longrightarrow> (case q of Some (Some m) \<Rightarrow> P m | _ \<Rightarrow> True) \<Longrightarrow> P (patch_value old q)"
  by (simp add: patch_value_def patched_def split: option.splits)

lemma patched_price:
  "price_in_range old \<Longrightarrow> (case q of Some v \<Rightarrow> price_in_range v | None \<Rightarrow> True) \<Longrightarrow>
     price_in_range (case q of None \<Rightarrow> old | Some v \<Rightarrow> v)"
  by (cases q) simp_all

lemma patch_fields_conditions:
  "p_search_url (patch_fields cf t b p) = patch_value (p_search_url p) (pp_search_url b)"
  "p_scan_mode (patch_fields cf t b p) = patch_value (p_scan_mode p) (pp_scan_mode b)"
  "p_search_page_mode (patch_fields cf t b p) = patch_value (p_search_page_mode p) (pp_search_page_mode b)"
  "p_price_filter_mode (patch_fields cf t b p) =
     (case fst (next_price_filter b p) of Some m \<Rightarrow> m | None \<Rightarrow> p_price_filter_mode p)"
  "p_price_min_krw (patch_fields cf t b p) = fst (snd (next_price_filter b p))"
  "p_price_max_krw (patch_fields cf t b p) = snd (snd (next_price_filter b p))"
  by (simp_all add: patch_fields_def Let_def)

lemma patch_fields_ok:
  assumes "project_ok p" "valid_project_patch b" "price_filter_refused b p = None"
  shows "project_ok (patch_fields cf t b p)"
proof -
  note ok = assms(1) [unfolded project_ok_def] and valid = assms(2) [unfolded valid_project_patch_def]
  obtain m where m: "fst (next_price_filter b p) = Some m"
    using assms(3) refused_without_mode
    by (cases "fst (next_price_filter b p)") (simp_all add: price_filter_refused_def Let_def)
  have "encar_url (patch_value (p_search_url p) (pp_search_url b))"
    by (rule patch_value_keeps) (use ok valid in \<open>simp_all split: option.splits\<close>)
  moreover have "patch_value (p_scan_mode p) (pp_scan_mode b) \<in> {''FAST'', ''ACCURATE''}"
    by (rule patch_value_keeps [where P = "\<lambda>m. m \<in> {''FAST'', ''ACCURATE''}"]) (use ok valid in blast)+
  moreover have "patch_value (p_search_page_mode p) (pp_search_page_mode b) \<in> {''FIRST_PAGE'', ''ALL_PAGES''}"
    by (rule patch_value_keeps [where P = "\<lambda>m. m \<in> {''FIRST_PAGE'', ''ALL_PAGES''}"]) (use ok valid in blast)+
  moreover have "price_in_range (fst (snd (next_price_filter b p)))" "price_in_range (snd (snd (next_price_filter b p)))"
    unfolding next_price_filter_def fst_conv snd_conv by (rule patched_price; use ok valid in blast)+
  moreover have "validate_price_filter (Some m) (fst (snd (next_price_filter b p))) (snd (snd (next_price_filter b p))) = None"
    using assms(3) m by (simp add: price_filter_refused_def Let_def)
  ultimately show ?thesis
    unfolding project_ok_def patch_fields_conditions m option.case by blast
qed

lemma project_tables [simp]:
  "projects (audit a d) = projects d" "projects (touch_session t u s d) = projects d"
  "projects (insert_project p i d) = projects d @ [p]"
  "projects (replace_project q d) = update_where (\<lambda>x. p_id x = p_id q) (\<lambda>_. q) (projects d)"
  "projects (snd (detach_project_from_active_jobs o' i t d)) = projects d"
  "projects (delete_projects P d) = filter (\<lambda>p. \<not> P p) (projects d)"
  by (auto simp: audit_def touch_session_def set_user_def set_session_def insert_project_def replace_project_def
      detach_project_from_active_jobs_def delete_projects_def Let_def)

interpretation stored: request_invariant "\<lambda>d. projects_ok (projects d)"
  by unfold_locales simp

lemma owned_project_row_Some:
  "owned_project_row d i owner = Some p \<Longrightarrow> p \<in> set (projects d) \<and> p_id p = i \<and> p_owner_id p = owner"
  by (auto simp: owned_project_row_def dest: first_row_Some)

lemma new_project_id [simp]: "p_id (new_project cf t b owner d) = fresh_id (map p_id (projects d))"
  by (simp add: new_project_def)

text \<open>The requests on projects, by whomever and with whatever bodies.\<close>

inductive project_step :: "env \<Rightarrow> (string \<Rightarrow> string) \<Rightarrow> (string \<Rightarrow> string) \<Rightarrow> db \<Rightarrow> db \<Rightarrow> bool" for ev cf nfkc where
  creation: "project_step ev cf nfkc d (snd (create_project ev cf nfkc t rq b d))"
| change: "project_step ev cf nfkc d (snd (patch_project ev cf nfkc t rq i pb d))"
| deletion: "project_step ev cf nfkc d (snd (delete_project ev t rq i d))"
| reading: "project_step ev cf nfkc d (snd (list_projects nfkc t rq d))"
| lookup: "project_step ev cf nfkc d (snd (get_project nfkc t rq i d))"

inductive_cases project_step_from: "project_step ev cf nfkc d d'"

lemma fresh_project_id': "fresh_id (map p_id ps) = p_id x \<Longrightarrow> x \<notin> set ps"
  using fresh_id_notin [of "map p_id ps"] by auto

lemma create_project_keeps:
  "projects_ok (projects d) \<Longrightarrow> projects_ok (projects (snd (create_project ev cf nfkc t rq b d)))"
  unfolding create_project_def
  by (rule stored.require_csrf_keeps)
    (auto simp: Let_def intro!: projects_ok_add new_project_ok dest: fresh_project_id')

lemma patch_project_keeps:
  "projects_ok (projects d) \<Longrightarrow> projects_ok (projects (snd (patch_project ev cf nfkc t rq i b d)))"
  unfolding patch_project_def
proof (rule stored.require_csrf_keeps, assumption, goal_cases)
  case (1 u s d)
  note ok = 1(2)
  have "projects_ok (update_where (\<lambda>x. p_id x = p_id p) (\<lambda>_. patch_fields cf t b p) (projects d))"
    if "owned_project_row d i (u_id u) = Some p" "valid_project_patch b" "price_filter_refused b p = None"
      "\<not> project_clash (projects d) (patch_fields cf t b p)" for p
  proof -
    have p: "p \<in> set (projects d)" using owned_project_row_Some [OF that(1)] by blast
    then have "project_ok (patch_fields cf t b p)"
      using ok that(2,3) by (intro patch_fields_ok) (auto simp: projects_ok_def)
    then show ?thesis
      using projects_ok_replace [OF ok _ that(4) p] owned_project_row_Some [OF that(1)] by simp
  qed
  with ok show ?case by (auto simp: change_project_def Let_def split: option.split)
qed

lemma project_step_ok: "project_step ev cf nfkc d d' \<Longrightarrow> projects_ok (projects d) \<Longrightarrow> projects_ok (projects d')"
  by (erule project_step_from)
    (auto simp: create_project_keeps patch_project_keeps delete_project_def remove_project_def list_projects_def get_project_def
      Let_def intro!: stored.require_csrf_keeps stored.with_user_keeps projects_ok_filter split: option.split)

text \<open>C36: whatever sequence of requests creates, changes and deletes projects, every stored project keeps an
  Encar address, known modes and a valid price filter (bounds only in custom mode, ordered, in steps of
  10000 won, within the allowed range), and no two projects of one owner share a name key or an address.
  The names themselves may be equal: a change to the empty name stores it and keeps the old key.\<close>

theorem stored_projects_stay_valid:
  assumes "(project_step ev cf nfkc)\<^sup>*\<^sup>* d d'" and "projects_ok (projects d)"
  shows "\<forall>p \<in> set (projects d'). project_ok p \<and>
    (\<forall>q \<in> set (projects d'). p_owner_id q = p_owner_id p \<and> p_id q \<noteq> p_id p \<longrightarrow>
       p_name_key q \<noteq> p_name_key p \<and> p_search_url q \<noteq> p_search_url p)"
proof -
  from assms have "projects_ok (projects d')" by (induction rule: rtranclp_induct) (auto intro: project_step_ok)
  then show ?thesis by (auto simp: projects_ok_def project_clash_def)
qed

section \<open>Changed conditions and the price baseline\<close>

lemma context_projects: "get_auth_context t rq d = (Inr (j, s), d1) \<Longrightarrow> projects d1 = projects d"
  by (auto simp: get_auth_context_def touch_session_def set_user_def set_session_def split: option.splits if_splits)

text \<open>The baseline never runs ahead of the conditions.\<close>

definition baseline_ok :: "project \<Rightarrow> bool" where
  "baseline_ok p \<longleftrightarrow> 0 \<le> p_price_filter_baseline_revision p \<and> 1 \<le> p_price_filter_revision p \<and>
     p_price_filter_baseline_revision p \<le> p_price_filter_revision p"

lemma price_filter_mode_given:
  "price_filter_refused b p = None \<Longrightarrow> patched (p_price_filter_mode p) (pp_price_filter_mode b) \<noteq> None"
  by (cases "patched (p_price_filter_mode p) (pp_price_filter_mode b)")
    (auto simp: price_filter_refused_def next_price_filter_def Let_def refused_without_mode)

lemma search_url_given: "valid_project_patch b \<Longrightarrow> pp_search_url b \<noteq> Some None"
  by (auto simp: valid_project_patch_def)

lemma patch_project_ok:
  assumes "patch_project ev cf nfkc t rq i b d = (Inr v, d')"
  shows "\<exists>p. p \<in> set (projects d) \<and> p_id p = i \<and>
    \<not> project_clash (projects d) (patch_fields cf t b p) \<and> \<not> null_project_columns b \<and>
    price_filter_refused b p = None \<and> valid_project_patch b \<and>
    projects d' = update_where (\<lambda>x. p_id x = i) (\<lambda>_. patch_fields cf t b p) (projects d)"
proof -
  obtain u s d1 where ctx: "get_auth_context t rq d = (Inr (u_id u, s), d1)"
    and k: "change_project cf nfkc t i b u s d1 = (Inr v, d')"
    using require_csrf_ok [OF assms [unfolded patch_project_def]] by blast
  have same: "projects d1 = projects d" using context_projects [OF ctx] by simp
  show ?thesis
    using k owned_project_row_Some [of d1 i "u_id u"]
    by (auto simp: change_project_def same Let_def split: if_splits option.splits)
qed

text \<open>C37: a change of a project's address or price filter makes the project need a new price baseline, so that its
  next scan compares no prices across different conditions; any other change leaves that need as it was.\<close>

theorem changed_conditions_need_baseline:
  assumes "patch_project ev cf nfkc t rq i b d = (Inr v, d')" and "projects_ok (projects d)"
    and "p \<in> set (projects d)" "p_id p = i" "baseline_ok p"
  shows "\<exists>q \<in> set (projects d'). p_id q = i \<and> baseline_ok q \<and>
    (if p_search_url q \<noteq> p_search_url p \<or> p_price_filter_mode q \<noteq> p_price_filter_mode p \<or>
        p_price_min_krw q \<noteq> p_price_min_krw p \<or> p_price_max_krw q \<noteq> p_price_max_krw p
     then price_filter_needs_baseline q
     else price_filter_needs_baseline q = price_filter_needs_baseline p)"
proof -
  obtain p' where p': "p' \<in> set (projects d)" "p_id p' = i" "price_filter_refused b p' = None"
    and valid: "valid_project_patch b"
    and rows: "projects d' = update_where (\<lambda>x. p_id x = i) (\<lambda>_. patch_fields cf t b p') (projects d)"
    using patch_project_ok [OF assms(1)] by blast
  have p: "p' = p"
    using assms(2-4) p'(1,2) by (auto simp: projects_ok_def distinct_map dest!: inj_onD)
  let ?q = "patch_fields cf t b p"
  have q: "?q \<in> set (projects d')"
    using assms(3,4) by (auto simp: rows p set_update_where)
  have changed: "changes_search_conditions b p \<longleftrightarrow> p_search_url ?q \<noteq> p_search_url p \<or>
      p_price_filter_mode ?q \<noteq> p_price_filter_mode p \<or> p_price_min_krw ?q \<noteq> p_price_min_krw p \<or>
      p_price_max_krw ?q \<noteq> p_price_max_krw p"
    using price_filter_mode_given [OF p'(3)] search_url_given [OF valid] unfolding p
    by (auto simp: changes_search_conditions_def patch_fields_def next_price_filter_def Let_def patch_value_def
        patched_def split: option.splits)
  have "p_price_filter_revision ?q =
      (if changes_search_conditions b p then p_price_filter_revision p + 1 else p_price_filter_revision p)"
    by (simp add: patch_fields_def Let_def)
  then have "baseline_ok ?q \<and>
      (if changes_search_conditions b p then price_filter_needs_baseline ?q
       else price_filter_needs_baseline ?q = price_filter_needs_baseline p)"
    using assms(5) by (auto simp: baseline_ok_def price_filter_needs_baseline_def)
  then show ?thesis
    unfolding changed using q assms(4) by (intro bexI [OF _ q]) simp
qed

definition changed_price :: project_patch where
  "changed_price = \<lparr>pp_name = None, pp_search_url = None, pp_telegram_url = None, pp_scan_mode = None,
     pp_search_page_mode = None, pp_price_filter_mode = Some (Some ''CUSTOM''),
     pp_price_min_krw = Some (Some 10000000), pp_price_max_krw = None, pp_auto_update = None\<rparr>"

definition encar_project :: project where
  "encar_project = (sample_project 4 7)\<lparr>p_search_url := ''https://www.encar.com/x'',
     p_price_filter_baseline_revision := 1\<rparr>"

definition project_db :: db where
  "project_db = (signed_in USER)\<lparr>projects := [encar_project]\<rparr>"

lemma encar_project_ok: "projects_ok (projects project_db)"
proof -
  have "encar_url ''https://www.encar.com/x''" by code_simp
  then show ?thesis
    by (simp add: projects_ok_def project_ok_def project_clash_def project_db_def encar_project_def
        sample_project_def price_in_range_def validate_price_filter_def)
qed

lemma project_db_context:
  "get_auth_context 20 (sample_request ''mine'') project_db =
     (Inr (7, sample_session 1 7 (secure_hash ''mine'')), project_db)"
  by (simp add: get_auth_context_def sample_request_def project_db_def signed_in_def session_of_token_def
      sample_session_def live_session_def get_user_def sample_user_def touch_session_def minutes_def first_row_def)

lemma project_db_user: "get_user project_db 7 = Some ((sample_user 7 USER ACTIVE)\<lparr>u_password_hash := ''old''\<rparr>)"
  by (simp add: get_user_def project_db_def signed_in_def sample_user_def first_row_def)

lemma changed_price_accepted:
  "\<exists>v d'. patch_project sample_env id id 20 (sample_request ''mine'') 4 changed_price project_db = (Inr v, d')"
  by (simp add: patch_project_def require_csrf_def with_user_def project_db_context project_db_user)
    (simp add: origin_refused_def csrf_refused_def sample_request_def sample_session_def change_project_def
      valid_project_patch_def changed_price_def owned_project_row_def project_db_def encar_project_def
      sample_project_def sample_user_def price_filter_refused_def next_price_filter_def patched_def
      validate_price_filter_def project_clash_def null_project_columns_def price_in_range_def
      MAX_PROJECT_PRICE_KRW_def Let_def)

lemma changed_conditions_need_baseline_witness:
  "\<exists>v d'. patch_project sample_env id id 20 (sample_request ''mine'') 4 changed_price project_db = (Inr v, d') \<and>
     (\<exists>q \<in> set (projects d'). p_id q = 4)"
proof -
  obtain v d' where ok: "patch_project sample_env id id 20 (sample_request ''mine'') 4 changed_price project_db = (Inr v, d')"
    using changed_price_accepted by blast
  have "encar_project \<in> set (projects project_db)" "p_id encar_project = 4" "baseline_ok encar_project"
    by (simp_all add: project_db_def encar_project_def sample_project_def baseline_ok_def)
  from changed_conditions_need_baseline [OF ok encar_project_ok this] ok show ?thesis by blast
qed

lemma stored_projects_stay_valid_witness:
  "list_all project_ok
     (projects (snd (patch_project sample_env id id 20 (sample_request ''mine'') 4 changed_price project_db)))"
  using stored_projects_stay_valid
    [OF r_into_rtranclp [where r = "project_step sample_env id id", OF project_step.change] encar_project_ok]
  by (auto simp: list_all_iff)

section \<open>Deleting a project\<close>

definition mentions_project :: "int \<Rightarrow> db \<Rightarrow> bool" where
  "mentions_project i d \<longleftrightarrow> (\<exists>p \<in> set (projects d). p_id p = i) \<or>
     (\<exists>l \<in> set (project_cars d). pc_project_id l = i) \<or> (\<exists>x \<in> set (project_scan_runs d). psr_project_id x = i) \<or>
     (\<exists>x \<in> set (scheduled_projects d). sp_project_id x = i) \<or> (\<exists>e \<in> set (car_events d). ce_project_id e = Some i)"

text \<open>The database without project \<open>i\<close>; \<open>runs\<close> are the scans and \<open>entry\<close> the new entry of the log.\<close>

definition without_project :: "int \<Rightarrow> audit_log \<Rightarrow> scan_run list \<Rightarrow> db \<Rightarrow> db" where
  "without_project i entry runs d = d\<lparr>
     audit_logs := audit_logs d @ [entry],
     projects := filter (\<lambda>p. p_id p \<noteq> i) (projects d),
     project_cars := filter (\<lambda>l. pc_project_id l \<noteq> i) (project_cars d),
     car_events := map (\<lambda>e. if ce_project_id e = Some i then e\<lparr>ce_project_id := None\<rparr> else e) (car_events d),
     scan_runs := runs,
     project_scan_runs := filter (\<lambda>x. psr_project_id x \<noteq> i) (project_scan_runs d),
     scheduled_projects := filter (\<lambda>x. sp_project_id x \<noteq> i) (scheduled_projects d)\<rparr>"

lemma delete_one_project:
  assumes "p \<in> set (projects d)" and "p_id p = i"
  shows "delete_projects (\<lambda>x. p_id x = i) (audit entry (d\<lparr>scan_runs := runs\<rparr>)) = without_project i entry runs d"
proof -
  have gone: "(\<exists>x \<in> set (projects d). p_id x = i \<and> p_id x = j) \<longleftrightarrow> j = i" for j using assms by auto
  have "update_where (\<lambda>e. case ce_project_id e of Some j \<Rightarrow> j = i | None \<Rightarrow> False) (\<lambda>e. e\<lparr>ce_project_id := None\<rparr>) es =
      map (\<lambda>e. if ce_project_id e = Some i then e\<lparr>ce_project_id := None\<rparr> else e) es" for es :: "car_event list"
    unfolding update_where_def by (rule map_cong [OF refl]) (auto split: option.split)
  then show ?thesis
    by (simp add: delete_projects_def Let_def audit_def without_project_def gone)
qed

lemma delete_project_result:
  assumes "delete_project ev t rq i d = (Inr r, d')"
  shows "\<exists>u s p d1. get_auth_context t rq d = (Inr (u, s), d1) \<and> p \<in> set (projects d1) \<and> p_id p = i \<and>
    p_owner_id p = u \<and>
    d' = delete_projects (\<lambda>x. p_id x = i) (audit (project_audit ''PROJECT_DELETED'' u i
        (Some [(''name'', JStr (p_name p)),
          (''affected_scans'', JList (map JInt (fst (detach_project_from_active_jobs u i t d1))))]))
      (snd (detach_project_from_active_jobs u i t d1)))"
proof -
  obtain u s d1 where ctx: "get_auth_context t rq d = (Inr (u_id u, s), d1)"
    and k: "remove_project t i u s d1 = (Inr r, d')"
    using require_csrf_ok [OF assms [unfolded delete_project_def]] by blast
  from k obtain p where p: "owned_project_row d1 i (u_id u) = Some p"
    by (cases "owned_project_row d1 i (u_id u)") (auto simp: remove_project_def)
  show ?thesis
    using k p owned_project_row_Some [OF p] ctx
    by (intro exI [of _ "u_id u"] exI [of _ s] exI [of _ p] exI [of _ d1]) (auto simp: remove_project_def Let_def)
qed

lemma without_project_mentions: "\<not> mentions_project i (without_project i entry runs d)"
  by (auto simp: mentions_project_def without_project_def split: if_splits)

text \<open>C38: only the owner can delete a project. It goes with its links to cars, its scan results and its timer
  entries; events stay and no longer name it, and the log has an entry. The queued and active project
  scans of the owner that list it lose it: each goes on with its other projects, or is cancelled when
  none is left or the project is the one being scanned. Everything else is exactly as it was: the other projects with their links, results and
  timers, and the finished scans with their reports, in which the project may still be named.\<close>

theorem deleted_project_is_gone:
  assumes "delete_project ev t rq i d = (Inr r, d')"
  shows "\<exists>u s d1 entry. get_auth_context t rq d = (Inr (u, s), d1) \<and>
    (\<exists>p \<in> set (projects d1). p_id p = i \<and> p_owner_id p = u) \<and> al_action entry = ''PROJECT_DELETED'' \<and>
    d' = without_project i entry (scan_runs d') d1 \<and> \<not> mentions_project i d' \<and>
    changes_rows (\<lambda>r. detachable u r \<and> JInt i \<in> set (project_ids_of (payload_of r))) (detached i t)
      (scan_runs d1) (scan_runs d') \<and>
    list_all (\<lambda>r. detachable u r \<longrightarrow> JInt i \<notin> set (project_ids_of (payload_of r))) (scan_runs d')"
proof -
  obtain u s p d1 entry where ctx: "get_auth_context t rq d = (Inr (u, s), d1)"
    and p: "p \<in> set (projects d1)" "p_id p = i" "p_owner_id p = u"
    and entry: "al_action entry = ''PROJECT_DELETED''"
    and d': "d' = delete_projects (\<lambda>x. p_id x = i) (audit entry (snd (detach_project_from_active_jobs u i t d1)))"
    using delete_project_result [OF assms] by (force simp: project_audit_def audit_entry_def)
  let ?runs = "scan_runs (snd (detach_project_from_active_jobs u i t d1))"
  have "snd (detach_project_from_active_jobs u i t d1) = d1\<lparr>scan_runs := ?runs\<rparr>"
    by (simp add: detach_project_from_active_jobs_def)
  then have eq: "d' = without_project i entry ?runs d1"
    using delete_one_project [OF p(1,2), of entry ?runs] d' by simp
  then have runs: "scan_runs d' = ?runs" by (simp add: without_project_def)
  have "list_all (\<lambda>r. detachable u r \<longrightarrow> JInt i \<notin> set (project_ids_of (payload_of r))) ?runs"
    by (simp add: detach.rows list_all_iff ball_update_where detach_job_gone)
  with ctx p entry eq show ?thesis
    using without_project_mentions [of i entry ?runs d1] detach_rows_changed [of u i t d1] unfolding runs by blast
qed

lemma deleted_project_is_gone_witness:
  "\<exists>d'. delete_project sample_env 20 (sample_request ''mine'') 4 project_db = (Inr (), d') \<and> \<not> mentions_project 4 d'"
proof -
  have "get_auth_context 20 (sample_request ''mine'') project_db =
      (Inr (7, sample_session 1 7 (secure_hash ''mine'')), project_db)"
    "get_user project_db 7 = Some ((sample_user 7 USER ACTIVE)\<lparr>u_password_hash := ''old''\<rparr>)"
    by (simp_all add: project_db_context project_db_user)
  then have "fst (delete_project sample_env 20 (sample_request ''mine'') 4 project_db) = Inr ()"
    by (simp add: delete_project_def require_csrf_def with_user_def)
      (simp add: origin_refused_def csrf_refused_def sample_request_def sample_session_def remove_project_def
        owned_project_row_def project_db_def encar_project_def sample_project_def sample_user_def Let_def)
  then obtain d' where d': "delete_project sample_env 20 (sample_request ''mine'') 4 project_db = (Inr (), d')"
    by (metis prod.collapse)
  have "\<not> mentions_project 4 d'" using deleted_project_is_gone [OF d'] by blast
  with d' show ?thesis by blast
qed

end
