(* ===== verification/CarsApi.thy ===== *)
theory CarsApi
  imports Projects
begin

text \<open>
  The requests of \<^verbatim>\<open>backend/app/main.py\<close> on cars: which of the user's links gives access to a car, the lists of a
  project and of the favourites, the look-up, the card of one car, and the changes a user makes (removing a
  car from a project, favourite and viewed marks, comment, rating, exclusion). The page parsers of
  \<^verbatim>\<open>backend/app/parser.py\<close> that read a stored page text again are the argument of type \<open>page_parser\<close>.
\<close>

section \<open>Access\<close>

definition link_project :: "db \<Rightarrow> project_car \<Rightarrow> project option" where
  "link_project d l = first_row (\<lambda>p. p_id p = pc_project_id l) (projects d)"

definition owned_link :: "db \<Rightarrow> int \<Rightarrow> project_car \<Rightarrow> bool" where
  "owned_link d usr l \<longleftrightarrow> (case link_project d l of Some p \<Rightarrow> p_owner_id p = usr | None \<Rightarrow> False)"

definition link_updated_at :: "db \<Rightarrow> project_car \<Rightarrow> time" where
  "link_updated_at d l = (case link_project d l of Some p \<Rightarrow> p_updated_at p | None \<Rightarrow> 0)"

definition accessible_links :: "db \<Rightarrow> int \<Rightarrow> int \<Rightarrow> int option \<Rightarrow> bool \<Rightarrow> project_car list" where
  "accessible_links d usr c project tracking =
     filter (\<lambda>l. pc_car_id l = c \<and> owned_link d usr l \<and>
       (case project of Some p \<Rightarrow> pc_project_id l = p | None \<Rightarrow> True) \<and> (tracking \<longrightarrow> pc_tracking_enabled l))
       (project_cars d)"

definition accessible_car_relation :: "db \<Rightarrow> int \<Rightarrow> int \<Rightarrow> int option \<Rightarrow> bool \<Rightarrow> project_car option" where
  "accessible_car_relation d usr c project tracking =
     newest (link_updated_at d) (accessible_links d usr c project tracking)"

abbreviation project_car_not_found :: http_error where
  "project_car_not_found \<equiv> HTTPException 404 ''project_car_not_found''"

abbreviation car_not_found :: http_error where
  "car_not_found \<equiv> HTTPException 404 ''car_not_found''"

definition relation :: "db \<Rightarrow> int \<Rightarrow> int \<Rightarrow> int \<Rightarrow> bool \<Rightarrow> project_car option" where
  "relation d usr project c tracking = accessible_car_relation d usr c (Some project) tracking"

definition car_state :: "db \<Rightarrow> int \<Rightarrow> int \<Rightarrow> user_car_state option" where
  "car_state d usr c = first_row (\<lambda>s. ucs_user_id s = usr \<and> ucs_car_id s = c) (user_car_states d)"

definition new_car_state :: "int \<Rightarrow> int \<Rightarrow> user_car_state" where
  "new_car_state usr c = \<lparr>ucs_user_id = usr, ucs_car_id = c, ucs_comment = None, ucs_rating = None,
     ucs_excluded = False, ucs_comment_updated_at = None\<rparr>"

text \<open>\<^verbatim>\<open>user_car_state\<close>: the row, created on first use.\<close>

definition user_car_state_of :: "int \<Rightarrow> int \<Rightarrow> db \<Rightarrow> user_car_state \<times> db" where
  "user_car_state_of usr c d =
     (case car_state d usr c of
        Some s \<Rightarrow> (s, d)
      | None \<Rightarrow> (new_car_state usr c, d\<lparr>user_car_states := user_car_states d @ [new_car_state usr c]\<rparr>))"

definition set_car_state :: "int \<Rightarrow> int \<Rightarrow> (user_car_state \<Rightarrow> user_car_state) \<Rightarrow> db \<Rightarrow> db" where
  "set_car_state usr c f d = (let d' = snd (user_car_state_of usr c d)
     in d'\<lparr>user_car_states := update_where (\<lambda>s. ucs_user_id s = usr \<and> ucs_car_id s = c) f (user_car_states d')\<rparr>)"

section \<open>What a card shows\<close>

definition effective_status :: "car \<Rightarrow> project_car option \<Rightarrow> string" where
  "effective_status c link =
     (case link of
        None \<Rightarrow> ''REMOVED_FROM_SEARCH''
      | Some l \<Rightarrow>
          if \<not> pc_tracking_enabled l then ''REMOVED_FROM_SEARCH''
          else if c_status c = ''SOLD'' then ''SOLD''
          else if pc_search_status l = ''NOT_FOUND_IN_SEARCH'' then ''NOT_FOUND_IN_SEARCH''
          else if pc_is_new l then ''NEW''
          else if c_status c = ''NEW'' then ''UPDATED''
          else c_status c)"

definition image_url :: "(string \<Rightarrow> string option) \<Rightarrow> string \<Rightarrow> json" where
  "image_url below path =
     (case resolve_storage_path below (Some path) of
        Some parts \<Rightarrow> JStr (''/storage/'' @ join_with ''/'' parts)
      | None \<Rightarrow> JNull)"

definition image_payload :: "(string \<Rightarrow> string option) \<Rightarrow> car_record \<Rightarrow> dict" where
  "image_payload below img =
     (let payload = cr_payload img;
          with_url = (case dget payload ''path'' of
            JStr path \<Rightarrow> if path = [] then payload else dset payload ''url'' (image_url below path)
          | _ \<Rightarrow> payload)
      in dset with_url ''stored_at'' (py_or (dget with_url ''updated_at'') (JTime (cr_created_at img))))"

text \<open>By kind; a later image of a kind replaces an earlier one.\<close>

definition image_payloads :: "(string \<Rightarrow> string option) \<Rightarrow> db \<Rightarrow> int \<Rightarrow> dict" where
  "image_payloads below d c =
     foldl (\<lambda>result img. dset result (cr_kind img) (JObj (image_payload below img))) []
       (filter (\<lambda>i. cr_car_id i = c \<and> cr_integrity_status i = ''VALID'') (car_images d))"

definition main_image :: "(string \<Rightarrow> string option) \<Rightarrow> db \<Rightarrow> int \<Rightarrow> json" where
  "main_image below d c = dget (jobj (dget (image_payloads below d c) ''MAIN'')) ''url''"

record page_parser =
  pg_fields :: "string \<Rightarrow> string \<Rightarrow> dict"
  pg_condition :: "string \<Rightarrow> json \<times> json"
  pg_new_car_price_percent :: "string \<Rightarrow> json"
  pg_contract_status :: "string \<Rightarrow> json"
  pg_options :: "string \<Rightarrow> json"

definition parsed_details :: "page_parser \<Rightarrow> dict \<Rightarrow> string \<Rightarrow> string \<Rightarrow> dict" where
  "parsed_details pg details raw title =
     dmerge (filter (\<lambda>(k, v). v \<noteq> JNull) (pg_fields pg raw title))
       [(''new_car_price_percent'', py_or (dget details ''new_car_price_percent'') (pg_new_car_price_percent pg raw)),
        (''under_contract'', py_or (dget details ''under_contract'') (pg_contract_status pg raw)),
        (''options'', pg_options pg raw),
        (''condition'', fst (pg_condition pg raw)),
        (''condition_summary'', snd (pg_condition pg raw))]"

definition enriched_details :: "page_parser \<Rightarrow> car \<Rightarrow> dict" where
  "enriched_details pg c =
     (let details = details_of c
      in case dget details ''raw_text_excerpt'' of
           JStr raw \<Rightarrow>
             if raw = [] then details
             else merge_reliable_detail details (parsed_details pg details raw (str_or (c_title c) []))
         | _ \<Rightarrow> details)"

text \<open>The loop over the price history: the current price, then the newest different one. Stored prices are
  integers.\<close>

definition price_value :: "dict \<Rightarrow> int" where
  "price_value payload = (case dget payload ''price_krw'' of JInt n \<Rightarrow> n | _ \<Rightarrow> 0)"

fun price_values :: "int list \<Rightarrow> int list \<Rightarrow> int list" where
  "price_values vs [] = vs"
| "price_values vs (p # ps) =
     (let vs' = (if p \<noteq> 0 \<and> p \<notin> set vs then vs @ [p] else vs)
      in if length vs' = 2 then vs' else price_values vs' ps)"

definition price_points :: "db \<Rightarrow> int \<Rightarrow> car_record list" where
  "price_points d c =
     filter (\<lambda>p. cr_car_id p = c \<and> cr_integrity_status p = ''VALID'') (price_history d)"

definition newest_first :: "('a \<Rightarrow> time) \<Rightarrow> 'a list \<Rightarrow> 'a list" where
  "newest_first f xs = rev (sort_key f (rev xs))"

record latest_change =
  lc_direction :: string
  lc_previous :: int
  lc_current :: int
  lc_difference :: int
  lc_percent :: int

text \<open>\<open>lc_percent\<close> is in hundredths of a percent.\<close>

definition latest_price_change :: "db \<Rightarrow> car \<Rightarrow> latest_change option" where
  "latest_price_change d c =
     (case price_values (case c_current_price c of Some p \<Rightarrow> if p = 0 then [] else [p] | None \<Rightarrow> [])
             (map (\<lambda>p. price_value (cr_payload p)) (take 30 (newest_first cr_created_at (price_points d (c_id c))))) of
        [current, previous] \<Rightarrow>
          if current = previous then None
          else Some \<lparr>lc_direction = (if current - previous < 0 then ''DOWN'' else ''UP''),
                     lc_previous = previous, lc_current = current, lc_difference = \<bar>current - previous\<bar>,
                     lc_percent = percent2 \<bar>current - previous\<bar> previous\<rparr>
      | _ \<Rightarrow> None)"

section \<open>Lists and cards\<close>

record car_card = listing +
  cc_encar_id :: string
  cc_url :: string
  cc_title :: "string option"
  cc_price :: "int option"
  cc_favorite :: bool
  cc_viewed :: bool
  cc_missing_scans :: int
  cc_updated_at :: time
  cc_first_seen_at :: "time option"
  cc_image :: json
  cc_price_change :: "latest_change option"

text \<open>\<open>below\<close> places absolute paths under the storage root.\<close>

definition car_card_of :: "page_parser \<Rightarrow> (string \<Rightarrow> string option) \<Rightarrow> db \<Rightarrow> project_car \<Rightarrow> car \<Rightarrow> car_card" where
  "car_card_of pg below d l c =
     \<lparr>ls_id = c_id c, ls_status = effective_status c (Some l), ls_details = enriched_details pg c,
      cc_encar_id = c_canonical_encar_id c, cc_url = c_url c, cc_title = c_title c,
      cc_price = c_current_price c, cc_favorite = pc_favorite l, cc_viewed = pc_viewed l,
      cc_missing_scans = pc_consecutive_missing_scans l, cc_updated_at = c_updated_at c,
      cc_first_seen_at = pc_first_seen_at l, cc_image = main_image below d (c_id c),
      cc_price_change = latest_price_change d c\<rparr>"

definition shown_link :: "db \<Rightarrow> int \<Rightarrow> project_car \<Rightarrow> car option" where
  "shown_link d usr l =
     (case get_car d (pc_car_id l) of
        Some c \<Rightarrow> if pc_tracking_enabled l \<and> \<not> c_excluded c \<and> \<not> excluded_by d usr (c_id c) then Some c else None
      | None \<Rightarrow> None)"

definition matches_filter :: "bool option \<Rightarrow> string option \<Rightarrow> project_car \<Rightarrow> car \<Rightarrow> bool" where
  "matches_filter fav status l c \<longleftrightarrow>
     (case fav of Some b \<Rightarrow> pc_favorite l = b | None \<Rightarrow> True) \<and>
     (case status of
        None \<Rightarrow> True
      | Some s \<Rightarrow>
          if s = [] then True
          else if s \<in> {''UNAVAILABLE'', ''NOT_FOUND_IN_SEARCH''} then pc_search_status l = ''NOT_FOUND_IN_SEARCH''
          else if s = ''NEW'' then pc_is_new l
          else c_status c = s)"

definition project_rows :: "db \<Rightarrow> int \<Rightarrow> int \<Rightarrow> (project_car \<times> car) list" where
  "project_rows d usr p =
     List.map_filter (\<lambda>l. if pc_project_id l = p then map_option (Pair l) (shown_link d usr l) else None) (project_cars d)"

definition project_car_list ::
  "page_parser \<Rightarrow> (string \<Rightarrow> string option) \<Rightarrow> (string \<Rightarrow> string) \<Rightarrow> db \<Rightarrow> int \<Rightarrow> int \<Rightarrow> bool option \<Rightarrow> string option \<Rightarrow>
   (car_card \<times> car_card list) list" where
  "project_car_list pg below nfkc d usr p fav status =
     group_vehicle_listings nfkc
       (map (\<lambda>(l, c). car_card_of pg below d l c)
         (newest_first (\<lambda>(l, c). c_updated_at c)
           (filter (\<lambda>(l, c). matches_filter fav status l c) (project_rows d usr p))))"

definition project_cars_request ::
  "page_parser \<Rightarrow> (string \<Rightarrow> string option) \<Rightarrow> (string \<Rightarrow> string) \<Rightarrow> time \<Rightarrow> request \<Rightarrow> int \<Rightarrow> bool option \<Rightarrow>
   string option \<Rightarrow> (db, (car_card \<times> car_card list) list) handler" where
  "project_cars_request pg below nfkc t rq p fav status = with_user t rq (\<lambda>u s d.
     case owned_project_row d p (u_id u) of
       None \<Rightarrow> (Inl project_not_found, d)
     | Some _ \<Rightarrow> (Inr (project_car_list pg below nfkc d (u_id u) p fav status), d))"

record favorite_card = car_card +
  fc_project_id :: int
  fc_project_name :: string

definition favorite_rows :: "db \<Rightarrow> int \<Rightarrow> (project_car \<times> car) list" where
  "favorite_rows d usr =
     List.map_filter (\<lambda>l. if owned_link d usr l \<and> pc_favorite l then map_option (Pair l) (shown_link d usr l) else None)
       (project_cars d)"

definition favorite_cars ::
  "page_parser \<Rightarrow> (string \<Rightarrow> string option) \<Rightarrow> time \<Rightarrow> request \<Rightarrow> (db, favorite_card list) handler" where
  "favorite_cars pg below t rq = with_user t rq (\<lambda>u s d.
     (Inr (map (\<lambda>(l, c). car_card.extend (car_card_of pg below d l c)
         (favorite_card.fields (pc_project_id l)
           (case link_project d l of Some p \<Rightarrow> p_name p | None \<Rightarrow> [])))
       (newest_first (\<lambda>(l, c). c_updated_at c) (favorite_rows d (u_id u)))), d))"

section \<open>Looking a car up\<close>

text \<open>\<^verbatim>\<open>parser.extract_car_id\<close>: four patterns, each searched from left to right; \<open>prev\<close> is the character
  before. Every byte beyond ASCII counts as a letter for the word boundary.\<close>

definition strip_prefix :: "string \<Rightarrow> string \<Rightarrow> string option" where
  "strip_prefix p s = (if starts_with p s then Some (drop (length p) s) else None)"

definition long_number :: "string \<Rightarrow> string option" where
  "long_number s = (let n = takeWhile is_digit s in if 6 \<le> length n then Some n else None)"

definition number_after :: "string list \<Rightarrow> char option \<Rightarrow> string \<Rightarrow> string option" where
  "number_after prefixes prev s =
     (case List.map_filter (\<lambda>p. Option.bind (strip_prefix p s) long_number) prefixes of x # _ \<Rightarrow> Some x | [] \<Rightarrow> None)"

definition word_char :: "char \<Rightarrow> bool" where
  "word_char c \<longleftrightarrow> is_alpha c \<or> is_digit c \<or> c = CHR ''_'' \<or> 128 \<le> (of_char c :: nat)"

definition skip_quote :: "string \<Rightarrow> string" where
  "skip_quote s = (case s of c # r \<Rightarrow> if c = CHR 0x27 \<or> c = CHR 0x22 then r else s | [] \<Rightarrow> s)"

definition after_separator :: "string \<Rightarrow> string option" where
  "after_separator s =
     (case dropWhile is_space (skip_quote s) of
        c # r \<Rightarrow> if c = CHR '':'' \<or> c = CHR ''='' then Some (skip_quote (dropWhile is_space r)) else None
      | [] \<Rightarrow> None)"

definition labelled_number :: "char option \<Rightarrow> string \<Rightarrow> string option" where
  "labelled_number prev s =
     (if (case prev of Some c \<Rightarrow> word_char c | None \<Rightarrow> False) then None
      else case List.map_filter (\<lambda>p. strip_prefix p s) [''carId'', ''carid'', ''carNo''] of
        r # _ \<Rightarrow> Option.bind (after_separator r) long_number
      | [] \<Rightarrow> None)"

fun search_text :: "(char option \<Rightarrow> string \<Rightarrow> string option) \<Rightarrow> char option \<Rightarrow> string \<Rightarrow> string option" where
  "search_text m prev [] = m prev []"
| "search_text m prev (c # s) =
     (case m prev (c # s) of Some r \<Rightarrow> Some r | None \<Rightarrow> search_text m (Some c) s)"

definition extract_car_id :: "string \<Rightarrow> string option" where
  "extract_car_id v =
     (case List.map_filter (\<lambda>m. search_text m None v)
        [number_after [''/cars/detail/''],
         number_after [''?carId='', ''?carid='', ''&carId='', ''&carid=''],
         number_after [''?carNo='', ''&carNo=''],
         labelled_number] of
        x # _ \<Rightarrow> Some x
      | [] \<Rightarrow> None)"

definition lookup_number :: "string \<Rightarrow> string option" where
  "lookup_number q =
     (let v = strip q
      in case extract_car_id v of
           Some n \<Rightarrow> Some n
         | None \<Rightarrow> if list_all is_digit v \<and> 6 \<le> length v then Some v else None)"

definition find_listing :: "db \<Rightarrow> string \<Rightarrow> car option" where
  "find_listing d n =
     (case first_row (\<lambda>c. c_canonical_encar_id c = n) (cars d) of
        Some c \<Rightarrow> Some c
      | None \<Rightarrow> Option.bind (first_row (\<lambda>a. ca_alias_id a = n) (car_aliases d)) (\<lambda>a. get_car d (ca_car_id a)))"

datatype lookup_answer =
    Not_Found "string option" string
  | Found string int "(int \<times> string) list" car_card bool

definition link_name :: "db \<Rightarrow> project_car \<Rightarrow> int \<times> string" where
  "link_name d l = (pc_project_id l, case link_project d l of Some p \<Rightarrow> p_name p | None \<Rightarrow> [])"

definition excluded_mark :: "db \<Rightarrow> int \<Rightarrow> int \<Rightarrow> bool" where
  "excluded_mark d usr c = (case car_state d usr c of Some s \<Rightarrow> ucs_excluded s | None \<Rightarrow> False)"

definition lookup_answer ::
  "page_parser \<Rightarrow> (string \<Rightarrow> string option) \<Rightarrow> db \<Rightarrow> int \<Rightarrow> string \<Rightarrow> lookup_answer" where
  "lookup_answer pg below d usr q =
     (case lookup_number q of
        None \<Rightarrow> Not_Found None ''invalid_encar_url''
      | Some n \<Rightarrow>
          (case find_listing d n of
             None \<Rightarrow> Not_Found (Some n) ''not_in_database''
           | Some c \<Rightarrow>
               (case newest_first (link_updated_at d) (accessible_links d usr (c_id c) None False) of
                  [] \<Rightarrow> Not_Found (Some n) ''not_in_database''
                | l # ls \<Rightarrow>
                    let tracked = map (link_name d) (filter pc_tracking_enabled (l # ls))
                    in Found n (case tracked of p # _ \<Rightarrow> fst p | [] \<Rightarrow> pc_project_id l) tracked
                         (car_card_of pg below d l c) (excluded_mark d usr (c_id c)))))"

definition lookup_car ::
  "page_parser \<Rightarrow> (string \<Rightarrow> string option) \<Rightarrow> time \<Rightarrow> request \<Rightarrow> string \<Rightarrow> (db, lookup_answer) handler" where
  "lookup_car pg below t rq q = with_user t rq (\<lambda>u s d.
     if q = [] \<or> 500 < length (code_points q) then (Inl (HTTPException 422 ''validation_error''), d)
     else (Inr (lookup_answer pg below d (u_id u) q), d))"

section \<open>The card of one car\<close>

record full_card = car_card +
  fu_comment :: "string option"
  fu_comment_updated_at :: "time option"
  fu_rating :: "int option"
  fu_images :: dict
  fu_last_seen_at :: "time option"
  fu_excluded :: bool
  fu_integrity_status :: string

text \<open>The row of notes that the request creates is not committed.\<close>

definition full_card_of ::
  "page_parser \<Rightarrow> (string \<Rightarrow> string option) \<Rightarrow> db \<Rightarrow> int \<Rightarrow> project_car \<Rightarrow> car \<Rightarrow> full_card" where
  "full_card_of pg below d usr l c =
     (let s = fst (user_car_state_of usr (c_id c) d)
      in car_card.extend (car_card_of pg below d l c)
           (full_card.fields (ucs_comment s) (ucs_comment_updated_at s) (ucs_rating s)
             (image_payloads below d (c_id c)) (pc_last_seen_at l) (ucs_excluded s) (c_integrity_status c)))"

definition car_request ::
  "page_parser \<Rightarrow> (string \<Rightarrow> string option) \<Rightarrow> time \<Rightarrow> request \<Rightarrow> int \<Rightarrow> int option \<Rightarrow> (db, full_card) handler" where
  "car_request pg below t rq c project = with_user t rq (\<lambda>u s d.
     case get_car d c of
       None \<Rightarrow> (Inl car_not_found, d)
     | Some r \<Rightarrow>
         (case accessible_car_relation d (u_id u) c project False of
            None \<Rightarrow> (Inl project_car_not_found, d)
          | Some l \<Rightarrow> (Inr (full_card_of pg below d (u_id u) l r), d)))"

section \<open>What a user changes\<close>

definition drop_link :: "project_car \<Rightarrow> project_car" where
  "drop_link l = l\<lparr>pc_tracking_enabled := False, pc_search_status := ''REMOVED_FROM_PROJECT'', pc_favorite := False\<rparr>"

definition drop_car :: "time \<Rightarrow> int \<Rightarrow> int \<Rightarrow> user \<Rightarrow> auth_session \<Rightarrow> (db, unit) handler" where
  "drop_car t p c u s d =
     (case relation d (u_id u) p c True of
        None \<Rightarrow> (Inl project_car_not_found, d)
      | Some _ \<Rightarrow> (Inr (), add_event t c ''REMOVED_FROM_PROJECT'' (Some (u_id u)) (Some p)
          [(''project_id'', JInt p)] (update_link p c drop_link d)))"

definition remove_car_from_project :: "env \<Rightarrow> time \<Rightarrow> request \<Rightarrow> int \<Rightarrow> int \<Rightarrow> (db, unit) handler" where
  "remove_car_from_project ev t rq p c = require_csrf ev t rq (drop_car t p c)"

definition mark_favorite :: "time \<Rightarrow> int \<Rightarrow> int \<Rightarrow> bool \<Rightarrow> user \<Rightarrow> auth_session \<Rightarrow> (db, bool) handler" where
  "mark_favorite t p c v u s d =
     (case relation d (u_id u) p c True of
        None \<Rightarrow> (Inl project_car_not_found, d)
      | Some _ \<Rightarrow> (Inr v, add_event t c (if v then ''FAVORITE_ADDED'' else ''FAVORITE_REMOVED'') (Some (u_id u)) (Some p)
          [(''project_id'', JInt p)] (update_link p c (\<lambda>l. l\<lparr>pc_favorite := v\<rparr>) d)))"

definition favorite :: "env \<Rightarrow> time \<Rightarrow> request \<Rightarrow> int \<Rightarrow> int \<Rightarrow> bool \<Rightarrow> (db, bool) handler" where
  "favorite ev t rq p c v = require_csrf ev t rq (mark_favorite t p c v)"

definition mark_viewed :: "time \<Rightarrow> int \<Rightarrow> int \<Rightarrow> bool \<Rightarrow> user \<Rightarrow> auth_session \<Rightarrow> (db, bool) handler" where
  "mark_viewed t p c v u s d =
     (case relation d (u_id u) p c True of
        None \<Rightarrow> (Inl project_car_not_found, d)
      | Some l \<Rightarrow>
          if pc_viewed l = v then (Inr v, d)
          else (Inr v, add_event t c ''USER_VIEWED'' (Some (u_id u)) (Some p)
            [(''project_id'', JInt p), (''value'', JBool v)]
            (update_link p c (\<lambda>l. l\<lparr>pc_viewed := v, pc_viewed_at := (if v then Some t else None)\<rparr>) d)))"

definition viewed :: "env \<Rightarrow> time \<Rightarrow> request \<Rightarrow> int \<Rightarrow> int \<Rightarrow> bool \<Rightarrow> (db, bool) handler" where
  "viewed ev t rq p c v = require_csrf ev t rq (mark_viewed t p c v)"

definition write_comment :: "time \<Rightarrow> int \<Rightarrow> string \<Rightarrow> user \<Rightarrow> auth_session \<Rightarrow> (db, string \<times> time) handler" where
  "write_comment t c text u s d =
     (case accessible_car_relation d (u_id u) c None False of
        None \<Rightarrow> (Inl project_car_not_found, d)
      | Some _ \<Rightarrow> (Inr (text, t), add_event t c ''COMMENT_UPDATED'' (Some (u_id u)) None []
          (set_car_state (u_id u) c (\<lambda>s. s\<lparr>ucs_comment := Some text, ucs_comment_updated_at := Some t\<rparr>) d)))"

definition comment :: "env \<Rightarrow> time \<Rightarrow> request \<Rightarrow> int \<Rightarrow> string \<Rightarrow> (db, string \<times> time) handler" where
  "comment ev t rq c text = require_csrf ev t rq (write_comment t c text)"

definition write_rating :: "time \<Rightarrow> int \<Rightarrow> int option \<Rightarrow> user \<Rightarrow> auth_session \<Rightarrow> (db, int option) handler" where
  "write_rating t c v u s d =
     (if (case v of Some n \<Rightarrow> n < 1 \<or> 5 < n | None \<Rightarrow> False) then (Inl (HTTPException 422 ''validation_error''), d)
      else case accessible_car_relation d (u_id u) c None False of
        None \<Rightarrow> (Inl project_car_not_found, d)
      | Some _ \<Rightarrow> (Inr v, add_event t c ''RATING_UPDATED'' (Some (u_id u)) None [(''rating'', jint v)]
          (set_car_state (u_id u) c (\<lambda>s. s\<lparr>ucs_rating := v\<rparr>) d)))"

definition rating :: "env \<Rightarrow> time \<Rightarrow> request \<Rightarrow> int \<Rightarrow> int option \<Rightarrow> (db, int option) handler" where
  "rating ev t rq c v = require_csrf ev t rq (write_rating t c v)"

definition drop_owned_links :: "int \<Rightarrow> int \<Rightarrow> db \<Rightarrow> db" where
  "drop_owned_links usr c d =
     d\<lparr>project_cars := update_where (\<lambda>l. pc_car_id l = c \<and> owned_link d usr l) drop_link (project_cars d)\<rparr>"

definition exclude_car :: "time \<Rightarrow> int \<Rightarrow> user \<Rightarrow> auth_session \<Rightarrow> (db, bool) handler" where
  "exclude_car t c u s d =
     (case accessible_car_relation d (u_id u) c None False of
        None \<Rightarrow> (Inl project_car_not_found, d)
      | Some _ \<Rightarrow> (Inr True, add_event t c ''USER_EXCLUDED'' (Some (u_id u)) None []
          (drop_owned_links (u_id u) c (set_car_state (u_id u) c (\<lambda>s. s\<lparr>ucs_excluded := True\<rparr>) d))))"

definition exclude :: "env \<Rightarrow> time \<Rightarrow> request \<Rightarrow> int \<Rightarrow> (db, bool) handler" where
  "exclude ev t rq c = require_csrf ev t rq (exclude_car t c)"

section \<open>Events and prices\<close>

definition visible_event :: "db \<Rightarrow> int \<Rightarrow> int \<Rightarrow> car_event \<Rightarrow> bool" where
  "visible_event d usr c e \<longleftrightarrow> cr_car_id e = c \<and> cr_integrity_status e = ''VALID'' \<and>
     (ce_user_id e = Some usr \<or>
      (case ce_project_id e of Some p \<Rightarrow> (\<exists>x \<in> set (projects d). p_id x = p \<and> p_owner_id x = usr) | None \<Rightarrow> False) \<or>
      (ce_user_id e = None \<and> ce_project_id e = None))"

definition event_view :: "car_event \<Rightarrow> string \<times> dict \<times> time" where
  "event_view e = (cr_kind e, cr_payload e, cr_created_at e)"

definition events :: "time \<Rightarrow> request \<Rightarrow> int \<Rightarrow> (db, (string \<times> dict \<times> time) list) handler" where
  "events t rq c = with_user t rq (\<lambda>u s d.
     case accessible_car_relation d (u_id u) c None False of
       None \<Rightarrow> (Inl project_car_not_found, d)
     | Some _ \<Rightarrow> (Inr (map event_view (newest_first cr_created_at (filter (visible_event d (u_id u) c) (car_events d)))), d))"

definition price_history_out :: "db \<Rightarrow> int \<Rightarrow> (json \<times> json \<times> json) list" where
  "price_history_out d c =
     map (\<lambda>p. (dget (cr_payload p) ''price_krw'', py_or (dget (cr_payload p) ''offer_type'') (JStr ''SALE''),
        py_or (dget (cr_payload p) ''checked_at'') (JTime (cr_created_at p))))
       (sort_key cr_created_at (price_points d c))"

definition prices :: "time \<Rightarrow> request \<Rightarrow> int \<Rightarrow> (db, (json \<times> json \<times> json) list) handler" where
  "prices t rq c = with_user t rq (\<lambda>u s d.
     case accessible_car_relation d (u_id u) c None False of
       None \<Rightarrow> (Inl project_car_not_found, d)
     | Some _ \<Rightarrow> (Inr (price_history_out d c), d))"

section \<open>What one user changes, another does not see\<close>

text \<open>The rows of a user: the links of the projects and the notes on cars.\<close>

definition own_rows :: "int \<Rightarrow> db \<Rightarrow> project_car list \<times> user_car_state list" where
  "own_rows j d = (filter (owned_link d j) (project_cars d), filter (\<lambda>s. ucs_user_id s = j) (user_car_states d))"

lemma own_rows_tables:
  assumes "projects d' = projects d" "project_cars d' = project_cars d" "user_car_states d' = user_car_states d"
  shows "own_rows j d' = own_rows j d"
proof -
  have "owned_link d' j = owned_link d j" using assms(1) by (simp add: fun_eq_iff owned_link_def link_project_def)
  then show ?thesis using assms by (simp add: own_rows_def)
qed

lemma own_rows_add_event [simp]: "own_rows j (add_event t c k u p pay d) = own_rows j d"
  by (rule own_rows_tables) (simp_all add: add_event_def)

lemma own_rows_touch [simp]: "own_rows j (touch_session t u s d) = own_rows j d"
  by (rule own_rows_tables) (simp_all add: touch_session_def set_user_def set_session_def)

lemma own_rows_context: "own_rows j (snd (get_auth_context t rq d)) = own_rows j d"
  by (simp add: get_auth_context_def split: option.split)

lemma filter_update_other:
  "(\<And>r. r \<in> set rows \<Longrightarrow> P r \<Longrightarrow> \<not> Q r \<and> \<not> Q (f r)) \<Longrightarrow> filter Q (update_where P f rows) = filter Q rows"
  by (induction rows) auto

lemma owned_link_same: "pc_project_id l' = pc_project_id l \<Longrightarrow> owned_link d j l' = owned_link d j l"
  by (simp add: owned_link_def link_project_def)

lemma owned_link_only: "owned_link d i l \<Longrightarrow> owned_link d j l \<Longrightarrow> i = j"
  by (auto simp: owned_link_def split: option.splits)

lemma own_rows_update_links:
  assumes "\<And>l. l \<in> set (project_cars d) \<Longrightarrow> P l \<Longrightarrow> owned_link d i l" and "\<And>l. pc_project_id (f l) = pc_project_id l"
    and "i \<noteq> j"
  shows "own_rows j (d\<lparr>project_cars := update_where P f (project_cars d)\<rparr>) = own_rows j d"
proof -
  let ?d = "d\<lparr>project_cars := update_where P f (project_cars d)\<rparr>"
  have same: "owned_link ?d j = owned_link d j" by (simp add: fun_eq_iff owned_link_def link_project_def)
  have "filter (owned_link d j) (update_where P f (project_cars d)) = filter (owned_link d j) (project_cars d)"
    using assms owned_link_only owned_link_same [OF assms(2)] by (intro filter_update_other) blast
  then show ?thesis by (simp add: own_rows_def same)
qed

lemma newest_member: "newest f xs = Some x \<Longrightarrow> x \<in> set xs"
  by (induction xs arbitrary: x) (auto split: option.splits if_splits)

lemma relation_owned:
  assumes "relation d usr p c tracking = Some l"
  shows "l \<in> set (project_cars d) \<and> owned_link d usr l \<and> pc_project_id l = p \<and> pc_car_id l = c"
  using newest_member [OF assms [unfolded relation_def accessible_car_relation_def]]
  by (auto simp: accessible_links_def)

lemma own_rows_update_link:
  assumes "relation d i p c tracking = Some l" and "\<And>l. pc_project_id (f l) = pc_project_id l" and "i \<noteq> j"
  shows "own_rows j (update_link p c f d) = own_rows j d"
  unfolding update_link_def
proof (rule own_rows_update_links [OF _ assms(2,3)])
  fix l' :: project_car assume "pc_project_id l' = p \<and> pc_car_id l' = c"
  then show "owned_link d i l'"
    using relation_owned [OF assms(1)] owned_link_same [of l' l d i] by simp
qed

lemma own_rows_set_car_state:
  assumes "i \<noteq> j" and "\<And>s. ucs_user_id (f s) = ucs_user_id s"
  shows "own_rows j (set_car_state i c f d) = own_rows j d"
proof -
  have "filter (\<lambda>s. ucs_user_id s = j) (update_where (\<lambda>s. ucs_user_id s = i \<and> ucs_car_id s = c) f rows) =
      filter (\<lambda>s. ucs_user_id s = j) rows" for rows
    using assms by (intro filter_update_other) auto
  then show ?thesis
    using assms(1) by (simp add: set_car_state_def user_car_state_of_def own_rows_def Let_def new_car_state_def
        owned_link_def [abs_def] link_project_def split: option.split)
qed

text \<open>The contract of the requests on cars: behind the session check they leave the rows of everyone else alone.\<close>

locale car_change =
  fixes k :: "user \<Rightarrow> auth_session \<Rightarrow> (db, 'a) handler"
  assumes others_kept: "u_id u \<noteq> j \<Longrightarrow> own_rows j (snd (k u s d)) = own_rows j d"
begin

lemma request_private:
  assumes "get_auth_context t rq d = (Inr (i, s), d1)" and "i \<noteq> j"
  shows "own_rows j (snd (require_csrf ev t rq k d)) = own_rows j d"
proof -
  have d1: "own_rows j d1 = own_rows j d" using own_rows_context [of j t rq d] assms(1) by simp
  show ?thesis
  proof (cases "get_user d1 i")
    case None
    then show ?thesis by (simp add: require_csrf_def with_user_def assms(1) d1)
  next
    case (Some u)
    then have "u_id u \<noteq> j" using get_user_id [OF Some] assms(2) by simp
    then show ?thesis using Some by (simp add: require_csrf_def with_user_def assms(1) d1 others_kept)
  qed
qed

end

interpretation removal: car_change "drop_car t p c"
  by unfold_locales (auto simp: drop_car_def drop_link_def own_rows_update_link split: option.split)

interpretation favour: car_change "mark_favorite t p c v"
  by unfold_locales (auto simp: mark_favorite_def own_rows_update_link split: option.split)

interpretation viewing: car_change "mark_viewed t p c v"
  by unfold_locales (auto simp: mark_viewed_def own_rows_update_link split: option.split)

interpretation commenting: car_change "write_comment t c text"
  by unfold_locales (auto simp: write_comment_def own_rows_set_car_state split: option.split)

interpretation grading: car_change "write_rating t c v"
  by unfold_locales (auto simp: write_rating_def own_rows_set_car_state split: option.split)

lemma own_rows_drop_owned: "i \<noteq> j \<Longrightarrow> own_rows j (drop_owned_links i c d) = own_rows j d"
  unfolding drop_owned_links_def by (rule own_rows_update_links) (auto simp: drop_link_def)

interpretation exclusion: car_change "exclude_car t c"
  by unfold_locales (auto simp: exclude_car_def own_rows_set_car_state own_rows_drop_owned split: option.split)

text \<open>The requests a user \<open>i\<close> can make on cars.\<close>

inductive car_step :: "env \<Rightarrow> int \<Rightarrow> db \<Rightarrow> db \<Rightarrow> bool" for ev i where
  removing: "get_auth_context t rq d = (Inr (i, s), d1) \<Longrightarrow> car_step ev i d (snd (remove_car_from_project ev t rq p c d))"
| favouring: "get_auth_context t rq d = (Inr (i, s), d1) \<Longrightarrow> car_step ev i d (snd (favorite ev t rq p c v d))"
| viewing: "get_auth_context t rq d = (Inr (i, s), d1) \<Longrightarrow> car_step ev i d (snd (viewed ev t rq p c v d))"
| commenting: "get_auth_context t rq d = (Inr (i, s), d1) \<Longrightarrow> car_step ev i d (snd (comment ev t rq c text d))"
| grading: "get_auth_context t rq d = (Inr (i, s), d1) \<Longrightarrow> car_step ev i d (snd (rating ev t rq c n d))"
| excluding: "get_auth_context t rq d = (Inr (i, s), d1) \<Longrightarrow> car_step ev i d (snd (exclude ev t rq c d))"

lemma car_step_private: "car_step ev i d d' \<Longrightarrow> i \<noteq> j \<Longrightarrow> own_rows j d' = own_rows j d"
  by (induction rule: car_step.induct)
    (simp_all add: remove_car_from_project_def favorite_def viewed_def comment_def rating_def exclude_def
      removal.request_private favour.request_private viewing.request_private commenting.request_private
      grading.request_private exclusion.request_private)

text \<open>Whatever the other users do with cars (remove them from projects, mark, comment, rate, exclude them),
  the links of a user's projects and the user's notes stay exactly as they were, although all users share
  one catalogue of cars.\<close>

theorem car_changes_stay_private:
  assumes "(\<lambda>d d'. \<exists>i. i \<noteq> j \<and> car_step ev i d d')\<^sup>*\<^sup>* d d'"
  shows "own_rows j d' = own_rows j d"
  using assms by (induction rule: rtranclp_induct) (auto dest: car_step_private)

section \<open>An excluded car is hidden\<close>

lemma user_car_state_row: "\<exists>s \<in> set (user_car_states (snd (user_car_state_of i c d))). ucs_user_id s = i \<and> ucs_car_id s = c"
  by (auto simp: user_car_state_of_def new_car_state_def car_state_def dest: first_row_Some split: option.split)

lemma excluded_state:
  "\<exists>s \<in> set (user_car_states (set_car_state i c (\<lambda>s. s\<lparr>ucs_excluded := True\<rparr>) d)).
     ucs_user_id s = i \<and> ucs_car_id s = c \<and> ucs_excluded s"
proof -
  obtain s where s: "s \<in> set (user_car_states (snd (user_car_state_of i c d)))" "ucs_user_id s = i" "ucs_car_id s = c"
    using user_car_state_row by blast
  then have "s\<lparr>ucs_excluded := True\<rparr> \<in> set (user_car_states (set_car_state i c (\<lambda>s. s\<lparr>ucs_excluded := True\<rparr>) d))"
    unfolding set_car_state_def Let_def by simp (rule update_where_memI, simp_all)
  then show ?thesis by (rule bexI [rotated]) (simp add: s)
qed

lemma excluded_not_shown:
  assumes "excluded_by d i c" and "shown_link d i l = Some r"
  shows "c_id r \<noteq> c"
  using assms by (auto simp: shown_link_def split: option.splits if_splits)

lemma shown_rows:
  "(l, r) \<in> set (project_rows d i p) \<Longrightarrow> shown_link d i l = Some r"
  "(l, r) \<in> set (favorite_rows d i) \<Longrightarrow> shown_link d i l = Some r"
  by (auto simp: project_rows_def favorite_rows_def map_filter_iff split: if_splits)

lemma excluded_no_rows:
  assumes "excluded_by d i c"
  shows "c \<notin> c_id ` snd ` set (project_rows d i p)" "c \<notin> c_id ` snd ` set (favorite_rows d i)"
  using shown_rows excluded_not_shown [OF assms] by fastforce+

lemma dropped_links:
  "accessible_links (drop_owned_links i c d) i c None True = []"
proof -
  have "owned_link (drop_owned_links i c d) i l = owned_link d i l" for l
    by (simp add: owned_link_def link_project_def drop_owned_links_def)
  moreover have "owned_link d i (drop_link l) = owned_link d i l" for l
    by (rule owned_link_same) (simp add: drop_link_def)
  moreover have "pc_car_id (drop_link l) = pc_car_id l" "\<not> pc_tracking_enabled (drop_link l)" for l
    by (simp_all add: drop_link_def)
  ultimately show ?thesis
    unfolding accessible_links_def filter_empty_conv drop_owned_links_def
    by (auto simp: set_update_where)
qed

lemma accessible_links_add_event [simp]:
  "accessible_links (add_event t k kind u p pay d) i c q tr = accessible_links d i c q tr"
  by (simp add: accessible_links_def owned_link_def link_project_def add_event_def)

lemma excluded_by_add_event [simp]: "excluded_by (add_event t k kind u p pay d) i c = excluded_by d i c"
  by (simp add: excluded_by_def add_event_def)

text \<open>Excluding a car hides it from the user's lists at once: no list of a project and no list of favourites
  contains it, and no link of the user tracks it any more.\<close>

theorem excluded_car_is_hidden:
  assumes "exclude_car t c u s d = (Inr r, d')"
  shows "c \<notin> c_id ` snd ` set (project_rows d' (u_id u) p) \<and> c \<notin> c_id ` snd ` set (favorite_rows d' (u_id u)) \<and>
    accessible_links d' (u_id u) c None True = []"
proof -
  let ?e = "set_car_state (u_id u) c (\<lambda>s. s\<lparr>ucs_excluded := True\<rparr>) d"
  have d': "d' = add_event t c ''USER_EXCLUDED'' (Some (u_id u)) None [] (drop_owned_links (u_id u) c ?e)"
    using assms by (auto simp: exclude_car_def split: option.splits)
  have hidden: "excluded_by d' (u_id u) c"
    using excluded_state [of "u_id u" c d] unfolding d' by (simp add: excluded_by_def drop_owned_links_def add_event_def)
  have "accessible_links d' (u_id u) c None True = []"
    unfolding d' by (simp add: dropped_links)
  with excluded_no_rows [OF hidden] show ?thesis by blast
qed

section \<open>Events of deleted accounts\<close>

text \<open>Events without a user and a project count as public. Deleting an account clears its name from its events,
  which makes its comments and ratings visible to everyone who follows the car.\<close>

lemma deleted_account_events_are_public:
  assumes "e \<in> set (car_events d)" "ce_user_id e = Some i" "ce_project_id e = None" "cr_integrity_status e = ''VALID''"
  shows "\<exists>e' \<in> set (car_events (delete_user i d)). event_view e' = event_view e \<and>
    visible_event (delete_user i d) j (cr_car_id e) e'"
  using assms by (intro bexI [of _ "e\<lparr>ce_user_id := None\<rparr>"])
    (auto simp: delete_user_def event_view_def visible_event_def set_update_where)

section \<open>Samples\<close>

definition car_db :: db where
  "car_db = project_db\<lparr>cars := [sample_car 3 ''30000001'' ''NEW''],
     project_cars := [sample_link 4 3 ''ACTIVE'', sample_link 5 3 ''ACTIVE''],
     projects := [encar_project, sample_project 5 8]\<rparr>"

lemma car_db_access: "\<exists>l. accessible_car_relation car_db 7 3 None False = Some l"
  by (simp add: accessible_car_relation_def accessible_links_def owned_link_def link_project_def car_db_def
      encar_project_def sample_project_def sample_link_def first_row_def split: option.split)

lemma excluded_car_is_hidden_witness:
  "\<exists>d'. exclude_car 20 3 (sample_user 7 USER ACTIVE) (sample_session 1 7 ''h'') car_db = (Inr True, d') \<and>
     3 \<notin> c_id ` snd ` set (project_rows d' 7 4)"
proof -
  obtain l where l: "accessible_car_relation car_db 7 3 None False = Some l" using car_db_access by blast
  have id: "u_id (sample_user 7 USER ACTIVE) = 7" by (simp add: sample_user_def)
  obtain d' where d': "exclude_car 20 3 (sample_user 7 USER ACTIVE) (sample_session 1 7 ''h'') car_db = (Inr True, d')"
    by (simp add: exclude_car_def id l)
  from excluded_car_is_hidden [OF d', of 4] d' show ?thesis by (simp add: id)
qed

lemma car_db_context:
  "get_auth_context 20 (sample_request ''mine'') car_db = (Inr (7, sample_session 1 7 (secure_hash ''mine'')), car_db)"
  by (simp add: get_auth_context_def sample_request_def car_db_def project_db_def signed_in_def session_of_token_def
      sample_session_def live_session_def get_user_def sample_user_def touch_session_def minutes_def first_row_def)

lemma car_changes_stay_private_witness:
  "own_rows 8 (snd (remove_car_from_project sample_env 20 (sample_request ''mine'') 4 3 car_db)) =
     ([sample_link 5 3 ''ACTIVE''], [])"
proof -
  have "(\<lambda>d d'. \<exists>i. i \<noteq> 8 \<and> car_step sample_env i d d')\<^sup>*\<^sup>* car_db
      (snd (remove_car_from_project sample_env 20 (sample_request ''mine'') 4 3 car_db))"
    using car_step.removing [OF car_db_context, of sample_env 4 3] by (intro r_into_rtranclp exI [of _ 7]) simp
  from car_changes_stay_private [OF this] show ?thesis
    by (simp add: own_rows_def car_db_def owned_link_def link_project_def encar_project_def sample_project_def
        sample_link_def first_row_def project_db_def signed_in_def empty_db_def)
qed

end
