(* ===== verification/ScanApi.thy ===== *)
theory ScanApi
  imports CarsApi Scheduler Reporting
begin

text \<open>
  The requests of \<^verbatim>\<open>backend/app/main.py\<close> on scans: queueing a scan of projects or of cars (\<^verbatim>\<open>enqueue\<close>, which also
  takes projects out of a waiting automatic run), cancelling a run, and the view of a run with its report,
  from which entries of deleted, removed or invalidated cars are taken out.

  \<open>entitlement\<close> is what \<^verbatim>\<open>require_search_entitlement\<close> raises, if anything.
\<close>

section \<open>Queueing\<close>

definition id_set :: "dict \<Rightarrow> string \<Rightarrow> json set" where
  "id_set payload k = set (jlist (dget payload k))"

text \<open>A manual run takes its projects over from a waiting automatic run.\<close>

definition merge_into_manual :: "time \<Rightarrow> json set \<Rightarrow> scan_run \<Rightarrow> scan_run" where
  "merge_into_manual t requested r =
     (let p = payload_of r; remaining = filter (\<lambda>i. i \<notin> requested) (project_ids_of p)
      in if \<not> (r_kind r = ''PROJECTS'' \<and> automatic_payload p) \<or> r_status r \<noteq> QUEUED \<or>
            requested \<inter> id_set p ''project_ids'' = {} then r
         else if remaining \<noteq> [] then r\<lparr>r_payload := Some (dset p ''project_ids'' (JList remaining))\<rparr>
         else r\<lparr>r_status := CANCELLED, r_finished_at := Some t,
                r_payload := Some (dmerge p [(''cancelled_at'', JTime t),
                  (''cancellation_reason'', JStr ''MERGED_INTO_MANUAL_RUN'')])\<rparr>)"

definition merge_automatic_runs :: "time \<Rightarrow> json set \<Rightarrow> int \<Rightarrow> db \<Rightarrow> db" where
  "merge_automatic_runs t requested owner d = d\<lparr>scan_runs :=
     update_where (\<lambda>r. r_owner_id r = owner \<and> open_status (r_status r)) (merge_into_manual t requested) (scan_runs d)\<rparr>"

fun scan_conflict :: "json set \<Rightarrow> json set \<Rightarrow> scan_run list \<Rightarrow> string option" where
  "scan_conflict rp rc [] = None"
| "scan_conflict rp rc (r # rs) =
     (if rp \<inter> id_set (payload_of r) ''project_ids'' \<noteq> {} then Some ''project_scan_already_active''
      else if rc \<inter> id_set (payload_of r) ''car_ids'' \<noteq> {} then Some ''car_scan_already_active''
      else scan_conflict rp rc rs)"

definition merged_queue :: "time \<Rightarrow> string \<Rightarrow> dict \<Rightarrow> int \<Rightarrow> db \<Rightarrow> db" where
  "merged_queue t kind payload owner d =
     (if kind = ''PROJECTS'' \<and> dget payload ''trigger'' = JStr ''MANUAL''
      then merge_automatic_runs t (id_set payload ''project_ids'') owner d else d)"

definition scan_audit :: "string \<Rightarrow> int \<Rightarrow> int option \<Rightarrow> dict option \<Rightarrow> audit_log" where
  "scan_audit action actor run payload = (audit_entry action)\<lparr>al_actor_user_id := Some actor,
     al_entity_type := Some ''SCAN'', al_entity_id := jopt (\<lambda>i. JStr (show_int i)) run, al_payload := payload\<rparr>"

definition enqueue ::
  "bool \<Rightarrow> string option \<Rightarrow> time \<Rightarrow> string \<Rightarrow> dict \<Rightarrow> int \<Rightarrow> (db, int \<times> run_status) handler" where
  "enqueue maintenance entitlement t kind payload owner d =
     (if maintenance then (Inl (HTTPException 409 ''desktop_maintenance_active''), d)
      else case entitlement of
        Some code \<Rightarrow> (Inl (HTTPException 402 (lower code)), d)
      | None \<Rightarrow>
          let d' = merged_queue t kind payload owner d
          in (case scan_conflict (id_set payload ''project_ids'') (id_set payload ''car_ids'') (open_runs d' owner) of
                Some msg \<Rightarrow> (Inl (HTTPException 409 msg), d)
              | None \<Rightarrow>
                  (Inr (fresh_id (map r_id (scan_runs d')), QUEUED),
                   audit (scan_audit ''SCAN_QUEUED'' owner None (Some [(''kind'', JStr kind)]))
                     (add_run owner kind payload t d'))))"

definition queue_projects ::
  "bool \<Rightarrow> string option \<Rightarrow> time \<Rightarrow> int list \<Rightarrow> user \<Rightarrow> auth_session \<Rightarrow> (db, int \<times> run_status) handler" where
  "queue_projects maintenance entitlement t project_ids u s d =
     (let ids = fromkeys project_ids
      in if ids = [] then (Inl (HTTPException 422 ''project_ids_required''), d)
         else if list_ex (\<lambda>i. owned_project_row d i (u_id u) = None) ids then (Inl project_not_found, d)
         else enqueue maintenance entitlement t ''PROJECTS''
                [(''project_ids'', JList (map JInt ids)), (''trigger'', JStr ''MANUAL'')] (u_id u) d)"

definition scan_projects ::
  "env \<Rightarrow> bool \<Rightarrow> string option \<Rightarrow> time \<Rightarrow> request \<Rightarrow> int list \<Rightarrow> (db, int \<times> run_status) handler" where
  "scan_projects ev m ent t rq ids = require_csrf ev t rq (queue_projects m ent t ids)"

definition car_scan_payload :: "int list \<Rightarrow> int option \<Rightarrow> dict" where
  "car_scan_payload ids project = [(''car_ids'', JList (map JInt ids)), (''project_id'', jint project)]"

definition queue_cars ::
  "bool \<Rightarrow> string option \<Rightarrow> time \<Rightarrow> int list \<Rightarrow> int option \<Rightarrow> user \<Rightarrow> auth_session \<Rightarrow>
   (db, int \<times> run_status) handler" where
  "queue_cars maintenance entitlement t car_ids project u s d =
     (let ids = fromkeys car_ids
      in if ids = [] then (Inl (HTTPException 422 ''car_ids_required''), d)
         else if list_ex (\<lambda>c. accessible_car_relation d (u_id u) c project False = None) ids
         then (Inl project_car_not_found, d)
         else enqueue maintenance entitlement t ''CARS'' (car_scan_payload ids project) (u_id u) d)"

definition scan_cars ::
  "env \<Rightarrow> bool \<Rightarrow> string option \<Rightarrow> time \<Rightarrow> request \<Rightarrow> int list \<Rightarrow> int option \<Rightarrow> (db, int \<times> run_status) handler" where
  "scan_cars ev m ent t rq ids project = require_csrf ev t rq (queue_cars m ent t ids project)"

definition queue_refresh ::
  "bool \<Rightarrow> string option \<Rightarrow> time \<Rightarrow> int \<Rightarrow> int option \<Rightarrow> user \<Rightarrow> auth_session \<Rightarrow> (db, int \<times> run_status) handler" where
  "queue_refresh maintenance entitlement t c project u s d =
     (if get_car d c = None then (Inl car_not_found, d)
      else if accessible_car_relation d (u_id u) c project False = None then (Inl project_car_not_found, d)
      else enqueue maintenance entitlement t ''CARS'' (car_scan_payload [c] project) (u_id u) d)"

definition refresh_car_request ::
  "env \<Rightarrow> bool \<Rightarrow> string option \<Rightarrow> time \<Rightarrow> request \<Rightarrow> int \<Rightarrow> int option \<Rightarrow> (db, int \<times> run_status) handler" where
  "refresh_car_request ev m ent t rq c project = require_csrf ev t rq (queue_refresh m ent t c project)"

section \<open>Cancelling\<close>

definition owned_run :: "db \<Rightarrow> int \<Rightarrow> int \<Rightarrow> scan_run option" where
  "owned_run d i owner = first_row (\<lambda>r. r_id r = i \<and> r_owner_id r = owner) (scan_runs d)"

abbreviation scan_not_found :: http_error where
  "scan_not_found \<equiv> HTTPException 404 ''scan_not_found''"

definition cancel_run :: "time \<Rightarrow> scan_run \<Rightarrow> scan_run" where
  "cancel_run t r =
     (let p = dset (payload_of r) ''cancellation_requested_at'' (JTime t)
      in if r_status r = QUEUED
         then r\<lparr>r_status := CANCELLED, r_finished_at := Some t, r_payload := Some (dmerge p (cancelled_result t p))\<rparr>
         else r\<lparr>r_status := CANCEL_REQUESTED, r_payload := Some p\<rparr>)"

definition cancel_owned :: "time \<Rightarrow> int \<Rightarrow> user \<Rightarrow> auth_session \<Rightarrow> (db, int \<times> run_status) handler" where
  "cancel_owned t i u s d =
     (case owned_run d i (u_id u) of
        None \<Rightarrow> (Inl scan_not_found, d)
      | Some r \<Rightarrow>
          if r_status r \<in> {CANCELLED, CANCEL_REQUESTED} then (Inr (r_id r, r_status r), d)
          else if r_status r \<notin> {QUEUED, RUNNING} then (Inl (HTTPException 409 ''scan_already_finished''), d)
          else (Inr (r_id r, r_status (cancel_run t r)),
                audit (scan_audit ''SCAN_CANCEL_REQUESTED'' (u_id u) (Some i) None)
                  (set_run i (cancel_run t) d)))"

definition cancel_scan :: "env \<Rightarrow> time \<Rightarrow> request \<Rightarrow> int \<Rightarrow> (db, int \<times> run_status) handler" where
  "cancel_scan ev t rq i = require_csrf ev t rq (cancel_owned t i)"

section \<open>The view of a run\<close>

fun find_at :: "string \<Rightarrow> nat \<Rightarrow> string \<Rightarrow> nat option" where
  "find_at m i [] = (if m = [] then Some i else None)"
| "find_at m i (c # s) = (if starts_with m (c # s) then Some i else find_at m (Suc i) s)"

text \<open>\<^verbatim>\<open>text.find(m, start)\<close>.\<close>

definition find_from :: "string \<Rightarrow> string \<Rightarrow> nat \<Rightarrow> nat option" where
  "find_from m s start = find_at m start (drop start s)"

definition newline :: string where
  "newline = [CHR 0x0A]"

definition legacy_project_error :: "string option \<Rightarrow> string \<Rightarrow> string list \<Rightarrow> string" where
  "legacy_project_error raw_error name others =
     (let raw = str_or raw_error []; marker = name @ '':''
      in case find_from marker raw 0 of
           None \<Rightarrow> take_chars 4000 raw
         | Some start \<Rightarrow>
             let stops = List.map_filter (\<lambda>other. if other = name then None
                   else find_from (newline @ other @ '':'') raw (start + length marker)) others;
                 stop = foldl min (length raw) stops
             in take_chars 4000 (drop start (take stop raw)))"

definition snapshot_by_id :: "db \<Rightarrow> json \<Rightarrow> car_record option" where
  "snapshot_by_id d i = first_row (\<lambda>s. JInt (cr_id s) = i) (car_snapshots d)"

definition compared_snapshots :: "db \<Rightarrow> dict \<Rightarrow> (car_record \<times> car_record) option" where
  "compared_snapshots d item =
     (let b = dget item ''before_snapshot_id''; a = dget item ''after_snapshot_id''
      in if truthy b \<and> truthy a \<and> b \<noteq> a
         then (case (snapshot_by_id d b, snapshot_by_id d a) of
                 (Some x, Some y) \<Rightarrow>
                   if JInt (cr_car_id x) = dget item ''car_id'' \<and> JInt (cr_car_id y) = dget item ''car_id'' \<and>
                      cr_integrity_status x = ''VALID'' \<and> cr_integrity_status y = ''VALID''
                   then Some (x, y) else None
               | _ \<Rightarrow> None)
         else None)"

text \<open>The last two snapshots up to a minute after the time of the entry.\<close>

definition recent_snapshots :: "db \<Rightarrow> json \<Rightarrow> time \<Rightarrow> car_record list" where
  "recent_snapshots d c cutoff = take 2 (newest_first cr_created_at
     (filter (\<lambda>s. JInt (cr_car_id s) = c \<and> cr_integrity_status s = ''VALID'' \<and> cr_created_at s \<le> cutoff + minutes 1)
       (car_snapshots d)))"

definition unavailable_details :: "dict \<Rightarrow> dict" where
  "unavailable_details item = dset item ''details_unavailable'' (JBool True)"

definition details_by_time :: "db \<Rightarrow> dict \<Rightarrow> dict" where
  "details_by_time d item =
     (case (truthy (dget item ''car_id''), dget item ''updated_at'') of
        (True, JTime t) \<Rightarrow>
          (let item' = (case recent_snapshots d (dget item ''car_id'') t of
               [after, earlier] \<Rightarrow>
                 dset item ''changes'' (JList (material_changes (cr_payload earlier) (cr_payload after)))
             | _ \<Rightarrow> item)
           in if truthy (dget item' ''changes'') then item' else unavailable_details item')
      | _ \<Rightarrow> unavailable_details item)"

definition report_change_details :: "db \<Rightarrow> dict \<Rightarrow> dict" where
  "report_change_details d item =
     (if dget item ''change'' \<noteq> JStr ''MATERIAL_UPDATE'' \<or> truthy (dget item ''changes'') then item
      else case compared_snapshots d item of
        Some (x, y) \<Rightarrow>
          let item' = dset item ''changes'' (JList (material_changes (cr_payload x) (cr_payload y)))
          in if truthy (dget item' ''changes'') then item' else details_by_time d item'
      | None \<Rightarrow> details_by_time d item)"

definition report_items :: "dict \<Rightarrow> dict list" where
  "report_items payload = map jobj (jlist (dget payload ''report''))"

definition invalidated_item :: "dict \<Rightarrow> bool" where
  "invalidated_item item \<longleftrightarrow> dget item ''integrity_status'' = JStr ''INVALIDATED''"

definition active_pair :: "db \<Rightarrow> dict \<Rightarrow> bool" where
  "active_pair d item \<longleftrightarrow> list_ex (\<lambda>l. pc_tracking_enabled l \<and> JInt (pc_project_id l) = dget item ''project_id'' \<and>
     JInt (pc_car_id l) = dget item ''car_id'') (project_cars d)"

definition favorite_pair :: "db \<Rightarrow> dict \<Rightarrow> bool" where
  "favorite_pair d item \<longleftrightarrow> list_ex (\<lambda>l. pc_favorite l \<and> pc_tracking_enabled l \<and>
     JInt (pc_project_id l) = dget item ''project_id'' \<and> JInt (pc_car_id l) = dget item ''car_id'') (project_cars d)"

definition project_by_json :: "db \<Rightarrow> json \<Rightarrow> project option" where
  "project_by_json d i = first_row (\<lambda>p. JInt (p_id p) = i) (projects d)"

text \<open>An entry is shown unless it is invalidated, a mere relisting, or names an existing project that no longer
  tracks the car.\<close>

definition shown_item :: "db \<Rightarrow> dict \<Rightarrow> bool" where
  "shown_item d item \<longleftrightarrow> \<not> invalidated_item item \<and> dget item ''change'' \<noteq> JStr ''RELISTED'' \<and>
     (\<not> truthy (dget item ''project_id'') \<or> \<not> truthy (dget item ''car_id'') \<or>
      project_by_json d (dget item ''project_id'') = None \<or> active_pair d item)"

definition car_by_json :: "db \<Rightarrow> json \<Rightarrow> car option" where
  "car_by_json d i = (if truthy i then first_row (\<lambda>c. JInt (c_id c) = i) (cars d) else None)"

definition report_image :: "(string \<Rightarrow> string option) \<Rightarrow> db \<Rightarrow> json \<Rightarrow> json" where
  "report_image below d i = (case i of JInt c \<Rightarrow> if c = 0 then JNull else main_image below d c | _ \<Rightarrow> JNull)"

definition report_item :: "(string \<Rightarrow> string option) \<Rightarrow> db \<Rightarrow> dict \<Rightarrow> dict" where
  "report_item below d item =
     dmerge item
       [(''project_name'', py_or (case project_by_json d (dget item ''project_id'') of
           Some p \<Rightarrow> JStr (p_name p) | None \<Rightarrow> JNull) (dget item ''project_name'')),
        (''registration_number'', py_or (dget item ''registration_number'')
           (case car_by_json d (dget item ''car_id'') of
              Some c \<Rightarrow> dget (details_of c) ''registration_number'' | None \<Rightarrow> JNull)),
        (''image'', report_image below d (dget item ''car_id'')),
        (''favorite'', JBool (favorite_pair d item))]"

definition report_priority :: "dict \<Rightarrow> int" where
  "report_priority item =
     (if dget item ''change'' = JStr ''NEW'' then 0
      else if truthy (dget item ''favorite'') then 1
      else if dget item ''change'' \<in> {JStr ''PRICE_DROP'', JStr ''PRICE_INCREASE''} then 2
      else if dget item ''change'' = JStr ''MATERIAL_UPDATE'' then 3
      else 9)"

definition shown_report :: "(string \<Rightarrow> string option) \<Rightarrow> db \<Rightarrow> dict \<Rightarrow> dict list" where
  "shown_report below d payload =
     dedupe_report report_priority
       (map (\<lambda>i. report_change_details d (report_item below d i)) (filter (shown_item d) (report_items payload)))"

definition count_changes :: "string list \<Rightarrow> dict list \<Rightarrow> json" where
  "count_changes kinds report = JInt (int (length (filter (\<lambda>i. dget i ''change'' \<in> JStr ` set kinds) report)))"

definition shown_summary :: "dict list \<Rightarrow> dict \<Rightarrow> dict" where
  "shown_summary report payload =
     (if truthy (dget payload ''summary'')
      then dset payload ''summary'' (JObj (dmerge (jobj (dget payload ''summary''))
        [(''changed'', JInt (int (length report))), (''new'', count_changes [''NEW''] report),
         (''price_changes'', count_changes [''PRICE_DROP'', ''PRICE_INCREASE''] report)]))
      else payload)"

definition failed_project_runs :: "db \<Rightarrow> int \<Rightarrow> (project_scan_run \<times> project) list" where
  "failed_project_runs d i =
     List.map_filter (\<lambda>x. if psr_scan_run_id x = i \<and> psr_status x = FAILED
       then map_option (Pair x) (first_row (\<lambda>p. p_id p = psr_project_id x) (projects d)) else None) (project_scan_runs d)"

definition legacy_code :: "project_scan_run \<Rightarrow> string \<Rightarrow> string" where
  "legacy_code x technical =
     (if infix_of ''ERR_TIMED_OUT'' technical \<or> infix_of ''Timeout'' technical then ''TIMEOUT''
      else str_or (psr_error_code x) ''READ_ERROR'')"

definition legacy_failure :: "scan_run \<Rightarrow> string list \<Rightarrow> project_scan_run \<times> project \<Rightarrow> json" where
  "legacy_failure r names row =
     (let technical = legacy_project_error (r_error r) (p_name (snd row)) names
      in JObj [(''scope'', JStr ''PROJECT''), (''project_id'', JInt (p_id (snd row))),
           (''project_name'', JStr (p_name (snd row))), (''car_id'', JNull), (''encar_id'', JNull),
           (''code'', JStr (legacy_code (fst row) technical)), (''technical'', JStr technical)])"

definition shown_failures :: "db \<Rightarrow> scan_run \<Rightarrow> json list" where
  "shown_failures d r =
     (let failures = jlist (dget (payload_of r) ''failures''); rows = failed_project_runs d (r_id r)
      in if failures \<noteq> [] then failures else map (legacy_failure r (map (\<lambda>x. p_name (snd x)) rows)) rows)"

record scan_view =
  sv_run :: scan_run
  sv_payload :: dict

definition scan_out :: "(string \<Rightarrow> string option) \<Rightarrow> db \<Rightarrow> scan_run \<Rightarrow> scan_view" where
  "scan_out below d r =
     (let payload = payload_of r; report = shown_report below d payload;
          counted = dset payload ''invalidated_report_count''
            (JInt (int (length (filter invalidated_item (report_items payload)))));
          shown = shown_summary report (dset counted ''report'' (JList (map JObj report)))
      in \<lparr>sv_run = r, sv_payload = dset shown ''failures'' (JList (shown_failures d r))\<rparr>)"

definition scans :: "(string \<Rightarrow> string option) \<Rightarrow> time \<Rightarrow> request \<Rightarrow> (db, scan_view list) handler" where
  "scans below t rq = with_user t rq (\<lambda>u s d.
     (Inr (map (scan_out below d) (take 100 (newest_first r_created_at
        (filter (\<lambda>r. r_owner_id r = u_id u) (scan_runs d))))), d))"

definition scan_request :: "(string \<Rightarrow> string option) \<Rightarrow> time \<Rightarrow> request \<Rightarrow> int \<Rightarrow> (db, scan_view) handler" where
  "scan_request below t rq i = with_user t rq (\<lambda>u s d.
     case owned_run d i (u_id u) of
       None \<Rightarrow> (Inl scan_not_found, d)
     | Some r \<Rightarrow> (Inr (scan_out below d r), d))"

section \<open>What a shown report contains\<close>

interpretation shown_ranking: report_ranking report_priority
  by unfold_locales (simp add: report_priority_def)

lemma report_item_dget [simp]:
  "k \<notin> {''project_name'', ''registration_number'', ''image'', ''favorite''} \<Longrightarrow> dget (report_item below d i) k = dget i k"
  by (simp add: report_item_def dget_dmerge)

lemma details_by_time_dget [simp]:
  "k \<notin> {''changes'', ''details_unavailable''} \<Longrightarrow> dget (details_by_time d i) k = dget i k"
  by (auto simp: details_by_time_def unavailable_details_def Let_def split: list.split bool.split json.split)

lemma report_change_details_dget [simp]:
  "k \<notin> {''changes'', ''details_unavailable''} \<Longrightarrow> dget (report_change_details d i) k = dget i k"
  by (auto simp: report_change_details_def Let_def split: option.split)

end
