(* ===== verification/QueueWork.thy ===== *)
theory QueueWork
  imports ScanApi
begin

text \<open>
  No work is queued twice: the queue of \<^verbatim>\<open>job_queue.py\<close>, the timers of \<^verbatim>\<open>worker.enqueue_scheduled\<close> and the scan
  requests of \<^verbatim>\<open>main.py\<close> together never let two open runs of one account list the same project or the same
  car. The contract \<open>shrinking_operation\<close> covers every operation that only updates runs; queueing is treated
  by itself.
\<close>

section \<open>Disjoint work\<close>

abbreviation open_run :: "scan_run \<Rightarrow> bool" where
  "open_run r \<equiv> open_status (r_status r)"

definition projects_of_run :: "scan_run \<Rightarrow> json set" where
  "projects_of_run r = id_set (payload_of r) ''project_ids''"

definition cars_of_run :: "scan_run \<Rightarrow> json set" where
  "cars_of_run r = id_set (payload_of r) ''car_ids''"

definition compatible :: "scan_run \<Rightarrow> scan_run \<Rightarrow> bool" where
  "compatible a b \<longleftrightarrow> (open_run a \<and> open_run b \<and> r_owner_id a = r_owner_id b \<longrightarrow>
     projects_of_run a \<inter> projects_of_run b = {} \<and> cars_of_run a \<inter> cars_of_run b = {})"

definition disjoint_work :: "db \<Rightarrow> bool" where
  "disjoint_work d \<longleftrightarrow> distinct (map r_id (scan_runs d)) \<and> sorted_wrt compatible (scan_runs d)"

text \<open>A run that keeps its owner and takes on nothing new.\<close>

definition shrinks :: "scan_run \<Rightarrow> scan_run \<Rightarrow> bool" where
  "shrinks r r' \<longleftrightarrow> r_id r' = r_id r \<and> r_owner_id r' = r_owner_id r \<and>
     (open_run r' \<longrightarrow> open_run r \<and> projects_of_run r' \<subseteq> projects_of_run r \<and> cars_of_run r' \<subseteq> cars_of_run r)"

lemma shrinks_refl [simp]: "shrinks r r"
  by (simp add: shrinks_def)

lemma compatible_shrinks: "compatible a b \<Longrightarrow> shrinks a a' \<Longrightarrow> shrinks b b' \<Longrightarrow> compatible a' b'"
  by (auto simp: compatible_def shrinks_def)

lemma sorted_wrt_shrinks:
  assumes "list_all2 shrinks xs ys" and "sorted_wrt compatible xs"
  shows "sorted_wrt compatible ys"
  unfolding sorted_wrt_iff_nth_less
proof (intro allI impI)
  fix i j assume ij: "i < j" "j < length ys"
  then have "compatible (xs ! i) (xs ! j)"
    using assms by (simp add: sorted_wrt_iff_nth_less list_all2_lengthD [symmetric])
  then show "compatible (ys ! i) (ys ! j)"
    using ij assms(1) by (elim compatible_shrinks) (simp_all add: list_all2_conv_all_nth)
qed

lemma map_id_shrinks: "list_all2 shrinks xs ys \<Longrightarrow> map r_id ys = map r_id xs"
  by (induction rule: list_all2_induct) (simp_all add: shrinks_def)

lemma list_all2_update_where: "(\<And>r. r \<in> set rows \<Longrightarrow> P r \<Longrightarrow> shrinks r (f r)) \<Longrightarrow> list_all2 shrinks rows (update_where P f rows)"
  by (induction rows) auto

definition nothing_open :: "db \<Rightarrow> bool" where
  "nothing_open d \<longleftrightarrow> list_all (\<lambda>r. \<not> open_run r) (scan_runs d)"

lemma nothing_open_shrinks:
  "list_all2 shrinks xs ys \<Longrightarrow> list_all (\<lambda>r. \<not> open_run r) xs \<Longrightarrow> list_all (\<lambda>r. \<not> open_run r) ys"
  by (induction rule: list_all2_induct) (auto simp: shrinks_def)

locale shrinking_operation =
  fixes op :: "db \<Rightarrow> db"
  assumes shrinks: "list_all2 shrinks (scan_runs d) (scan_runs (op d))"
begin

lemma work_kept: "disjoint_work d \<Longrightarrow> disjoint_work (op d)"
  using sorted_wrt_shrinks [OF shrinks, of d] map_id_shrinks [OF shrinks, of d] by (simp add: disjoint_work_def)

lemma nothing_opened: "nothing_open d \<Longrightarrow> nothing_open (op d)"
  using nothing_open_shrinks [OF shrinks [of d]] by (simp add: nothing_open_def)

end

text \<open>Runs whose lists of projects and cars are the same.\<close>

definition same_lists :: "scan_run \<Rightarrow> scan_run \<Rightarrow> bool" where
  "same_lists r r' \<longleftrightarrow> dget (payload_of r') ''project_ids'' = dget (payload_of r) ''project_ids'' \<and>
     dget (payload_of r') ''car_ids'' = dget (payload_of r) ''car_ids''"

lemma shrinks_same:
  "r_id r' = r_id r \<Longrightarrow> r_owner_id r' = r_owner_id r \<Longrightarrow> (open_run r' \<Longrightarrow> open_run r) \<Longrightarrow> same_lists r r' \<Longrightarrow> shrinks r r'"
  by (simp add: shrinks_def same_lists_def projects_of_run_def cars_of_run_def id_set_def)

lemma shrinks_closed: "r_id r' = r_id r \<Longrightarrow> r_owner_id r' = r_owner_id r \<Longrightarrow> \<not> open_run r' \<Longrightarrow> shrinks r r'"
  by (simp add: shrinks_def)

lemma payload_of_update [simp]: "payload_of (r\<lparr>r_payload := Some p\<rparr>) = p"
  by (simp add: payload_of_def)

section \<open>The operations of the queue\<close>

lemma detach_job_shrinks: "detachable owner r \<Longrightarrow> shrinks r (detach_job pid t r)"
  by (auto simp: shrinks_def detach_job_def Let_def detachable_def open_status_def projects_of_run_def cars_of_run_def
      id_set_def payload_of_def project_ids_of_def dget_dmerge)

interpretation detach: shrinking_operation "\<lambda>d. snd (detach_project_from_active_jobs owner pid t d)"
  by unfold_locales
    (simp add: detach_project_from_active_jobs_def list_all2_update_where detach_job_shrinks)

interpretation recover: shrinking_operation "\<lambda>d. snd (recover_interrupted_jobs reason t d)"
  by unfold_locales
    (auto simp: recover_interrupted_jobs_def Let_def interrupt_job_def open_status_def
      intro!: list_all2_update_where shrinks_closed)

lemma shutdown_job_shrinks: "r_status r \<in> {QUEUED, RUNNING} \<Longrightarrow> shrinks r (shutdown_job t r)"
  by (rule shrinks_same) (auto simp: shutdown_job_def Let_def open_status_def same_lists_def payload_of_def dget_dmerge)

interpretation shutdown: shrinking_operation "\<lambda>d. snd (request_shutdown_cancellation t d)"
  by unfold_locales
    (simp add: request_shutdown_cancellation_def Let_def list_all2_update_where shutdown_job_shrinks)

interpretation sleep: shrinking_operation "\<lambda>d. snd (request_sleep_interruption t d)"
  by unfold_locales
    (auto simp: request_sleep_interruption_def Let_def sleep_job_def open_status_def same_lists_def payload_of_def
      dget_dmerge intro!: list_all2_update_where shrinks_same)

interpretation heartbeat: shrinking_operation "\<lambda>d. snd (heartbeat_job j w t d)"
  by unfold_locales
    (auto simp: heartbeat_job_def Let_def same_lists_def payload_of_def intro!: list_all2_update_where shrinks_same)

interpretation claim: shrinking_operation "\<lambda>d. snd (claim_next_job m w t d)"
  by unfold_locales
    (auto simp: claim_next_job_def start_claimed_run_def same_lists_def payload_of_def open_status_def list_all2_refl
      intro!: list_all2_update_where shrinks_same split: list.split)

interpretation catch_up: shrinking_operation "\<lambda>d. snd (prepare_overdue_scheduler_catch_up t forced d)"
  by unfold_locales (simp add: prepare_overdue_scheduler_catch_up_def list_all2_refl)

lemma cancel_run_shrinks: "r_status r \<in> {QUEUED, RUNNING} \<Longrightarrow> shrinks r (cancel_run t r)"
  by (rule shrinks_same)
    (auto simp: cancel_run_def Let_def open_status_def same_lists_def payload_of_def cancelled_result_def dget_dmerge)

lemma merge_shrinks: "shrinks r (merge_into_manual t req r)"
  by (auto simp: shrinks_def merge_into_manual_def Let_def open_status_def projects_of_run_def cars_of_run_def
      id_set_def payload_of_def project_ids_of_def)

interpretation merge: shrinking_operation "merged_queue t kind payload owner"
  by unfold_locales
    (auto simp: merged_queue_def merge_automatic_runs_def list_all2_refl merge_shrinks intro!: list_all2_update_where)

section \<open>Queueing\<close>

lemma scan_conflict_None:
  "scan_conflict rp rc rs = None \<longleftrightarrow>
     (\<forall>r \<in> set rs. rp \<inter> projects_of_run r = {} \<and> rc \<inter> cars_of_run r = {})"
  by (induction rs) (auto simp: projects_of_run_def cars_of_run_def)

lemma disjoint_work_runs: "scan_runs d' = scan_runs d \<Longrightarrow> disjoint_work d' = disjoint_work d"
  by (simp add: disjoint_work_def)

lemma work_add_run:
  assumes "disjoint_work d"
    and "\<And>r. r \<in> set (open_runs d owner) \<Longrightarrow> id_set payload ''project_ids'' \<inter> projects_of_run r = {} \<and>
      id_set payload ''car_ids'' \<inter> cars_of_run r = {}"
  shows "disjoint_work (add_run owner kind payload t d)"
  using assms
  using fresh_id_notin [of "map r_id (scan_runs d)"]
  by (fastforce simp: disjoint_work_def add_run_def sorted_wrt_append compatible_def open_runs_def projects_of_run_def
      cars_of_run_def payload_of_def)

lemma work_enqueue: "disjoint_work d \<Longrightarrow> disjoint_work (snd (enqueue m ent t kind payload owner d))"
proof -
  assume d: "disjoint_work d"
  have "disjoint_work (audit a (add_run owner kind payload t (merged_queue t kind payload owner d)))"
    if "scan_conflict (id_set payload ''project_ids'') (id_set payload ''car_ids'')
      (open_runs (merged_queue t kind payload owner d) owner) = None" for a
    using work_add_run [OF merge.work_kept [OF d]] that
    by (simp add: disjoint_work_def audit_def scan_conflict_None)
  with d show ?thesis by (simp add: enqueue_def Let_def split: option.split)
qed

lemma work_enqueue_setting: "disjoint_work d \<Longrightarrow> disjoint_work (enqueue_setting e now s d)"
  unfolding disjoint_work_def enqueue_setting_runs
  using fresh_id_notin [of "map r_id (scan_runs d)"]
  by (auto simp: sorted_wrt_append compatible_def fires_def open_runs_def filter_empty_conv automatic_run_def add_run_def)

lemma work_tick: "disjoint_work d \<Longrightarrow> disjoint_work (enqueue_scheduled m e now d)"
proof -
  have "disjoint_work d \<Longrightarrow> disjoint_work (foldl (\<lambda>d s. enqueue_setting e now s d) d ss)" for ss
    by (induction ss arbitrary: d) (simp_all add: work_enqueue_setting)
  then show "disjoint_work d \<Longrightarrow> disjoint_work (enqueue_scheduled m e now d)" by (simp add: enqueue_scheduled_def)
qed

section \<open>Requests\<close>

interpretation work: request_invariant disjoint_work
  by unfold_locales (simp add: disjoint_work_def touch_session_def set_user_def set_session_def)

lemma work_cancel: "disjoint_work d \<Longrightarrow> disjoint_work (snd (cancel_scan ev t rq i d))"
  unfolding cancel_scan_def
proof (rule work.require_csrf_keeps, assumption)
  fix u :: user and s d assume d: "disjoint_work d"
  have "disjoint_work (audit a (set_run i (cancel_run t) d))"
    if r: "owned_run d i (u_id u) = Some r" "r_status r \<in> {QUEUED, RUNNING}" for a r
  proof -
    have "x = r" if "x \<in> set (scan_runs d)" "r_id x = i" for x
      using that r(1) d by (auto simp: owned_run_def disjoint_work_def distinct_map dest!: first_row_Some inj_onD)
    then have l: "list_all2 shrinks (scan_runs d) (update_where (\<lambda>x. r_id x = i) (cancel_run t) (scan_runs d))"
      using r(2) by (intro list_all2_update_where cancel_run_shrinks) auto
    show ?thesis
      using sorted_wrt_shrinks [OF l] map_id_shrinks [OF l] d by (simp add: disjoint_work_def set_run_def audit_def)
  qed
  with d show "disjoint_work (snd (cancel_owned t i u s d))"
    by (auto simp: cancel_owned_def split: option.split)
qed

lemma work_requests:
  "disjoint_work d \<Longrightarrow> disjoint_work (snd (scan_projects ev m ent t rq ids d))"
  "disjoint_work d \<Longrightarrow> disjoint_work (snd (scan_cars ev m ent t rq ids project d))"
  "disjoint_work d \<Longrightarrow> disjoint_work (snd (refresh_car_request ev m ent t rq c project d))"
  unfolding scan_projects_def scan_cars_def refresh_car_request_def
  by (rule work.require_csrf_keeps; simp add: queue_projects_def queue_cars_def queue_refresh_def Let_def work_enqueue)+

section \<open>Sequences of operations\<close>

text \<open>Every operation on the queue outside a running scan: requests of users, timer ticks, the worker's claims and
  heartbeats, project deletions, and the restarts, shutdowns and sleeps of the desktop shell.\<close>

inductive queue_step :: "env \<Rightarrow> db \<Rightarrow> db \<Rightarrow> bool" for ev where
  scan: "queue_step ev d (snd (scan_projects ev m ent t rq ids d))"
| scan_cars: "queue_step ev d (snd (scan_cars ev m ent t rq ids project d))"
| refresh: "queue_step ev d (snd (refresh_car_request ev m ent t rq c project d))"
| cancel: "queue_step ev d (snd (cancel_scan ev t rq i d))"
| tick: "queue_step ev d (enqueue_scheduled m e t d)"
| catch_up: "queue_step ev d (snd (prepare_overdue_scheduler_catch_up t forced d))"
| claim: "queue_step ev d (snd (claim_next_job m w t d))"
| heartbeat: "queue_step ev d (snd (heartbeat_job j w t d))"
| detach: "queue_step ev d (snd (detach_project_from_active_jobs owner pid t d))"
| recover: "queue_step ev d (snd (recover_interrupted_jobs reason t d))"
| shutdown: "queue_step ev d (snd (request_shutdown_cancellation t d))"
| sleep: "queue_step ev d (snd (request_sleep_interruption t d))"

lemma queue_step_work: "queue_step ev d d' \<Longrightarrow> disjoint_work d \<Longrightarrow> disjoint_work d'"
  by (induction rule: queue_step.induct)
    (simp_all add: work_requests work_cancel work_tick catch_up.work_kept claim.work_kept heartbeat.work_kept
      detach.work_kept recover.work_kept shutdown.work_kept sleep.work_kept)

text \<open>However requests, timer ticks, claims, project deletions, restarts and sleeps interleave, two different
  open runs of one account never list the same project and never list the same car.\<close>

theorem no_work_queued_twice:
  assumes "(queue_step ev)\<^sup>*\<^sup>* d d'" and "disjoint_work d"
    and "a \<in> set (scan_runs d')" "b \<in> set (scan_runs d')" "r_id a \<noteq> r_id b"
    and "open_run a" "open_run b" "r_owner_id a = r_owner_id b"
  shows "projects_of_run a \<inter> projects_of_run b = {} \<and> cars_of_run a \<inter> cars_of_run b = {}"
proof -
  from assms(1,2) have "disjoint_work d'" by (induction rule: rtranclp_induct) (auto intro: queue_step_work)
  then have pairs: "sorted_wrt compatible (scan_runs d')" by (simp add: disjoint_work_def)
  obtain i j where ij: "i < length (scan_runs d')" "j < length (scan_runs d')" "scan_runs d' ! i = a" "scan_runs d' ! j = b"
    using assms(3,4) by (auto simp: in_set_conv_nth)
  then have "i \<noteq> j" using assms(5) by auto
  then have "compatible a b \<or> compatible b a"
    using pairs ij by (metis linorder_neqE_nat sorted_wrt_nth_less)
  then show ?thesis using assms(6-8) by (auto simp: compatible_def)
qed

section \<open>Samples\<close>

definition queued_db :: db where
  "queued_db = car_db\<lparr>scan_runs := [
     sample_run 1 7 QUEUED 20 [(''project_ids'', JList [JInt 4, JInt 9]), (''trigger'', JStr ''AUTOMATIC'')],
     sample_run 2 7 RUNNING 10 [(''car_ids'', JList [JInt 3])]]\<rparr>"

lemma queued_db_ok: "disjoint_work queued_db"
  by (simp add: disjoint_work_def queued_db_def sample_run_def compatible_def projects_of_run_def cars_of_run_def
      id_set_def payload_of_def dget_def)

text \<open>A manual scan of project 4 takes it out of the waiting automatic run.\<close>

lemma manual_takes_over:
  "enqueue False None 30 ''PROJECTS'' [(''project_ids'', JList [JInt 4]), (''trigger'', JStr ''MANUAL'')] 7 queued_db =
     (Inr (3, QUEUED), snd (enqueue False None 30 ''PROJECTS''
       [(''project_ids'', JList [JInt 4]), (''trigger'', JStr ''MANUAL'')] 7 queued_db)) \<and>
   map projects_of_run (scan_runs (snd (enqueue False None 30 ''PROJECTS''
       [(''project_ids'', JList [JInt 4]), (''trigger'', JStr ''MANUAL'')] 7 queued_db))) = [{JInt 9}, {}, {JInt 4}]"
  by (simp add: enqueue_def merged_queue_def merge_automatic_runs_def merge_into_manual_def queued_db_def sample_run_def
      open_status_def open_runs_def id_set_def payload_of_def project_ids_of_def automatic_payload_def add_run_def
      audit_def projects_of_run_def Let_def)

definition two_runs :: "scan_run \<times> scan_run" where
  "two_runs = (sample_run 1 7 QUEUED 20 [(''project_ids'', JList [JInt 4, JInt 9]), (''trigger'', JStr ''AUTOMATIC'')],
     (sample_run 2 7 RUNNING 10 [(''car_ids'', JList [JInt 3])])\<lparr>r_heartbeat_at := Some 30, r_worker_id := Some ''w''\<rparr>)"

lemma no_work_queued_twice_witness:
  "cars_of_run (fst two_runs) \<inter> cars_of_run (snd two_runs) = {} \<and>
   scan_runs (snd (heartbeat_job 2 ''w'' 30
     (queued_db\<lparr>scan_runs := [fst two_runs, (snd two_runs)\<lparr>r_heartbeat_at := None\<rparr>]\<rparr>))) = [fst two_runs, snd two_runs]"
proof -
  let ?d = "queued_db\<lparr>scan_runs := [fst two_runs, (snd two_runs)\<lparr>r_heartbeat_at := None\<rparr>]\<rparr>"
  let ?d' = "snd (heartbeat_job 2 ''w'' 30 ?d)"
  have d': "scan_runs ?d' = [fst two_runs, snd two_runs]"
    by (simp add: heartbeat_job_def two_runs_def sample_run_def active_status_def Let_def)
  have ok: "disjoint_work ?d"
    by (simp add: disjoint_work_def two_runs_def sample_run_def compatible_def projects_of_run_def cars_of_run_def
        id_set_def payload_of_def dget_def)
  have step: "(queue_step sample_env)\<^sup>*\<^sup>* ?d ?d'" by (rule r_into_rtranclp, rule queue_step.heartbeat)
  have runs: "fst two_runs \<in> set (scan_runs ?d')" "snd two_runs \<in> set (scan_runs ?d')" by (simp_all add: d')
  have "r_id (fst two_runs) \<noteq> r_id (snd two_runs)" "open_run (fst two_runs)" "open_run (snd two_runs)"
    "r_owner_id (fst two_runs) = r_owner_id (snd two_runs)"
    by (simp_all add: two_runs_def sample_run_def open_status_def)
  from no_work_queued_twice [OF step ok runs this]
  show ?thesis by (simp add: d')
qed

end
