(* ===== verification/SearchUrls.thy ===== *)
theory SearchUrls
  imports ExternalLinks PyStd
begin

text \<open>
  The addresses of Encar searches, \<^verbatim>\<open>backend/app/scanner.py\<close> (\<^verbatim>\<open>extract_price_filter\<close>, \<^verbatim>\<open>apply_price_filter\<close>,
  \<^verbatim>\<open>search_page_number\<close>, \<^verbatim>\<open>search_url_for_page\<close>): reading, setting and removing the price condition inside the
  search expression, and the page. An address is the record of its parts; a fragment that is an exclamation mark
  with a quoted JSON object is \<open>State\<close> of that object, and the query is its list of pairs.
\<close>

section \<open>Addresses\<close>

datatype fragment = Fragment string | State dict

record search_url =
  su_scheme :: string
  su_netloc :: string
  su_path :: string
  su_query :: "(string \<times> string) list"
  su_fragment :: fragment

definition fragment_state :: "search_url \<Rightarrow> dict option" where
  "fragment_state u = (case su_fragment u of State d \<Rightarrow> Some d | Fragment _ \<Rightarrow> None)"

definition ENCAR_PRICE_UNIT :: int where "ENCAR_PRICE_UNIT = 10000"
definition ENCAR_MAX_PRICE :: int where "ENCAR_MAX_PRICE = 100000000"

definition validate_price_bound :: "int option \<Rightarrow> string + int option" where
  "validate_price_bound v =
     (case v of
        None \<Rightarrow> Inr None
      | Some i \<Rightarrow>
          if \<not> (0 \<le> i \<and> i \<le> ENCAR_MAX_PRICE) then Inl ''Encar price is outside the supported range''
          else if i mod ENCAR_PRICE_UNIT \<noteq> 0 then Inl ''Encar price must use steps of 10,000 KRW''
          else Inr (Some i))"

section \<open>The price condition in the expression\<close>

definition numeric :: "char \<Rightarrow> bool" where
  "numeric c \<longleftrightarrow> is_digit c \<or> c = CHR '',''"

definition PRICE_OPEN :: string where "PRICE_OPEN = ''Price.range(''"

fun after_prefix :: "string \<Rightarrow> string \<Rightarrow> string option" where
  "after_prefix [] s = Some s"
| "after_prefix (c # l) [] = None"
| "after_prefix (c # l) (d # s) = (if c = d then after_prefix l s else None)"

text \<open>The regular expression \<^verbatim>\<open>_PRICE_RANGE_RE\<close> at the start of a text: the two bounds and what follows. The
  characters of a bound are no dot and no parenthesis, so there is one way to match.\<close>

definition price_at :: "string \<Rightarrow> (string \<times> string \<times> string) option" where
  "price_at s =
     (case after_prefix PRICE_OPEN s of
        None \<Rightarrow> None
      | Some r \<Rightarrow>
          (case after_prefix ''..'' (dropWhile numeric r) of
             None \<Rightarrow> None
           | Some r2 \<Rightarrow>
               (case after_prefix '')'' (dropWhile numeric r2) of
                  None \<Rightarrow> None
                | Some r3 \<Rightarrow> Some (takeWhile numeric r, takeWhile numeric r2, r3))))"

text \<open>The first match of \<^verbatim>\<open>finditer\<close>: what precedes it, its bounds, what follows; the next one is in what follows.\<close>

fun find_price :: "string \<Rightarrow> (string \<times> string \<times> string \<times> string) option" where
  "find_price [] = None"
| "find_price (c # s) =
     (case price_at (c # s) of
        Some (a, b, r) \<Rightarrow> Some ([], a, b, r)
      | None \<Rightarrow> (case find_price s of None \<Rightarrow> None | Some (p, a, b, r) \<Rightarrow> Some (c # p, a, b, r)))"

definition price_condition :: "string \<Rightarrow> string \<Rightarrow> string" where
  "price_condition a b = PRICE_OPEN @ a @ ''..'' @ b @ '')''"

text \<open>\<^verbatim>\<open>int(raw.replace(",", ""))\<close> and \<^verbatim>\<open>f"{n:,}"\<close>.\<close>

definition digit_value :: "char \<Rightarrow> int" where
  "digit_value c = int (of_char c) - 48"

definition read_digits :: "string \<Rightarrow> int" where
  "read_digits s = foldl (\<lambda>n c. 10 * n + digit_value c) 0 s"

function show_commas :: "nat \<Rightarrow> string" where
  "show_commas n = (if n < 1000 then show_nat n else show_commas (n div 1000) @ '','' @ show_pad 3 (int (n mod 1000)))"
  by pat_completeness auto

termination by (relation "measure id") auto

declare show_commas.simps [simp del]

definition parse_bound :: "string \<Rightarrow> int option" where
  "parse_bound raw =
     (let s = filter (\<lambda>c. c \<noteq> CHR '','') raw in if s = [] then None else Some (read_digits s * ENCAR_PRICE_UNIT))"

definition show_bound :: "int option \<Rightarrow> string" where
  "show_bound v = (case v of None \<Rightarrow> [] | Some i \<Rightarrow> show_commas (nat (i div ENCAR_PRICE_UNIT)))"

definition invalid_range :: "int option \<Rightarrow> int option \<Rightarrow> bool" where
  "invalid_range lo hi = (case (lo, hi) of (Some a, Some b) \<Rightarrow> b < a | _ \<Rightarrow> False)"

definition search_action :: "search_url \<Rightarrow> string + dict \<times> string" where
  "search_action u =
     (case fragment_state u of
        Some st \<Rightarrow> (case dget st ''action'' of
            JStr a \<Rightarrow> Inr (st, a) | _ \<Rightarrow> Inl ''Encar search URL does not expose filter state'')
      | None \<Rightarrow> Inl ''Encar search URL does not expose filter state'')"

definition multiple_filters :: string where
  "multiple_filters = ''Encar search URL contains multiple price filters''"

definition extract_price_filter :: "search_url \<Rightarrow> string + int option \<times> int option" where
  "extract_price_filter u =
     and_then (search_action u) (\<lambda>(st, action).
       case find_price action of
         None \<Rightarrow> Inr (None, None)
       | Some (p, a, b, r) \<Rightarrow>
           if find_price r \<noteq> None then Inl multiple_filters
           else and_then (validate_price_bound (parse_bound a)) (\<lambda>lo.
                and_then (validate_price_bound (parse_bound b)) (\<lambda>hi.
                if invalid_range lo hi then Inl ''Encar price range is invalid'' else Inr (lo, hi))))"

definition text_ends :: "string \<Rightarrow> string \<Rightarrow> bool" where
  "text_ends s t \<longleftrightarrow> length t \<le> length s \<and> drop (length s - length t) s = t"

definition text_begins :: "string \<Rightarrow> string \<Rightarrow> bool" where
  "text_begins s t \<longleftrightarrow> after_prefix t s \<noteq> None"

text \<open>Removing the condition between \<open>p\<close> and \<open>r\<close> with one separator beside it.\<close>

definition without_price :: "string \<Rightarrow> string \<Rightarrow> string + string" where
  "without_price p r =
     map_sum id (\<lambda>a. if a = ''(And..)'' then ''(And.)'' else a)
      (if text_begins r ''._.'' then Inr (p @ drop 3 r)
       else if text_begins r ''_.'' then Inr (p @ drop 2 r)
       else if text_ends p ''._.'' then Inr (take (length p - 3) p @ r)
       else if text_ends p ''_.'' then Inr (take (length p - 2) p @ r)
       else if text_ends p ''And.'' then Inr (p @ r)
       else Inl ''Encar search URL has an unsupported price condition'')"

definition with_price :: "string \<Rightarrow> string \<Rightarrow> string + string" where
  "with_price condition action =
     (if \<not> text_ends action '')'' then Inl ''Encar search URL has an unsupported action''
      else Inr (butlast action @ (if action = ''(And.)'' then [] else ''_.'') @ condition @ ''.)''))"

definition new_action :: "string option \<Rightarrow> string \<Rightarrow> string + string" where
  "new_action condition action =
     (case find_price action of
        Some (p, a, b, r) \<Rightarrow>
          if find_price r \<noteq> None then Inl multiple_filters
          else (case condition of Some c \<Rightarrow> Inr (p @ c @ r) | None \<Rightarrow> without_price p r)
      | None \<Rightarrow> (case condition of Some c \<Rightarrow> with_price c action | None \<Rightarrow> Inr action))"

definition toggles_of :: "dict \<Rightarrow> dict" where
  "toggles_of st = (case dget st ''toggle'' of JObj d \<Rightarrow> d | _ \<Rightarrow> [])"

definition apply_price_filter :: "int option \<Rightarrow> int option \<Rightarrow> search_url \<Rightarrow> string + search_url" where
  "apply_price_filter minimum maximum u =
     and_then (validate_price_bound minimum) (\<lambda>lo. and_then (validate_price_bound maximum) (\<lambda>hi.
       if invalid_range lo hi then Inl ''Encar price range is invalid''
       else and_then (search_action u) (\<lambda>(st, action).
         let condition = (if lo \<noteq> None \<or> hi \<noteq> None then Some (price_condition (show_bound lo) (show_bound hi)) else None)
         in and_then (new_action condition action) (\<lambda>action'.
            Inr (u\<lparr>su_fragment := State (dmerge st
              [(''action'', JStr action'),
               (''toggle'', JObj (dset (toggles_of st) ''4'' (JInt (if condition = None then 0 else 1)))),
               (''page'', JInt 1), (''cursor'', JNull)])\<rparr>)))))"

section \<open>Pages\<close>

text \<open>\<^verbatim>\<open>int(x)\<close>, which allows single underscores between digits; \<open>None\<close> when it raises.\<close>

definition grouped_digits :: "string \<Rightarrow> bool" where
  "grouped_digits s \<longleftrightarrow> s \<noteq> [] \<and> list_all (\<lambda>c. is_digit c \<or> c = CHR ''_'') s \<and> is_digit (hd s) \<and> is_digit (last s) \<and>
     \<not> list_ex (\<lambda>(c, d). c = CHR ''_'' \<and> d = CHR ''_'') (zip s (tl s))"

definition read_grouped :: "string \<Rightarrow> int option" where
  "read_grouped s = (if grouped_digits s then Some (read_digits (filter is_digit s)) else None)"

definition int_of_text :: "string \<Rightarrow> int option" where
  "int_of_text t =
     (case strip t of
        [] \<Rightarrow> None
      | c # d \<Rightarrow>
          if c = CHR ''-'' then map_option uminus (read_grouped d)
          else if c = CHR ''+'' then read_grouped d
          else read_grouped (c # d))"

definition int_of_json :: "json \<Rightarrow> int option" where
  "int_of_json j =
     (case j of JInt i \<Rightarrow> Some i | JBool b \<Rightarrow> Some (of_bool b) | JStr s \<Rightarrow> int_of_text s
      | JDec i \<Rightarrow> Some (sgn i * (\<bar>i\<bar> div 100)) | _ \<Rightarrow> None)"

definition search_page_number :: "search_url \<Rightarrow> int option" where
  "search_page_number u =
     (case fragment_state u of
        Some st \<Rightarrow> map_option (max 1) (int_of_json (py_or (dget st ''page'') (JInt 1)))
      | None \<Rightarrow>
          (case map_of (rev (su_query u)) ''page'' of
             None \<Rightarrow> None
           | Some v \<Rightarrow> map_option (max 1) (int_of_text v)))"

text \<open>\<^verbatim>\<open>dict(query_items)\<close>: each key once at its first place with its last value; then \<^verbatim>\<open>query["page"] = ...\<close>.\<close>

definition query_dict :: "(string \<times> string) list \<Rightarrow> (string \<times> string) list" where
  "query_dict q = map (\<lambda>k. (k, case map_of (rev q) k of Some v \<Rightarrow> v | None \<Rightarrow> [])) (fromkeys (map fst q))"

definition set_page :: "string \<Rightarrow> (string \<times> string) list \<Rightarrow> (string \<times> string) list" where
  "set_page v q =
     (if ''page'' \<in> fst ` set q then map (\<lambda>(k, w). (k, if k = ''page'' then v else w)) q else q @ [(''page'', v)])"

definition search_url_for_page :: "search_url \<Rightarrow> int \<Rightarrow> string + search_url" where
  "search_url_for_page u n =
     (let n = max 1 n in
      case fragment_state u of
        Some st \<Rightarrow> Inr (u\<lparr>su_fragment := State (dmerge st [(''page'', JInt n), (''cursor'', JNull)])\<rparr>)
      | None \<Rightarrow>
          if ''page'' \<notin> fst ` set (su_query u) \<and> 1 < n
          then Inl ''Encar search URL does not expose a page parameter''
          else Inr (u\<lparr>su_query := set_page (show_int n) (query_dict (su_query u))\<rparr>))"

section \<open>Where the condition is found\<close>

lemma after_prefix_Some: "after_prefix l s = Some r \<longleftrightarrow> s = l @ r"
  by (induction l s rule: after_prefix.induct) auto

lemma after_prefix_split:
  "c \<notin> set l \<Longrightarrow> after_prefix l (x @ c # w) = map_option (\<lambda>r. r @ c # w) (after_prefix l x)"
  by (induction l x rule: after_prefix.induct) auto

lemma takeWhile_split: "\<not> P c \<Longrightarrow> takeWhile P (x @ c # w) = takeWhile P x"
  by (induction x) auto

lemma dropWhile_split: "\<not> P c \<Longrightarrow> dropWhile P (x @ c # w) = dropWhile P x @ c # w"
  by (induction x) auto

text \<open>A character that occurs only at the start of the condition, or not at all, is not inside a match.\<close>

lemma price_at_split:
  assumes "c \<notin> set ''rice.range(..)''" "\<not> numeric c" "x \<noteq> [] \<or> c \<noteq> CHR ''P''"
  shows "price_at (x @ c # w) = map_option (\<lambda>(a, b, r). (a, b, r @ c # w)) (price_at x)"
proof -
  have "after_prefix PRICE_OPEN (x @ c # w) = map_option (\<lambda>r. r @ c # w) (after_prefix PRICE_OPEN x)"
  proof (cases x)
    case Nil
    then show ?thesis using assms by (simp add: PRICE_OPEN_def)
  next
    case (Cons d x')
    have "after_prefix ''rice.range('' (x' @ c # w) = map_option (\<lambda>r. r @ c # w) (after_prefix ''rice.range('' x')"
      by (rule after_prefix_split) (use assms in simp)
    then show ?thesis using Cons by (simp add: PRICE_OPEN_def)
  qed
  moreover have "after_prefix ''..'' (y @ c # w) = map_option (\<lambda>r. r @ c # w) (after_prefix ''..'' y)"
    "after_prefix '')'' (y @ c # w) = map_option (\<lambda>r. r @ c # w) (after_prefix '')'' y)" for y
    by (rule after_prefix_split, use assms in simp)+
  ultimately show ?thesis
    using assms(2) by (auto simp: price_at_def takeWhile_split dropWhile_split split: option.splits)
qed

lemma price_at_first: "price_at (c # s) = Some m \<Longrightarrow> c = CHR ''P''"
  by (cases m) (auto simp: price_at_def PRICE_OPEN_def split: option.splits if_splits)

lemma price_at_Some:
  "price_at s = Some (a, b, r) \<longleftrightarrow> s = price_condition a b @ r \<and> list_all numeric a \<and> list_all numeric b"
proof
  assume "price_at s = Some (a, b, r)"
  then obtain r1 r2 where r: "s = PRICE_OPEN @ r1" "dropWhile numeric r1 = ''..'' @ r2" "dropWhile numeric r2 = '')'' @ r"
    "a = takeWhile numeric r1" "b = takeWhile numeric r2"
    by (auto simp: price_at_def after_prefix_Some split: option.splits)
  have r1: "r1 = a @ ''..'' @ r2" using takeWhile_dropWhile_id [of numeric r1] r(2,4) by simp
  have r2: "r2 = b @ '')'' @ r" using takeWhile_dropWhile_id [of numeric r2] r(3,5) by simp
  have "list_all numeric a" "list_all numeric b"
    unfolding r(4,5) list_all_iff using set_takeWhileD by fast+
  moreover have "s = price_condition a b @ r"
    unfolding r(1) r1 unfolding r2 by (simp add: price_condition_def)
  ultimately show "s = price_condition a b @ r \<and> list_all numeric a \<and> list_all numeric b" by simp
next
  assume s: "s = price_condition a b @ r \<and> list_all numeric a \<and> list_all numeric b"
  have n: "\<not> numeric CHR ''.''" "\<not> numeric CHR '')''"
    by (simp_all add: numeric_def is_digit_def)
  have tw: "takeWhile numeric (a @ c # w) = a" "dropWhile numeric (a @ c # w) = c # w"
    if "list_all numeric a" "\<not> numeric c" for a c w
    using that by (induction a) auto
  have "after_prefix PRICE_OPEN s = Some (a @ ''..'' @ b @ '')'' @ r)"
    using s by (simp add: after_prefix_Some price_condition_def)
  then show "price_at s = Some (a, b, r)"
    using s n by (simp add: price_at_def tw)
qed

lemma find_price_Some: "find_price s = Some (p, a, b, r) \<Longrightarrow>
    s = p @ price_condition a b @ r \<and> list_all numeric a \<and> list_all numeric b"
  by (induction s arbitrary: p) (auto simp: price_at_Some split: option.splits)

lemma find_price_here: "price_at s = Some (a, b, r) \<Longrightarrow> find_price s = Some ([], a, b, r)"
  by (cases s) (auto simp: price_at_def PRICE_OPEN_def split: option.splits)

lemma condition_here:
  "list_all numeric a \<Longrightarrow> list_all numeric b \<Longrightarrow> find_price (price_condition a b @ r) = Some ([], a, b, r)"
  by (rule find_price_here) (simp add: price_at_Some)

lemma condition_P: "\<exists>w. price_condition a b @ r = CHR ''P'' # w"
  by (simp add: price_condition_def PRICE_OPEN_def)

lemma not_P_inside: "CHR ''P'' \<notin> set ''rice.range(..)''" "\<not> numeric CHR ''P''"
  "CHR ''_'' \<notin> set ''rice.range(..)''" "\<not> numeric CHR ''_''"
  by (simp_all add: numeric_def is_digit_def)

text \<open>Another condition in the place of the first one is the first one again.\<close>

lemma find_price_replace:
  assumes "find_price s = Some (p, a, b, r)" "list_all numeric a'" "list_all numeric b'"
  shows "find_price (p @ price_condition a' b' @ r') = Some (p, a', b', r')"
  using assms(1)
proof (induction s arbitrary: p)
  case (Cons c s)
  show ?case
  proof (cases "price_at (c # s)")
    case (Some m)
    then have "p = []" using Cons.prems by (cases m) auto
    then show ?thesis using condition_here [OF assms(2,3)] by simp
  next
    case None
    then obtain p' where p': "find_price s = Some (p', a, b, r)" "p = c # p'"
      using Cons.prems by (auto split: option.splits)
    obtain w where "s = p' @ CHR ''P'' # w"
      using find_price_Some [OF p'(1)] condition_P [of a b r] by metis
    then have "price_at (c # p') = None"
      using None price_at_split [OF not_P_inside(1,2), of "c # p'" w] by simp
    moreover obtain w' where w': "price_condition a' b' @ r' = CHR ''P'' # w'"
      using condition_P by blast
    ultimately have "price_at (c # p' @ price_condition a' b' @ r') = None"
      using price_at_split [OF not_P_inside(1,2), of "c # p'" w'] by (simp add: w')
    then show ?thesis using Cons.IH [OF p'(1)] p'(2) by simp
  qed
qed simp

text \<open>A condition added at the end of an expression without one is found.\<close>

lemma find_price_add:
  assumes "find_price (q @ '')'') = None" "list_all numeric a" "list_all numeric b" "sep = [] \<or> sep = ''_.''"
  shows "find_price (q @ sep @ price_condition a b @ r) = Some (q @ sep, a, b, r)"
  using assms(1)
proof (induction q)
  case Nil
  have "price_at (CHR ''_'' # s) = None" "price_at (CHR ''.'' # s) = None" for s
    using price_at_first [of "CHR ''_''" s] price_at_first [of "CHR ''.''" s]
    by (cases "price_at (CHR ''_'' # s)"; cases "price_at (CHR ''.'' # s)"; simp)+
  then show ?case using assms(4) condition_here [OF assms(2,3), of r] by auto
next
  case (Cons c q)
  have none: "price_at (c # q @ '')'') = None" "find_price (q @ '')'') = None"
    using Cons.prems by (auto split: option.splits)
  have "price_at (c # q) = None"
  proof (cases "price_at (c # q)")
    case (Some m)
    obtain x y z where m: "m = (x, y, z)" by (cases m)
    then have "price_at ((c # q) @ '')'') = Some (x, y, z @ '')'')"
      using Some by (auto simp: price_at_Some)
    then show ?thesis using none(1) by simp
  qed
  moreover obtain w where "price_condition a b @ r = CHR ''P'' # w"
    using condition_P by blast
  ultimately have "price_at (c # q @ sep @ price_condition a b @ r) = None"
    using assms(4) price_at_split [OF not_P_inside(1,2), of "c # q" w]
      price_at_split [OF not_P_inside(3,4), of "c # q" "''.'' @ price_condition a b @ r"] by auto
  then show ?case using Cons.IH [OF none(2)] by simp
qed

section \<open>Numbers\<close>

lemma of_digit: "n < 10 \<Longrightarrow> of_char (char_of (48 + n :: nat)) = (48 + n :: nat)"
  by (simp only: of_char_of) simp

lemma digit_value_of [simp]: "n < 10 \<Longrightarrow> digit_value (char_of (48 + n :: nat)) = int n"
  using of_digit [of n] by (simp add: digit_value_def del: of_char_of)

lemma is_digit_of: "n < 10 \<Longrightarrow> is_digit (char_of (48 + n :: nat))"
  using of_digit [of n] by (simp add: is_digit_def del: of_char_of)

lemma read_digits_append: "read_digits (s @ t) = read_digits s * 10 ^ length t + read_digits t"
proof -
  have "foldl (\<lambda>n c. 10 * n + digit_value c) m t = m * 10 ^ length t + foldl (\<lambda>n c. 10 * n + digit_value c) 0 t" for m
  proof (induction t arbitrary: m)
    case (Cons c t)
    from Cons.IH [of "10 * m + digit_value c"] Cons.IH [of "digit_value c"] show ?case
      by (simp add: algebra_simps)
  qed simp
  from this [of "read_digits s"] show ?thesis unfolding read_digits_def foldl_append .
qed


lemma show_nat_small: "n < 10 \<Longrightarrow> show_nat n = [char_of (48 + n)]"
  by (subst show_nat.simps) simp

lemma show_nat_big: "\<not> n < 10 \<Longrightarrow> show_nat n = show_nat (n div 10) @ [char_of (48 + n mod 10)]"
  by (subst show_nat.simps) simp

lemma show_nat_digits: "show_nat n \<noteq> [] \<and> list_all is_digit (show_nat n) \<and> read_digits (show_nat n) = int n"
proof (induction n rule: show_nat.induct)
  case (1 n)
  show ?case
  proof (cases "n < 10")
    case True
    then show ?thesis by (simp add: show_nat_small is_digit_of read_digits_def)
  next
    case False
    then have "show_nat n = show_nat (n div 10) @ [char_of (48 + n mod 10)]"
      by (rule show_nat_big)
    moreover have "read_digits [char_of (48 + n mod 10)] = int (n mod 10)"
      by (simp add: read_digits_def)
    ultimately show ?thesis
      using 1 [OF False] by (simp add: read_digits_append is_digit_of) (simp add: zdiv_int zmod_int)
  qed
qed

lemma show_nat_length: "n < 1000 \<Longrightarrow> length (show_nat n) \<le> 3"
proof -
  assume n: "n < 1000"
  have "length (show_nat m) \<le> 1" if "m < 10" for m using that by (simp add: show_nat_small)
  moreover have "length (show_nat m) \<le> Suc (length (show_nat (m div 10)))" for m
    by (cases "m < 10") (simp_all add: show_nat_small show_nat_big)
  moreover have "n div 10 div 10 < 10" using n by linarith
  ultimately have "length (show_nat (n div 10 div 10)) \<le> 1" "length (show_nat n) \<le> Suc (length (show_nat (n div 10)))"
    "length (show_nat (n div 10)) \<le> Suc (length (show_nat (n div 10 div 10)))"
    by blast+
  then show ?thesis by linarith
qed

lemma show_pad_3:
  assumes "m < 1000"
  shows "length (show_pad 3 (int m)) = 3 \<and> list_all is_digit (show_pad 3 (int m)) \<and> read_digits (show_pad 3 (int m)) = int m"
proof -
  have "read_digits (replicate k (CHR ''0'')) = 0" for k
    by (induction k) (simp_all add: read_digits_def digit_value_def)
  moreover have "list_all is_digit (replicate k (CHR ''0''))" for k
    by (simp add: list_all_iff is_digit_def)
  ultimately show ?thesis
    using show_nat_length [OF assms] show_nat_digits [of m] by (simp add: show_pad_def read_digits_append)
qed

lemma show_commas_digits:
  "list_all numeric (show_commas n) \<and> filter (\<lambda>c. c \<noteq> CHR '','') (show_commas n) \<noteq> [] \<and>
   read_digits (filter (\<lambda>c. c \<noteq> CHR '','') (show_commas n)) = int n"
proof (induction n rule: show_commas.induct)
  case (1 n)
  have keep: "filter (\<lambda>c. c \<noteq> CHR '','') s = s" "list_all numeric s" if "list_all is_digit s" for s
    using that by (auto simp: filter_id_conv list_all_iff is_digit_def numeric_def)
  show ?case
  proof (cases "n < 1000")
    case True
    then show ?thesis using show_nat_digits [of n] keep by (subst (1 2 3) show_commas.simps) auto
  next
    case False
    then have "show_commas n = show_commas (n div 1000) @ '','' @ show_pad 3 (int (n mod 1000))"
      by (subst show_commas.simps) simp
    moreover have "list_all numeric (show_pad 3 (int (n mod 1000)))"
      "filter (\<lambda>c. c \<noteq> CHR '','') (show_pad 3 (int (n mod 1000))) = show_pad 3 (int (n mod 1000))"
      using show_pad_3 [of "n mod 1000"] keep by auto
    moreover have "numeric (CHR '','')" by (simp add: numeric_def)
    moreover have "int (n div 1000) * 1000 + int (n mod 1000) = int n"
      by (metis div_mult_mod_eq of_nat_add of_nat_mult of_nat_numeral)
    ultimately show ?thesis
      using 1 [OF False] show_pad_3 [of "n mod 1000"] by (simp add: read_digits_append del: of_nat_mod of_nat_div)
  qed
qed

lemma parse_show_bound:
  assumes "validate_price_bound v = Inr w"
  shows "w = v \<and> parse_bound (show_bound v) = v \<and> list_all numeric (show_bound v)"
proof (cases v)
  case (Some i)
  then have i: "0 \<le> i" "i mod ENCAR_PRICE_UNIT = 0" "w = v"
    using assms by (auto simp: validate_price_bound_def split: if_splits)
  then have "0 \<le> i div ENCAR_PRICE_UNIT" "i div ENCAR_PRICE_UNIT * ENCAR_PRICE_UNIT = i"
    using div_mult_mod_eq [of i ENCAR_PRICE_UNIT] by (simp_all add: ENCAR_PRICE_UNIT_def pos_imp_zdiv_nonneg_iff)
  then have "int (nat (i div ENCAR_PRICE_UNIT)) * ENCAR_PRICE_UNIT = i"
    by simp
  then show ?thesis
    using Some i(3) show_commas_digits [of "nat (i div ENCAR_PRICE_UNIT)"] by (simp add: show_bound_def parse_bound_def Let_def)
qed (use assms in \<open>simp add: show_bound_def parse_bound_def validate_price_bound_def\<close>)

section \<open>Setting and removing the price\<close>

lemma text_ends_char: "text_ends s [c] \<Longrightarrow> s = butlast s @ [c]"
  unfolding text_ends_def by (metis append_take_drop_id butlast_conv_take length_Cons list.size(3) One_nat_def)

lemma new_action_Some:
  "find_price action = Some (p, x, y, r) \<Longrightarrow>
   new_action (Some c) action = (if find_price r \<noteq> None then Inl multiple_filters else Inr (p @ c @ r))"
  by (simp only: new_action_def option.case prod.case)

text \<open>The expression \<open>b\<close> is \<open>a\<close> with the price condition \<open>c\<close>: in place of the one it has, or else after its
  last condition.\<close>

definition price_edited :: "string \<Rightarrow> string \<Rightarrow> string \<Rightarrow> bool" where
  "price_edited c a b \<longleftrightarrow>
     (\<exists>p x y r. find_price a = Some (p, x, y, r) \<and> find_price r = None \<and> b = p @ c @ r) \<or>
     (find_price a = None \<and> (\<exists>q. a = q @ '')'' \<and> b = q @ (if a = ''(And.)'' then [] else ''_.'') @ c @ ''.)''))"

lemma new_action_edited:
  assumes "new_action (Some c) action = Inr action'"
  shows "price_edited c action action'"
proof (cases "find_price action")
  case None
  then have e: "text_ends action '')''" "action' = butlast action @ (if action = ''(And.)'' then [] else ''_.'') @ c @ ''.)''"
    using assms by (cases "text_ends action '')''"; simp add: new_action_def with_price_def)+
  show ?thesis
    unfolding price_edited_def using None text_ends_char [OF e(1)] e(2) by blast
next
  case (Some m)
  obtain p x y r where "m = (p, x, y, r)" by (rule prod_cases4)
  with Some have m: "find_price action = Some (p, x, y, r)" by simp
  have "find_price r = None" "action' = p @ c @ r"
    using assms new_action_Some [OF m, of c] by (simp_all only: split: if_split_asm) simp_all
  with m show ?thesis unfolding price_edited_def by blast
qed

lemma new_action_found:
  assumes "new_action (Some (price_condition a b)) action = Inr action'" "list_all numeric a" "list_all numeric b"
  shows "\<exists>p r. find_price action' = Some (p, a, b, r) \<and> find_price r = None"
proof (cases "find_price action")
  case None
  then have e: "text_ends action '')''"
    "action' = butlast action @ (if action = ''(And.)'' then [] else ''_.'') @ price_condition a b @ ''.)''"
    using assms(1) by (cases "text_ends action '')''"; simp add: new_action_def with_price_def)+
  obtain q where q: "action = q @ '')''"
    "action' = q @ (if action = ''(And.)'' then [] else ''_.'') @ price_condition a b @ ''.)''"
    by (rule that [OF text_ends_char [OF e(1)] e(2)])
  have "find_price ''.)'' = None" by code_simp
  then show ?thesis
    using find_price_add [OF _ assms(2,3), of q "if action = ''(And.)'' then [] else ''_.''" "''.)''"] None q by auto
next
  case (Some m)
  obtain p x y r where "m = (p, x, y, r)" by (rule prod_cases4)
  with Some have m: "find_price action = Some (p, x, y, r)" by simp
  have r: "find_price r = None" "action' = p @ price_condition a b @ r"
    using assms(1) new_action_Some [OF m, of "price_condition a b"] by (simp_all only: split: if_split_asm) simp_all
  then show ?thesis using find_price_replace [OF m assms(2,3), of r] r by blast
qed

lemma applied_state:
  assumes "apply_price_filter lo hi u = Inr u'"
  obtains st action action' condition where "search_action u = Inr (st, action)" "new_action condition action = Inr action'"
    "condition = (if lo \<noteq> None \<or> hi \<noteq> None then Some (price_condition (show_bound lo) (show_bound hi)) else None)"
    "validate_price_bound lo = Inr lo" "validate_price_bound hi = Inr hi" "\<not> invalid_range lo hi"
    "u' = u\<lparr>su_fragment := State (dmerge st
        [(''action'', JStr action'), (''toggle'', JObj (dset (toggles_of st) ''4'' (JInt (if condition = None then 0 else 1)))),
         (''page'', JInt 1), (''cursor'', JNull)])\<rparr>"
proof -
  obtain lo' hi' where b: "validate_price_bound lo = Inr lo'" "validate_price_bound hi = Inr hi'"
    using assms by (auto simp: apply_price_filter_def)
  then have eq: "lo' = lo" "hi' = hi" using parse_show_bound by blast+
  let ?c = "if lo \<noteq> None \<or> hi \<noteq> None then Some (price_condition (show_bound lo) (show_bound hi)) else None"
  have valid: "\<not> invalid_range lo hi"
    using assms by (auto simp: apply_price_filter_def b eq)
  let ?new = "\<lambda>st action'. u\<lparr>su_fragment := State (dmerge st
        [(''action'', JStr action'), (''toggle'', JObj (dset (toggles_of st) ''4'' (JInt (if ?c = None then 0 else 1)))),
         (''page'', JInt 1), (''cursor'', JNull)])\<rparr>"
  have all: "and_then (search_action u) (\<lambda>(st, action). and_then (new_action ?c action) (\<lambda>action'. Inr (?new st action'))) = Inr u'"
    using assms valid unfolding apply_price_filter_def b eq and_then_simps Let_def by (simp only: if_False)
  obtain st action where sa: "search_action u = Inr (st, action)"
    using all by (cases "search_action u") auto
  then have rest: "and_then (new_action ?c action) (\<lambda>action'. Inr (?new st action')) = Inr u'"
    using all by (simp only: and_then_simps prod.case)
  obtain action' where na: "new_action ?c action = Inr action'"
    using rest by (cases "new_action ?c action") (simp_all only: and_then_simps sum.distinct)
  then have u': "u' = ?new st action'"
    using rest by (simp only: and_then_simps sum.inject)
  show ?thesis
    by (rule that [OF sa na refl _ _ valid u']) (use b eq in simp_all)
qed

lemma state_after [simp]:
  "search_action (u\<lparr>su_fragment := State (dmerge st
     [(''action'', JStr a), (''toggle'', t), (''page'', JInt 1), (''cursor'', JNull)])\<rparr>) =
   Inr (dmerge st [(''action'', JStr a), (''toggle'', t), (''page'', JInt 1), (''cursor'', JNull)], a)"
  by (simp add: search_action_def fragment_state_def dget_dmerge)

text \<open>C29: the price filter set in a search address is the one read back from it, for every valid pair of bounds.
In the expression only the price condition is replaced, or added after the last condition when there was
none; in the state of the address, apart from the expression, only the price toggle, the page (1) and the cursor
change, and outside of the state nothing.\<close>

theorem price_filter_round_trip:
  assumes "apply_price_filter lo hi u = Inr u'" "lo \<noteq> None \<or> hi \<noteq> None"
  shows "extract_price_filter u' = Inr (lo, hi) \<and>
    (\<exists>st st' action action'. search_action u = Inr (st, action) \<and> search_action u' = Inr (st', action') \<and>
       price_edited (price_condition (show_bound lo) (show_bound hi)) action action' \<and>
       u' = u\<lparr>su_fragment := State st'\<rparr> \<and>
       dget st' ''toggle'' = JObj (dset (toggles_of st) ''4'' (JInt 1)) \<and> search_page_number u' = Some 1 \<and>
       dget st' ''cursor'' = JNull \<and>
       (\<forall>k. k \<in> {''action'', ''toggle'', ''page'', ''cursor''} \<or> dget st' k = dget st k))"
proof (rule applied_state [OF assms(1)], goal_cases)
  case (1 st action action' condition)
  have c: "condition = Some (price_condition (show_bound lo) (show_bound hi))"
    using 1(3) assms(2) by simp
  have b: "parse_bound (show_bound lo) = lo" "parse_bound (show_bound hi) = hi"
    "list_all numeric (show_bound lo)" "list_all numeric (show_bound hi)"
    using parse_show_bound [OF 1(4)] parse_show_bound [OF 1(5)] by simp_all
  obtain p r where f: "find_price action' = Some (p, show_bound lo, show_bound hi, r)" "find_price r = None"
    using new_action_found [OF 1(2) [unfolded c] b(3,4)] by blast
  have read: "extract_price_filter u' = Inr (lo, hi)"
    unfolding extract_price_filter_def 1(7) state_after by (simp add: f b 1(4-6))
  have page: "search_page_number u' = Some 1"
    unfolding 1(7) by (simp add: search_page_number_def fragment_state_def dget_dmerge py_or_def int_of_json_def)
  let ?st' = "dmerge st [(''action'', JStr action'), (''toggle'', JObj (dset (toggles_of st) ''4'' (JInt 1))),
      (''page'', JInt 1), (''cursor'', JNull)]"
  have u': "u' = u\<lparr>su_fragment := State ?st'\<rparr>" using 1(7) c by simp
  have "search_action u' = Inr (?st', action')" unfolding u' by (rule state_after)
  moreover have "dget ?st' ''toggle'' = JObj (dset (toggles_of st) ''4'' (JInt 1))" "dget ?st' ''cursor'' = JNull"
    "\<forall>k. k \<in> {''action'', ''toggle'', ''page'', ''cursor''} \<or> dget ?st' k = dget st k"
    by (auto simp: dget_dmerge)
  ultimately show ?case using read page u' 1(1) new_action_edited [OF 1(2) [unfolded c]] by blast
qed

lemma remove_added:
  assumes "find_price (q @ ''.)'') = None" "q @ ''.)'' \<noteq> ''(And..)''" "list_all numeric a" "list_all numeric b"
  shows "and_then (new_action (Some (price_condition a b)) (q @ ''.)'')) (new_action None) = Inr (q @ ''.)'')"
proof -
  let ?sep = "if q @ ''.)'' = ''(And.)'' then [] else ''_.''"
  let ?p = "(q @ ''.'') @ ?sep"
  have new: "new_action (Some (price_condition a b)) (q @ ''.)'') = Inr ((q @ ''.'') @ ?sep @ price_condition a b @ ''.)'')"
    using assms(1) by (simp add: new_action_def with_price_def text_ends_def butlast_append)
  have find: "find_price ((q @ ''.'') @ ?sep @ price_condition a b @ ''.)'') = Some (?p, a, b, ''.)'')"
    by (rule find_price_add) (use assms in simp_all)
  have none: "find_price ''.)'' = None" "\<not> text_begins ''.)'' ''._.''" "\<not> text_begins ''.)'' ''_.''"
    by code_simp+
  have without: "without_price ?p ''.)'' = Inr (q @ ''.)'')"
  proof (cases "q @ ''.)'' = ''(And.)''")
    case True
    then have "q = ''(And''" by simp
    then show ?thesis by simp code_simp
  next
    case False
    then have "text_ends ?p ''._.''" "take (length ?p - 3) ?p = q"
      by (simp_all add: text_ends_def)
    then show ?thesis
      using assms(2) False none by (simp add: without_price_def)
  qed
  have "new_action None ((q @ ''.'') @ ?sep @ price_condition a b @ ''.)'') = Inr (q @ ''.)'')"
    unfolding new_action_def find by (simp only: option.case prod.case none(1) simp_thms if_False without)
  then show ?thesis unfolding new by (simp only: and_then_simps)
qed

text \<open>Removing a price filter undoes adding it: for an expression without a price condition, setting any filter and
removing it again gives the expression back, character by character.\<close>

theorem price_filter_removed:
  assumes "search_action u = Inr (st, q @ ''.)'')" "find_price (q @ ''.)'') = None" "q \<noteq> ''(And.''"
    and "apply_price_filter lo hi u = Inr u'" "lo \<noteq> None \<or> hi \<noteq> None"
  shows "\<exists>u2. apply_price_filter None None u' = Inr u2 \<and> map_sum id snd (search_action u2) = Inr (q @ ''.)'') \<and>
    extract_price_filter u2 = Inr (None, None)"
proof (rule applied_state [OF assms(4)], goal_cases)
  case (1 st' action action' condition)
  have c: "condition = Some (price_condition (show_bound lo) (show_bound hi))" "action = q @ ''.)''"
    using 1(1,3) assms(1,5) by auto
  have b: "list_all numeric (show_bound lo)" "list_all numeric (show_bound hi)"
    using parse_show_bound [OF 1(4)] parse_show_bound [OF 1(5)] by simp_all
  have "new_action None action' = Inr (q @ ''.)'')"
    using remove_added [OF assms(2) _ b] 1(2) assms(3) unfolding c by simp
  moreover have "validate_price_bound None = Inr None" "invalid_range None None = False"
    by (simp_all add: validate_price_bound_def invalid_range_def)
  ultimately show ?case
    using assms(2) unfolding 1(7)
    by (simp add: apply_price_filter_def [of None None] Let_def extract_price_filter_def)
qed

text \<open>Going to another page keeps the filter.\<close>

lemma page_keeps_filter:
  assumes "search_url_for_page u n = Inr u'" "fragment_state u = Some st"
  shows "extract_price_filter u' = extract_price_filter u \<and> search_page_number u' = Some (max 1 n)"
proof -
  have u': "u' = u\<lparr>su_fragment := State (dmerge st [(''page'', JInt (max 1 n)), (''cursor'', JNull)])\<rparr>"
    using assms by (simp add: search_url_for_page_def Let_def)
  have "dget (dmerge st [(''page'', JInt (max 1 n)), (''cursor'', JNull)]) ''action'' = dget st ''action''"
    by (simp add: dget_dmerge)
  then have "map_sum id snd (search_action u') = map_sum id snd (search_action u)"
    using assms(2) by (auto simp: u' search_action_def fragment_state_def split: json.splits)
  moreover have "extract_price_filter u = extract_price_filter v"
    if "map_sum id snd (search_action u) = map_sum id snd (search_action v)" for u v
    using that by (cases "search_action u"; cases "search_action v") (auto simp: extract_price_filter_def)
  moreover have "search_page_number u' = Some (max 1 n)"
    by (simp add: u' search_page_number_def fragment_state_def dget_dmerge py_or_def int_of_json_def)
  ultimately show ?thesis by metis
qed

definition sample_search :: search_url where
  "sample_search = \<lparr>su_scheme = ''http'', su_netloc = ''www.encar.com'', su_path = ''/dc/dc_carsearchlist.do'', su_query = [],
     su_fragment = State [(''action'', JStr ''(And.Hidden.N._.CarType.Y.)''), (''toggle'', JObj []), (''page'', JInt 3)]\<rparr>"

definition sample_filtered :: search_url where
  "sample_filtered = sample_search\<lparr>su_fragment := State
     [(''action'', JStr ''(And.Hidden.N._.CarType.Y._.Price.range(500..1,000).)''), (''toggle'', JObj [(''4'', JInt 1)]),
      (''page'', JInt 1), (''cursor'', JNull)]\<rparr>"

lemma sample_filter: "apply_price_filter (Some 5000000) (Some 10000000) sample_search = Inr sample_filtered"
  by code_simp

theorem price_filter_round_trip_witness: "extract_price_filter sample_filtered = Inr (Some 5000000, Some 10000000)"
  using price_filter_round_trip [OF sample_filter] by blast

theorem price_filter_removed_witness:
  "\<exists>u2. apply_price_filter None None sample_filtered = Inr u2 \<and>
     map_sum id snd (search_action u2) = Inr (''(And.Hidden.N._.CarType.Y'' @ ''.)'')"
proof -
  have "map_sum id snd (search_action sample_search) = Inr (''(And.Hidden.N._.CarType.Y'' @ ''.)'')"
    "find_price (''(And.Hidden.N._.CarType.Y'' @ ''.)'') = None"
    by code_simp+
  moreover then obtain st where "search_action sample_search = Inr (st, ''(And.Hidden.N._.CarType.Y'' @ ''.)'')"
    by (cases "search_action sample_search") auto
  ultimately show ?thesis
    using price_filter_removed [OF _ _ _ sample_filter, of st "''(And.Hidden.N._.CarType.Y''"] by simp blast
qed

end
