(* ===== verification/Desktop.thy ===== *)
theory Desktop
  imports Onboarding Backup QueueWork SearchUrls
begin

text \<open>
  The desktop installation as a whole: the two lock files (\<^verbatim>\<open>maintenance.py\<close>), the preparation of an update, the
  staged restore, the reset of an installation with several accounts and the order of a start (\<^verbatim>\<open>desktop_runtime.py\<close>),
  and the requests on backups (\<^verbatim>\<open>main.py\<close>). Data is the installation of the theory Backup; a commit to the database
  is seen by every reader at once, so it is folded into the file here.
\<close>

section \<open>Lock files\<close>

text \<open>\<open>None\<close> is a text that is not JSON.\<close>

datatype lock_file = No_File | Lock_File "dict option"

datatype restore_result = Restored bool int dict | Restore_Failed backup_error string | Restore_Pending

record desktop =
  dk_data :: installation
  dk_maintenance :: lock_file
  dk_update :: lock_file
  dk_pending :: backup_file
  dk_backups :: "(string \<times> backup_file) list"
  dk_result :: "restore_result option"

definition maintenance_active :: "desktop \<Rightarrow> bool" where
  "maintenance_active s \<longleftrightarrow> dk_maintenance s \<noteq> No_File \<or> dk_update s \<noteq> No_File"

text \<open>\<open>alive\<close> is what the operating system says of a process number.\<close>

definition process_is_alive :: "(int \<Rightarrow> bool) \<Rightarrow> int \<Rightarrow> bool" where
  "process_is_alive alive pid \<longleftrightarrow> 0 < pid \<and> alive pid"

definition lock_owner_is_alive :: "(int \<Rightarrow> bool) \<Rightarrow> lock_file \<Rightarrow> bool" where
  "lock_owner_is_alive alive l =
     (case l of
        Lock_File (Some d) \<Rightarrow> (case int_of_json (dget d ''pid'') of Some pid \<Rightarrow> process_is_alive alive pid | None \<Rightarrow> False)
      | _ \<Rightarrow> False)"

definition stale :: "(int \<Rightarrow> bool) \<Rightarrow> lock_file \<Rightarrow> bool" where
  "stale alive l \<longleftrightarrow> l \<noteq> No_File \<and> \<not> lock_owner_is_alive alive l"

definition clear_stale_maintenance_lock :: "(int \<Rightarrow> bool) \<Rightarrow> desktop \<Rightarrow> bool \<times> desktop" where
  "clear_stale_maintenance_lock alive s =
     (stale alive (dk_maintenance s) \<or> stale alive (dk_update s),
      s\<lparr>dk_maintenance := (if stale alive (dk_maintenance s) then No_File else dk_maintenance s),
        dk_update := (if stale alive (dk_update s) then No_File else dk_update s)\<rparr>)"

definition lock_document :: "lock_file \<Rightarrow> dict" where
  "lock_document l = (case l of Lock_File (Some d) \<Rightarrow> d | _ \<Rightarrow> [])"

definition begin_update_install :: "int \<Rightarrow> time \<Rightarrow> desktop \<Rightarrow> string + desktop" where
  "begin_update_install pid t s =
     (if dk_update s = No_File
      then Inr (s\<lparr>dk_update := Lock_File (Some [(''pid'', JInt pid), (''operation'', JStr ''UPDATE_INSTALL''), (''started_at'', JTime t)])\<rparr>)
      else if py_eq (dget (lock_document (dk_update s)) ''pid'') (JInt pid) then Inr s
      else Inl ''desktop_update_install_already_active'')"

definition finish_update_install :: "int \<Rightarrow> desktop \<Rightarrow> bool \<times> desktop" where
  "finish_update_install pid s =
     (let owner = dget (lock_document (dk_update s)) ''pid''
      in if owner \<noteq> JNull \<and> \<not> py_eq owner (JInt pid) then (False, s)
         else (dk_update s \<noteq> No_File, s\<lparr>dk_update := No_File\<rparr>))"

section \<open>The data of the installation\<close>

definition data_of :: "desktop \<Rightarrow> installation" where
  "data_of s = (dk_data s)\<lparr>in_lock := dk_maintenance s \<noteq> No_File\<rparr>"

definition write_db :: "image \<Rightarrow> installation \<Rightarrow> installation" where
  "write_db im i = i\<lparr>in_db := Some (Sqlite im), in_wal := None\<rparr>"

definition live_image :: "installation \<Rightarrow> backup_error + image" where
  "live_image i = (case current_db i of Some (Sqlite im) \<Rightarrow> Inr im | _ \<Rightarrow> Inl Database_Error)"

definition put_backup :: "string \<Rightarrow> backup_file \<Rightarrow> desktop \<Rightarrow> desktop" where
  "put_backup name f s = s\<lparr>dk_backups := filter (\<lambda>x. fst x \<noteq> name) (dk_backups s) @ [(name, f)]\<rparr>"

definition get_backup :: "string \<Rightarrow> desktop \<Rightarrow> backup_file" where
  "get_backup name s = (case map_of (dk_backups s) name of Some f \<Rightarrow> f | None \<Rightarrow> Missing)"

definition unfinished_count :: "desktop \<Rightarrow> backup_error + nat" where
  "unfinished_count s = map_sum id (\<lambda>im. length (filter (\<lambda>r. unfinished_status (r_status r)) (scan_runs (im_db im)))) (live_image (dk_data s))"

section \<open>Preparing an update\<close>

datatype update_answer = Active_Scan nat | Ready string

text \<open>\<open>others\<close> is what other threads do between the first count and the lock file; the process number, the time
and the name of the archive are arguments.\<close>

definition guarded_update :: "backup_env \<Rightarrow> time \<Rightarrow> string \<Rightarrow> desktop \<Rightarrow> backup_error + update_answer \<times> desktop" where
  "guarded_update ev t name s =
     and_then (unfinished_count s) (\<lambda>n.
       if n \<noteq> 0 then Inr (Active_Scan n, s)
       else and_then (export_backup ev t [''backups'', name] (data_of s)) (\<lambda>(archive, _).
         Inr (Ready name, put_backup name (Zip archive) s)))"

definition prepare_desktop_update ::
  "backup_env \<Rightarrow> int \<Rightarrow> time \<Rightarrow> string \<Rightarrow> (desktop \<Rightarrow> desktop) \<Rightarrow> desktop \<Rightarrow> (backup_error + update_answer) \<times> desktop" where
  "prepare_desktop_update ev pid t name others s =
     (case unfinished_count s of
        Inl e \<Rightarrow> (Inl e, s)
      | Inr n \<Rightarrow>
          if n \<noteq> 0 then (Inr (Active_Scan n), s)
          else (case begin_update_install pid t (others s) of
              Inl e \<Rightarrow> (Inl (Busy e), others s)
            | Inr s1 \<Rightarrow>
                (case guarded_update ev t name s1 of
                   Inl e \<Rightarrow> (Inl e, snd (finish_update_install pid s1))
                 | Inr (Ready b, s2) \<Rightarrow> (Inr (Ready b), s2)
                 | Inr (Active_Scan n, s2) \<Rightarrow> (Inr (Active_Scan n), snd (finish_update_install pid s2)))))"

section \<open>A staged restore\<close>

definition initialize_database :: "time \<Rightarrow> installation \<Rightarrow> backup_error + installation" where
  "initialize_database t i =
     (case (case current_db i of
              None \<Rightarrow> Inr \<lparr>im_db = empty_db, im_applied = None, im_integrity = ''ok'', im_violations = 0\<rparr>
            | Some (Sqlite im) \<Rightarrow> Inr im
            | Some _ \<Rightarrow> Inl Database_Error) of
        Inl e \<Rightarrow> Inl e
      | Inr im \<Rightarrow> (case migrate_sqlite t im of Inl _ \<Rightarrow> Inl Database_Error | Inr im' \<Rightarrow> Inr (write_db im' i)))"

definition change_db :: "(db \<Rightarrow> db) \<Rightarrow> installation \<Rightarrow> installation" where
  "change_db f i = (case live_image i of Inr im \<Rightarrow> write_db (im\<lparr>im_db := f (im_db im)\<rparr>) i | Inl _ \<Rightarrow> i)"

text \<open>What precedes the restore: the migrations and the end of every scan.\<close>

definition interrupted_data :: "time \<Rightarrow> installation \<Rightarrow> backup_error + installation" where
  "interrupted_data t i =
     (case initialize_database t i of
        Inl e \<Rightarrow> Inl e
      | Inr i1 \<Rightarrow> Inr (change_db (\<lambda>d. snd (interrupt_unfinished_jobs ''BACKUP_RESTORE_REQUESTED'' t d)) i1))"

definition restore_staged ::
  "backup_env \<Rightarrow> time \<Rightarrow> nat option \<Rightarrow> backup_file \<Rightarrow> installation \<Rightarrow> (backup_error + bool \<times> int \<times> dict) \<times> installation" where
  "restore_staged ev t fault f i =
     (case interrupted_data t i of Inl e \<Rightarrow> (Inl e, i) | Inr i1 \<Rightarrow> restore_backup ev t fault f i1)"

definition apply_pending_restore ::
  "backup_env \<Rightarrow> time \<Rightarrow> nat option \<Rightarrow> string \<Rightarrow> desktop \<Rightarrow> restore_result option \<times> desktop" where
  "apply_pending_restore ev t fault failed s =
     (if dk_pending s = Missing then (None, s)
      else case restore_staged ev t fault (dk_pending s) (data_of s) of
        (Inr (made, version, counts), i) \<Rightarrow>
          (let r = Some (Restored made version counts) in (r, s\<lparr>dk_data := i, dk_pending := Missing, dk_result := r\<rparr>))
      | (Inl e, i) \<Rightarrow>
          (let r = Some (Restore_Failed e failed)
           in (r, put_backup failed (dk_pending s) (s\<lparr>dk_data := i, dk_pending := Missing, dk_result := r\<rparr>))))"

section \<open>The start\<close>

datatype workspace_result = Normal legacy_result | Reset

definition erased :: "installation \<Rightarrow> installation" where
  "erased i = i\<lparr>in_db := None, in_wal := None, in_cars := None\<rparr>"

definition set_data :: "installation \<Rightarrow> desktop \<Rightarrow> desktop" where
  "set_data i s = s\<lparr>dk_data := i\<rparr>"

text \<open>The archive first, then the erasing, then the new database: an error leaves what was done before it.\<close>

definition reset_workspace :: "backup_env \<Rightarrow> time \<Rightarrow> string \<Rightarrow> desktop \<Rightarrow> (backup_error + workspace_result) \<times> desktop" where
  "reset_workspace ev t name s =
     (case export_backup ev t [''backups'', name] (data_of s) of
        Inl e \<Rightarrow> (Inl e, s)
      | Inr (archive, _) \<Rightarrow>
          (let s1 = set_data (erased (dk_data s)) (put_backup name (Zip archive) s)
           in case initialize_database t (dk_data s1) of
                Inl e \<Rightarrow> (Inl e, s1)
              | Inr i \<Rightarrow> (Inr Reset, set_data i s1)))"

definition normalize_desktop_workspace ::
  "backup_env \<Rightarrow> time \<Rightarrow> string \<Rightarrow> desktop \<Rightarrow> (backup_error + workspace_result) \<times> desktop" where
  "normalize_desktop_workspace ev t name s =
     (case live_image (dk_data s) of
        Inl e \<Rightarrow> (Inl e, s)
      | Inr im \<Rightarrow>
          (case migrate_legacy_desktop_workspace (im_db im) of
             (Multiple, _) \<Rightarrow> reset_workspace ev t name s
           | (r, d) \<Rightarrow> (Inr (Normal r), set_data (write_db (im\<lparr>im_db := d\<rparr>) (dk_data s)) s)))"

text \<open>\<^verbatim>\<open>recover_interrupted_jobs\<close> and the catch-up of the owners whose automatic scan was cut off.\<close>

definition recovered_owners :: "int list \<Rightarrow> db \<Rightarrow> int set" where
  "recovered_owners ids d = r_owner_id ` {r \<in> set (scan_runs d). r_id r \<in> set ids \<and> automatic_payload (payload_of r)}"

definition recover_scans :: "time \<Rightarrow> db \<Rightarrow> db" where
  "recover_scans t d =
     (let (ids, d1) = recover_interrupted_jobs ''APPLICATION_RESTARTED'' t d
      in if ids = [] then d1 else snd (prepare_overdue_scheduler_catch_up t (recovered_owners ids d1) d1))"

text \<open>\<^verbatim>\<open>main\<close> up to the start of the worker; \<open>failed\<close> and \<open>legacy\<close> name the two archives it may write.\<close>

definition open_workspace_data ::
  "backup_env \<Rightarrow> time \<Rightarrow> string \<Rightarrow> desktop \<Rightarrow> (backup_error + workspace_result) \<times> desktop" where
  "open_workspace_data ev t legacy s =
     (case initialize_database t (dk_data s) of
        Inl e \<Rightarrow> (Inl e, s)
      | Inr i \<Rightarrow>
          (case normalize_desktop_workspace ev t legacy (set_data i s) of
             (Inl e, s1) \<Rightarrow> (Inl e, s1)
           | (Inr r, s1) \<Rightarrow> (Inr r, set_data (change_db (recover_scans t) (dk_data s1)) s1)))"

definition start_up ::
  "backup_env \<Rightarrow> (int \<Rightarrow> bool) \<Rightarrow> time \<Rightarrow> nat option \<Rightarrow> string \<Rightarrow> string \<Rightarrow> desktop \<Rightarrow> (backup_error + workspace_result) \<times> desktop" where
  "start_up ev alive t fault failed legacy s =
     open_workspace_data ev t legacy
       (snd (apply_pending_restore ev t fault failed (snd (clear_stale_maintenance_lock alive s))))"

section \<open>Requests on backups\<close>

text \<open>The session of a request works on the live database.\<close>

definition live_db :: "desktop \<Rightarrow> db" where
  "live_db s = (case live_image (dk_data s) of Inr im \<Rightarrow> im_db im | Inl _ \<Rightarrow> empty_db)"

definition set_live_db :: "db \<Rightarrow> desktop \<Rightarrow> desktop" where
  "set_live_db d s = set_data (change_db (\<lambda>_. d) (dk_data s)) s"

definition csrf_user :: "env \<Rightarrow> time \<Rightarrow> request \<Rightarrow> (db, user) handler" where
  "csrf_user ev t rq = require_csrf ev t rq (\<lambda>u _ d. (Inr u, d))"

definition data_request ::
  "(db, user) handler \<Rightarrow> (user \<Rightarrow> (desktop, 'a) handler) \<Rightarrow> (desktop, 'a) handler" where
  "data_request auth k s =
     (case auth (live_db s) of
        (Inl e, d) \<Rightarrow> (Inl e, set_live_db d s)
      | (Inr u, d) \<Rightarrow>
          (case require_desktop_data_access True u d of
             Some e \<Rightarrow> (Inl e, set_live_db d s)
           | None \<Rightarrow> k u (set_live_db d s)))"

definition audit_live :: "string \<Rightarrow> user \<Rightarrow> string \<Rightarrow> dict option \<Rightarrow> desktop \<Rightarrow> desktop" where
  "audit_live action u name payload s = set_data (change_db (audit ((audit_entry action)\<lparr>al_actor_user_id := Some (u_id u),
     al_entity_type := Some ''BACKUP'', al_entity_id := JStr name, al_payload := payload\<rparr>)) (dk_data s)) s"

definition BACKUP_SUFFIX :: string where "BACKUP_SUFFIX = ''.searchcar-backup''"

definition backup_name_ok :: "string \<Rightarrow> bool" where
  "backup_name_ok name \<longleftrightarrow> CHR ''/'' \<notin> set name \<and> ends_with BACKUP_SUFFIX name"

abbreviation invalid_backup_name :: http_error where
  "invalid_backup_name \<equiv> HTTPException 400 ''invalid_backup_name''"

definition validation_refused :: "backup_error \<Rightarrow> http_error" where
  "validation_refused e = (case e of Validation m \<Rightarrow> HTTPException 400 m | _ \<Rightarrow> HTTPException 500 ''internal_error'')"

definition named_backup :: "backup_env \<Rightarrow> string \<Rightarrow> desktop \<Rightarrow> http_error + backup_validation" where
  "named_backup bv name s =
     (if \<not> backup_name_ok name then Inl invalid_backup_name
      else case validate_backup bv (get_backup name s) of Inl e \<Rightarrow> Inl (validation_refused e) | Inr v \<Rightarrow> Inr v)"

definition create_desktop_backup ::
  "backup_env \<Rightarrow> env \<Rightarrow> time \<Rightarrow> request \<Rightarrow> string \<Rightarrow> (desktop, backup_validation) handler" where
  "create_desktop_backup bv ev t rq name = data_request (csrf_user ev t rq) (\<lambda>u s.
     case export_backup bv t [''backups'', name] (data_of s) of
       Inl (Busy m) \<Rightarrow> (Inl (HTTPException 409 m), s)
     | Inl _ \<Rightarrow> (Inl (HTTPException 500 ''internal_error''), s)
     | Inr (archive, v) \<Rightarrow> (Inr v, audit_live ''DESKTOP_BACKUP_CREATED'' u name None (put_backup name (Zip archive) s)))"

definition download_desktop_backup ::
  "backup_env \<Rightarrow> time \<Rightarrow> request \<Rightarrow> string \<Rightarrow> (desktop, backup_file) handler" where
  "download_desktop_backup bv t rq name = data_request (with_user t rq (\<lambda>u _ d. (Inr u, d))) (\<lambda>u s.
     (map_sum id (\<lambda>_. get_backup name s) (named_backup bv name s), s))"

definition validate_desktop_backup ::
  "backup_env \<Rightarrow> env \<Rightarrow> time \<Rightarrow> request \<Rightarrow> string \<Rightarrow> (desktop, backup_validation) handler" where
  "validate_desktop_backup bv ev t rq name = data_request (csrf_user ev t rq) (\<lambda>u s. (named_backup bv name s, s))"

definition stage_desktop_restore ::
  "backup_env \<Rightarrow> env \<Rightarrow> time \<Rightarrow> request \<Rightarrow> string \<Rightarrow> (desktop, backup_validation) handler" where
  "stage_desktop_restore bv ev t rq name = data_request (csrf_user ev t rq) (\<lambda>u s.
     case named_backup bv name s of
       Inl e \<Rightarrow> (Inl e, s)
     | Inr v \<Rightarrow> (Inr v, audit_live ''DESKTOP_RESTORE_STAGED'' u name None
         (s\<lparr>dk_pending := get_backup name s, dk_result := Some Restore_Pending\<rparr>)))"

text \<open>\<^verbatim>\<open>import_desktop_backup\<close>: \<open>declared\<close> is the content length the client announces, \<open>received\<close> the bytes that came and
\<open>upload\<close> what they are; \<open>saved\<close> is the name drawn for the file.\<close>

definition MAX_UPLOAD :: int where "MAX_UPLOAD = 20 * 1024 * 1024 * 1024"

definition declared_refused :: "string option \<Rightarrow> http_error option" where
  "declared_refused declared =
     (case declared of
        None \<Rightarrow> None
      | Some raw \<Rightarrow>
          if raw = [] then None
          else (case int_of_text raw of
              None \<Rightarrow> Some (HTTPException 400 ''invalid_backup_size'')
            | Some n \<Rightarrow>
                if n \<le> 0 then Some (HTTPException 400 ''empty_backup_upload'')
                else if MAX_UPLOAD < n then Some (HTTPException 413 ''backup_upload_too_large'')
                else None))"

definition receive_backup ::
  "backup_env \<Rightarrow> string \<Rightarrow> string option \<Rightarrow> int \<Rightarrow> backup_file \<Rightarrow> http_error + backup_validation" where
  "receive_backup bv name declared received upload =
     (if \<not> backup_name_ok name then Inl invalid_backup_name
      else case declared_refused declared of
        Some e \<Rightarrow> Inl e
      | None \<Rightarrow>
          if MAX_UPLOAD < received then Inl (HTTPException 413 ''backup_upload_too_large'')
          else if received = 0 then Inl (HTTPException 400 ''empty_backup_upload'')
          else (case validate_backup bv upload of Inl e \<Rightarrow> Inl (validation_refused e) | Inr v \<Rightarrow> Inr v))"

definition import_desktop_backup ::
  "backup_env \<Rightarrow> env \<Rightarrow> time \<Rightarrow> request \<Rightarrow> string \<Rightarrow> string \<Rightarrow> string option \<Rightarrow> int \<Rightarrow> backup_file \<Rightarrow>
   (desktop, backup_validation) handler" where
  "import_desktop_backup bv ev t rq saved name declared received upload s =
     (if name = [] \<or> 200 < length (code_points name) then (Inl (HTTPException 422 ''validation_error''), s)
      else data_request (csrf_user ev t rq) (\<lambda>u s.
        case receive_backup bv name declared received upload of
          Inl e \<Rightarrow> (Inl e, s)
        | Inr v \<Rightarrow> (Inr v, audit_live ''DESKTOP_BACKUP_IMPORTED'' u saved
            (Some [(''source_name'', JStr name), (''bytes'', JInt received)]) (put_backup saved upload s))) s)"

section \<open>The live database\<close>

lemma write_db_simps [simp]:
  "current_db (write_db im i) = Some (Sqlite im)" "in_wal (write_db im i) = None" "in_db (write_db im i) = Some (Sqlite im)"
  "in_cars (write_db im i) = in_cars i" "in_lock (write_db im i) = in_lock i" "in_rollbacks (write_db im i) = in_rollbacks i"
  "in_old_db (write_db im i) = in_old_db i" "in_old_cars (write_db im i) = in_old_cars i"
  "live_image (write_db im i) = Inr im"
  by (simp_all add: write_db_def current_db_def live_image_def)

lemma live_image_Inr: "live_image i = Inr im \<longleftrightarrow> current_db i = Some (Sqlite im)"
  by (auto simp: live_image_def split: option.splits content.splits)

lemma data_of_simps [simp]:
  "current_db (data_of s) = current_db (dk_data s)" "in_db (data_of s) = in_db (dk_data s)" "in_cars (data_of s) = in_cars (dk_data s)"
  "in_wal (data_of s) = in_wal (dk_data s)" "in_rollbacks (data_of s) = in_rollbacks (dk_data s)"
  "in_old_db (data_of s) = in_old_db (dk_data s)" "in_old_cars (data_of s) = in_old_cars (dk_data s)"
  "tidy (data_of s) = tidy (dk_data s)" "live_image (data_of s) = live_image (dk_data s)"
  by (simp_all add: data_of_def current_db_def tidy_def photos_of_def live_image_def cong: option.case_cong)

lemma set_data_simps [simp]:
  "dk_data (set_data i s) = i" "dk_pending (set_data i s) = dk_pending s" "dk_maintenance (set_data i s) = dk_maintenance s"
  "dk_update (set_data i s) = dk_update s" "dk_backups (set_data i s) = dk_backups s" "get_backup n (set_data i s) = get_backup n s"
  by (simp_all add: set_data_def get_backup_def)

lemma put_backup_simps [simp]:
  "dk_data (put_backup n f s) = dk_data s" "dk_pending (put_backup n f s) = dk_pending s"
  "dk_maintenance (put_backup n f s) = dk_maintenance s" "dk_update (put_backup n f s) = dk_update s"
  "data_of (put_backup n f s) = data_of s" "live_db (put_backup n f s) = live_db s"
  by (simp_all add: put_backup_def data_of_def live_db_def)

lemma map_of_filter_other:
  "map_of (filter (\<lambda>x. fst x \<noteq> n) l) m = (if m = n then None else map_of l m)"
  by (induction l) auto

lemma get_put_backup [simp]: "get_backup m (put_backup n f s) = (if m = n then f else get_backup m s)"
  by (simp add: get_backup_def put_backup_def map_of_filter_other map_add_def split: option.split)

lemma change_db_live: "live_image i = Inr im \<Longrightarrow> change_db f i = write_db (im\<lparr>im_db := f (im_db im)\<rparr>) i"
  by (simp add: change_db_def)

lemma change_db_write [simp]: "change_db f (write_db im i) = write_db (im\<lparr>im_db := f (im_db im)\<rparr>) i"
  by (simp add: change_db_def write_db_def live_image_def current_db_def)

lemma change_db_keeps [simp]:
  "in_cars (change_db f i) = in_cars i" "in_lock (change_db f i) = in_lock i" "in_rollbacks (change_db f i) = in_rollbacks i"
  "in_old_db (change_db f i) = in_old_db i" "in_old_cars (change_db f i) = in_old_cars i" "tidy (change_db f i) = tidy i"
  by (simp_all add: change_db_def tidy_def photos_of_def split: sum.split)

text \<open>An initialised database is migrated, and only it has changed.\<close>

lemma initialized:
  assumes "initialize_database t i = Inr i'"
  obtains im where "i' = write_db im i" "up_to_date im"
proof -
  obtain im0 im where "migrate_sqlite t im0 = Inr im" "i' = write_db im i"
    using assms by (auto simp: initialize_database_def split: option.splits content.splits sum.splits)
  then show ?thesis using that migrated_up_to_date by blast
qed

lemma initialize_current: "live_image i = Inr im \<Longrightarrow> up_to_date im \<Longrightarrow> initialize_database t i = Inr (write_db im i)"
  by (simp add: initialize_database_def live_image_Inr up_to_date_migrate)

section \<open>No scan starts while an update is prepared\<close>

text \<open>The operations on the queue while a lock file is seen: those that ask for it are refused.\<close>

inductive guarded_step :: "env \<Rightarrow> db \<Rightarrow> db \<Rightarrow> bool" for ev where
  scan: "guarded_step ev d (snd (scan_projects ev True ent t rq ids d))"
| scan_cars: "guarded_step ev d (snd (scan_cars ev True ent t rq ids project d))"
| refresh: "guarded_step ev d (snd (refresh_car_request ev True ent t rq c project d))"
| cancel: "guarded_step ev d (snd (cancel_scan ev t rq i d))"
| tick: "guarded_step ev d (enqueue_scheduled True e t d)"
| catch_up: "guarded_step ev d (snd (prepare_overdue_scheduler_catch_up t forced d))"
| claim: "guarded_step ev d (snd (claim_next_job True w t d))"
| heartbeat: "guarded_step ev d (snd (heartbeat_job j w t d))"
| detach: "guarded_step ev d (snd (detach_project_from_active_jobs owner pid t d))"
| recover: "guarded_step ev d (snd (recover_interrupted_jobs reason t d))"
| shutdown: "guarded_step ev d (snd (request_shutdown_cancellation t d))"
| sleep: "guarded_step ev d (snd (request_sleep_interruption t d))"

interpretation closed_queue: request_invariant nothing_open
  by unfold_locales (simp add: nothing_open_def touch_session_def set_user_def set_session_def)

lemma nothing_open_requests:
  assumes "nothing_open d"
  shows "nothing_open (snd (scan_projects ev True ent t rq ids d))"
    "nothing_open (snd (scan_cars ev True ent t rq ids project d))"
    "nothing_open (snd (refresh_car_request ev True ent t rq c project d))"
  unfolding scan_projects_def scan_cars_def refresh_car_request_def
  by (rule closed_queue.require_csrf_keeps [OF assms];
      simp add: queue_projects_def queue_cars_def queue_refresh_def Let_def enqueue_def)+

lemma nothing_open_cancel: "nothing_open d \<Longrightarrow> nothing_open (snd (cancel_scan ev t rq i d))"
  unfolding cancel_scan_def
proof (rule closed_queue.require_csrf_keeps, assumption)
  fix u :: user and s d assume d: "nothing_open d"
  have "r_status r \<notin> {QUEUED, RUNNING}" if "owned_run d i (u_id u) = Some r" for r
    using that d by (auto simp: owned_run_def nothing_open_def list_all_iff open_status_def dest!: first_row_Some)
  with d show "nothing_open (snd (cancel_owned t i u s d))"
    by (auto simp: cancel_owned_def split: option.split)
qed

lemma guarded_step_closed: "guarded_step ev d d' \<Longrightarrow> nothing_open d \<Longrightarrow> nothing_open d'"
  by (induction rule: guarded_step.induct)
    (simp_all add: nothing_open_requests nothing_open_cancel catch_up.nothing_opened claim.nothing_opened
      heartbeat.nothing_opened detach.nothing_opened recover.nothing_opened shutdown.nothing_opened sleep.nothing_opened
      enqueue_scheduled_def)

lemma unfinished_open: "unfinished_status s \<longleftrightarrow> open_status s"
  by (auto simp: unfinished_status_def open_status_def)

lemma unfinished_none: "unfinished_count s = Inr 0 \<longleftrightarrow> (\<exists>im. live_image (dk_data s) = Inr im) \<and> nothing_open (live_db s)"
  by (cases "live_image (dk_data s)")
    (auto simp: unfinished_count_def live_db_def nothing_open_def list_all_iff filter_empty_conv unfinished_open)

lemma begun:
  "begin_update_install pid t s = Inr s' \<Longrightarrow> dk_update s' \<noteq> No_File \<and> data_of s' = data_of s \<and> dk_data s' = dk_data s \<and>
     dk_pending s' = dk_pending s \<and> py_eq (dget (lock_document (dk_update s')) ''pid'') (JInt pid)"
  by (auto simp: begin_update_install_def data_of_def lock_document_def split: if_splits)

lemma finished: "py_eq (dget (lock_document (dk_update s)) ''pid'') (JInt pid) \<Longrightarrow> dk_update (snd (finish_update_install pid s)) = No_File"
  by (auto simp: finish_update_install_def Let_def)

lemma guarded_ready:
  assumes "guarded_update ev t name s = Inr (Ready b, s')" "tidy (dk_data s)"
  shows "b = name \<and> unfinished_count s = Inr 0 \<and> (\<exists>archive. s' = put_backup name (Zip archive) s \<and> archive_holds ev archive (data_of s))"
  using assms exported_archive_holds [of ev t "[''backups'', name]" "data_of s"]
  by (auto simp: guarded_update_def split: if_splits)

lemma guarded_active: "guarded_update ev t name s = Inr (Active_Scan n, s') \<Longrightarrow> s' = s \<and> n \<noteq> 0"
  by (auto simp: guarded_update_def split: if_splits)

text \<open>An update is prepared safely. It is ready only when no scan was open after the lock file was there, an archive of
exactly this data was made, and while the lock file stands no operation on the queue opens a scan. An attempt
that is not ready leaves no lock file behind.\<close>

theorem update_is_prepared_safely:
  assumes "prepare_desktop_update ev pid t name others s = (r, s')" "tidy (dk_data (others s))"
    and "dk_update s = No_File" "dk_update (others s) = No_File"
  shows "case r of
      Inr (Ready b) \<Rightarrow> b = name \<and> maintenance_active s' \<and>
        (\<exists>archive. get_backup name s' = Zip archive \<and> archive_holds ev archive (data_of s')) \<and>
        (\<forall>d'. (guarded_step ev')\<^sup>*\<^sup>* (live_db s') d' \<longrightarrow> nothing_open d')
    | _ \<Rightarrow> dk_update s' = No_File"
proof (cases "unfinished_count s = Inr 0")
  case False
  then have "s' = s" "\<forall>b. r \<noteq> Inr (Ready b)"
    using assms(1) by (auto simp: prepare_desktop_update_def split: sum.splits if_splits)
  then show ?thesis using assms(3) by (auto split: sum.split update_answer.split)
next
  case True
  obtain s1 where s1: "begin_update_install pid t (others s) = Inr s1"
    using assms(4) by (simp add: begin_update_install_def)
  note b = begun [OF s1]
  have r: "(r, s') = (case guarded_update ev t name s1 of
       Inl e \<Rightarrow> (Inl e, snd (finish_update_install pid s1))
     | Inr (Ready b, s2) \<Rightarrow> (Inr (Ready b), s2)
     | Inr (Active_Scan n, s2) \<Rightarrow> (Inr (Active_Scan n), snd (finish_update_install pid s2)))"
    using assms(1) True s1 by (simp add: prepare_desktop_update_def)
  show ?thesis
  proof (cases "guarded_update ev t name s1")
    case (Inl e)
    then show ?thesis using r finished b by simp
  next
    case (Inr x)
    obtain a s2 where x: "x = (a, s2)" by (cases x)
    show ?thesis
    proof (cases a)
      case (Active_Scan n)
      then show ?thesis using r x Inr finished b guarded_active [of ev t name s1 n s2] by simp
    next
      case (Ready name')
      have "tidy (dk_data s1)" using b assms(2) by simp
      note g = guarded_ready [OF Inr [unfolded x Ready] this]
      then obtain archive where a: "s2 = put_backup name (Zip archive) s1" "archive_holds ev archive (data_of s1)"
        by blast
      have "(guarded_step ev')\<^sup>*\<^sup>* (live_db s2) d' \<Longrightarrow> nothing_open d'" for d'
      proof (induction rule: rtranclp_induct)
        case base
        then show ?case using g a unfinished_none [of s1] by simp
      qed (rule guarded_step_closed)
      then show ?thesis
        using r x Inr Ready g a b by (simp add: maintenance_active_def)
    qed
  qed
qed

section \<open>A staged restore is applied once\<close>

lemma interrupted_dataE:
  assumes "interrupted_data t i = Inr i1"
  obtains im where "i1 = write_db im i" "up_to_date im" "nothing_open (im_db im)"
proof -
  obtain i0 where i0: "initialize_database t i = Inr i0"
    and i1: "i1 = change_db (\<lambda>d. snd (interrupt_unfinished_jobs ''BACKUP_RESTORE_REQUESTED'' t d)) i0"
    using assms by (auto simp: interrupted_data_def split: sum.splits)
  obtain im where im: "i0 = write_db im i" "up_to_date im" by (rule initialized [OF i0])
  let ?im = "im\<lparr>im_db := snd (interrupt_unfinished_jobs ''BACKUP_RESTORE_REQUESTED'' t (im_db im))\<rparr>"
  have "i1 = write_db ?im i"
    using im(1) i1 by simp
  moreover have "up_to_date ?im" using im(2) by (simp add: up_to_date_def recorded_def)
  moreover have "nothing_open (im_db ?im)"
    using interrupted_all by (auto simp: nothing_open_def list_all_iff unfinished_open)
  ultimately show ?thesis using that by blast
qed

text \<open>A staged restore is applied exactly once. Whatever happens, the next start consumes it and the one after finds
nothing to do. If it succeeds, the restored database is current, with no scan open and nobody signed in. If it
fails, the staged archive is kept under the name for failed restores, and the data, migrated and with its scans
ended, is still in place or in the archive made just before; if the failure came late, it is exactly in place.\<close>

theorem staged_restore_applied_once:
  assumes "apply_pending_restore ev t fault failed s = (r, s')" "dk_pending s \<noteq> Missing"
    and "tidy (dk_data s)" "in_old_db (dk_data s) = None" "in_old_cars (dk_data s) = None"
    and "interrupted_data t (data_of s) = Inr i1"
  shows "dk_pending s' = Missing \<and> apply_pending_restore ev t2 fault2 failed2 s' = (None, s') \<and>
    (case r of
       Some (Restored made version counts) \<Rightarrow>
         (\<exists>im. live_image (dk_data s') = Inr im \<and> up_to_date im \<and> nothing_open (im_db im) \<and> auth_sessions (im_db im) = [] \<and>
           version = schema_version im)
     | Some (Restore_Failed e name) \<Rightarrow> name = failed \<and> get_backup failed s' = dk_pending s \<and>
         ((live_image (dk_data s') = live_image i1 \<and> in_cars (dk_data s') = in_cars (dk_data s)) \<or>
          (\<exists>archive. in_rollbacks (dk_data s') = in_rollbacks (dk_data s) @ [archive] \<and> archive_holds ev archive i1)) \<and>
         (late_fault fault \<longrightarrow> dk_data s' = i1\<lparr>in_rollbacks := in_rollbacks (dk_data s')\<rparr>)
     | _ \<Rightarrow> False)"
proof -
  obtain im where i1: "i1 = write_db im (data_of s)" "up_to_date im"
    by (rule interrupted_dataE [OF assms(6)])
  have staged: "restore_staged ev t fault (dk_pending s) (data_of s) = restore_backup ev t fault (dk_pending s) i1"
    using assms(6) by (simp add: restore_staged_def)
  obtain x i where x: "restore_backup ev t fault (dk_pending s) i1 = (x, i)" by (cases "restore_backup ev t fault (dk_pending s) i1")
  show ?thesis
  proof (cases x)
    case (Inr y)
    obtain made version counts where y: "y = (made, version, counts)" by (cases y)
    have s': "r = Some (Restored made version counts)" "dk_pending s' = Missing" "dk_data s' = i"
      using assms(1,2) staged x Inr y by (auto simp: apply_pending_restore_def Let_def)
    obtain im' where "current_db i = Some (Sqlite im')" "list_all (\<lambda>r. \<not> unfinished_status (r_status r)) (scan_runs (im_db im'))"
      "auth_sessions (im_db im') = []" "up_to_date im'" "version = schema_version im'"
      using restored_installation_is_quiet [OF x [unfolded Inr y]] by blast
    then show ?thesis
      using s' by (simp add: apply_pending_restore_def live_image_Inr nothing_open_def unfinished_open)
  next
    case (Inl e)
    have s': "r = Some (Restore_Failed e failed)" "dk_pending s' = Missing" "dk_data s' = i" "get_backup failed s' = dk_pending s"
      using assms(1,2) staged x Inl by (auto simp: apply_pending_restore_def Let_def)
    have "tidy i1" using i1 assms(3) by (simp add: tidy_def photos_of_def)
    moreover have "in_db i1 \<noteq> None" "in_old_db i1 = None" "in_old_cars i1 = None" "in_wal i1 = None"
      using assms(4,5) by (simp_all add: i1)
    ultimately have f: "((in_db i = in_db i1 \<and> in_wal i = in_wal i1 \<and> in_cars i = in_cars i1) \<or>
      (\<exists>archive. in_rollbacks i = in_rollbacks i1 @ [archive] \<and> archive_holds ev archive i1)) \<and>
    (late_fault fault \<longrightarrow> i = i1\<lparr>in_rollbacks := in_rollbacks i\<rparr>)"
      using failed_restore_loses_nothing [OF x [unfolded Inl]] by simp
    moreover have "live_image i = live_image i1 \<and> in_cars i = in_cars (dk_data s)"
      if "in_db i = in_db i1 \<and> in_wal i = in_wal i1 \<and> in_cars i = in_cars i1"
      using that by (simp add: live_image_def current_db_def i1 write_db_def)
    moreover have "in_rollbacks i1 = in_rollbacks (dk_data s)" by (simp add: i1)
    ultimately show ?thesis
      using s' by (auto simp: apply_pending_restore_def)
  qed
qed


lemma staged:
  assumes "stage_desktop_restore bv ev t rq name s = (Inr v, s')"
  shows "dk_pending s' = get_backup name s \<and> in_cars (dk_data s') = in_cars (dk_data s) \<and>
    in_old_db (dk_data s') = in_old_db (dk_data s) \<and> in_old_cars (dk_data s') = in_old_cars (dk_data s)"
  using assms
  by (auto simp: stage_desktop_restore_def data_request_def named_backup_def audit_live_def set_live_db_def
      split: prod.splits sum.splits option.splits if_splits)

lemma data_request_ok:
  assumes "data_request auth k s = (Inr x, s')"
  shows "\<exists>u d. auth (live_db s) = (Inr u, d) \<and> require_desktop_data_access True u d = None \<and> k u (set_live_db d s) = (Inr x, s')"
  using assms by (auto simp: data_request_def split: prod.splits sum.splits option.splits)

lemma created_backup:
  assumes "create_desktop_backup bv ev t rq name s = (Inr v, s')"
  shows "\<exists>d archive. export_backup bv t [''backups'', name] (data_of (set_live_db d s)) = Inr (archive, v) \<and>
    get_backup name s' = Zip archive \<and> fst (csrf_user ev t rq (live_db s)) \<in> range Inr \<and> d = snd (csrf_user ev t rq (live_db s))"
proof -
  obtain u d where u: "csrf_user ev t rq (live_db s) = (Inr u, d)"
    "(case export_backup bv t [''backups'', name] (data_of (set_live_db d s)) of
       Inl (Busy m) \<Rightarrow> (Inl (HTTPException 409 m), set_live_db d s)
     | Inl _ \<Rightarrow> (Inl (HTTPException 500 ''internal_error''), set_live_db d s)
     | Inr (archive, v) \<Rightarrow> (Inr v, audit_live ''DESKTOP_BACKUP_CREATED'' u name None (put_backup name (Zip archive) (set_live_db d s)))) = (Inr v, s')"
    using data_request_ok [OF assms [unfolded create_desktop_backup_def]] by blast
  then obtain archive where "export_backup bv t [''backups'', name] (data_of (set_live_db d s)) = Inr (archive, v)"
    "s' = audit_live ''DESKTOP_BACKUP_CREATED'' u name None (put_backup name (Zip archive) (set_live_db d s))"
    by (auto split: sum.splits backup_error.splits)
  then show ?thesis using u(1) by (auto simp: audit_live_def)
qed

text \<open>Round trip through the desktop. A backup made in one session, still there in a later one, chosen there for a restore and
applied at the next start brings back the database of the backup, with portable paths and without sessions, and
exactly its photos, provided the data to be replaced can itself be archived.\<close>

theorem backup_returns_after_restart:
  assumes "create_desktop_backup bv ev t rq name s = (Inr v, s1)" "tidy (dk_data s)"
    and "live_image (dk_data s) = Inr im" "up_to_date im"
    and "get_backup name s2 = get_backup name s1" "stage_desktop_restore bv ev t2 rq2 name s2 = (Inr v2, s3)"
    and "interrupted_data t3 (data_of s3) = Inr i" "rollback_backup bv t3 i \<in> range Inr"
  shows "case apply_pending_restore bv t3 None failed s3 of (r, s4) \<Rightarrow>
    r = dk_result s4 \<and> r \<noteq> None \<and> (\<forall>e n. r \<noteq> Some (Restore_Failed e n)) \<and> dk_pending s4 = Missing \<and>
    live_image (dk_data s4) = Inr (prepare_backup_database_copy (be_below bv)
      (im\<lparr>im_db := snd (csrf_user ev t rq (im_db im))\<rparr>)) \<and>
    in_cars (dk_data s4) = Some (photos_of (dk_data s))"
proof -
  obtain d archive where a: "export_backup bv t [''backups'', name] (data_of (set_live_db d s)) = Inr (archive, v)"
    "get_backup name s1 = Zip archive" "d = snd (csrf_user ev t rq (live_db s))"
    using created_backup [OF assms(1)] by blast
  let ?im = "im\<lparr>im_db := d\<rparr>"
  have d: "d = snd (csrf_user ev t rq (im_db im))" using a(3) assms(3) by (simp add: live_db_def)
  have data: "dk_data (set_live_db d s) = write_db ?im (dk_data s)"
    using assms(3) by (simp add: set_live_db_def change_db_live)
  have ph: "photos_of (data_of (set_live_db d s)) = photos_of (dk_data s)"
    by (simp add: photos_of_def data)
  have "tidy (data_of (set_live_db d s))" using assms(2) by (simp add: data tidy_def photos_of_def)
  moreover have "current_db (data_of (set_live_db d s)) = Some (Sqlite ?im)" by (simp add: data)
  moreover have "up_to_date ?im" using assms(4) by (simp add: up_to_date_def recorded_def)
  moreover obtain i2 where "rollback_backup bv t3 i = Inr i2" using assms(8) by auto
  ultimately obtain info s2' where r: "restore_backup bv t3 None (Zip archive) i = (Inr info, s2')"
    "current_db s2' = Some (Sqlite (prepare_backup_database_copy (be_below bv) ?im))"
    "in_cars s2' = Some (photos_of (data_of (set_live_db d s)))"
    using backup_round_trip [OF a(1) _ _ _ _ refl, of ?im t3 i i2] by blast
  have p: "dk_pending s3 = Zip archive" using staged [OF assms(6)] assms(5) a(2) by simp
  obtain made version counts where "info = (made, version, counts)" by (cases info)
  then have "apply_pending_restore bv t3 None failed s3 =
      (Some (Restored made version counts), s3\<lparr>dk_data := s2', dk_pending := Missing, dk_result := Some (Restored made version counts)\<rparr>)"
    using p assms(7) r(1) by (simp add: apply_pending_restore_def restore_staged_def Let_def)
  then show ?thesis
    using r(2,3) ph d by (simp add: live_image_Inr)
qed

section \<open>What a start leaves\<close>

lemma up_to_date_db [simp]: "up_to_date (im\<lparr>im_db := d\<rparr>) = up_to_date im"
  by (simp add: up_to_date_def recorded_def)

text \<open>With several accounts the data is archived before it is erased, or nothing is touched.\<close>

lemma resetE:
  assumes "reset_workspace ev t name s = (r, s')" "tidy (dk_data s)"
  obtains e where "r = Inl e" "s' = s"
  | archive where "archive_holds ev archive (data_of s)" "get_backup name s' = Zip archive"
      "r \<in> range Inl \<and> dk_data s' = erased (dk_data s) \<or>
       r = Inr Reset \<and> initialize_database t (erased (dk_data s)) = Inr (dk_data s')" "dk_pending s' = dk_pending s"
      "dk_maintenance s' = dk_maintenance s" "dk_update s' = dk_update s"
proof (cases "export_backup ev t [''backups'', name] (data_of s)")
  case (Inl e)
  then have "r = Inl e" "s' = s" using assms(1) by (simp_all add: reset_workspace_def)
  then show ?thesis by (rule that(1))
next
  case (Inr y)
  obtain archive v where y: "y = (archive, v)" by (cases y)
  have "archive_holds ev archive (data_of s)"
    by (rule exported_archive_holds [OF Inr [unfolded y]]) (use assms(2) in simp)
  then show ?thesis
    using that(2) assms(1) Inr y by (auto simp: reset_workspace_def Let_def split: sum.splits)
qed

lemma normalized:
  assumes "normalize_desktop_workspace ev t name s = (Inr r, s')" "live_image (dk_data s) = Inr im" "up_to_date im"
  shows "\<exists>im'. live_image (dk_data s') = Inr im' \<and> up_to_date im' \<and> workspace_only (im_db im') \<and>
    (r = Reset \<longrightarrow> im_db im' = empty_db) \<and> (r \<noteq> Reset \<longrightarrow> scan_runs (im_db im') = scan_runs (im_db im) \<and> in_cars (dk_data s') = in_cars (dk_data s)) \<and>
    dk_pending s' = dk_pending s \<and> dk_maintenance s' = dk_maintenance s \<and> dk_update s' = dk_update s"
proof -
  obtain a d where m: "migrate_legacy_desktop_workspace (im_db im) = (a, d)" by (cases "migrate_legacy_desktop_workspace (im_db im)")
  show ?thesis
  proof (cases "a = Multiple")
    case False
    then have s': "r = Normal a" "s' = set_data (write_db (im\<lparr>im_db := d\<rparr>) (dk_data s)) s"
      using assms(1,2) m by (cases a; simp add: normalize_desktop_workspace_def)+
    moreover have "workspace_only d" using migrated_workspace_only [of "im_db im"] m False by simp
    moreover have "scan_runs d = scan_runs (im_db im)"
      using m by (auto simp: migrate_legacy_desktop_workspace_def set_user_def audit_def split: list.splits if_splits)
    ultimately show ?thesis using assms(3) by simp
  next
    case True
    then have "reset_workspace ev t name s = (Inr r, s')"
      using assms(1,2) m by (simp add: normalize_desktop_workspace_def)
    then obtain archive i where s': "s' = set_data i (set_data (erased (dk_data s)) (put_backup name (Zip archive) s))" "r = Reset"
      "initialize_database t (erased (dk_data s)) = Inr i"
      by (auto simp: reset_workspace_def Let_def split: sum.splits)
    let ?new = "\<lparr>im_db = empty_db, im_applied = None, im_integrity = ''ok'', im_violations = 0\<rparr>"
    have "current_db (erased (dk_data s)) = None" by (simp add: erased_def current_db_def)
    then obtain im' where im': "migrate_sqlite t ?new = Inr im'" "i = write_db im' (erased (dk_data s))"
      using s'(3) by (auto simp: initialize_database_def split: sum.splits)
    have "im' = ?new\<lparr>im_applied := Some (map migration_row MIGRATIONS)\<rparr>"
      using im'(1) idle_migrated [of t] idle_migrated_image [of t] by (simp add: idle_image_def)
    then have "im_db im' = empty_db" by simp
    moreover have "workspace_only empty_db" by (simp add: workspace_only_def empty_db_def)
    ultimately show ?thesis using s'(1,2) im'(2) migrated_up_to_date [OF im'(1)] by simp
  qed
qed

lemma recovered_accounts: "users (recover_scans t d) = users d"
  by (simp add: recover_scans_def recover_interrupted_jobs_def prepare_overdue_scheduler_catch_up_def Let_def)

lemma recovered_inactive: "active_ids (recover_scans t d) = {}"
  using recovered_idle [of "''APPLICATION_RESTARTED''" t d]
  by (simp add: recover_scans_def prepare_overdue_scheduler_catch_up_def active_ids_def split: prod.split)

lemma pending_consumed: "dk_pending (snd (apply_pending_restore ev t fault failed s)) = Missing"
  by (auto simp: apply_pending_restore_def Let_def split: prod.split sum.split)

lemma locks_kept:
  "dk_maintenance (snd (apply_pending_restore ev t fault failed s)) = dk_maintenance s"
  "dk_update (snd (apply_pending_restore ev t fault failed s)) = dk_update s"
  by (auto simp: apply_pending_restore_def Let_def split: prod.split sum.split)

lemma cleared:
  "\<not> stale alive (dk_maintenance (snd (clear_stale_maintenance_lock alive s)))"
  "\<not> stale alive (dk_update (snd (clear_stale_maintenance_lock alive s)))"
  by (simp_all add: clear_stale_maintenance_lock_def) (simp_all add: stale_def)

text \<open>What a start leaves. A start that reaches the worker leaves a database at the current schema with no account but
the hidden workspace, no run that still counts as active, no staged restore and no lock file of a dead process;
if accounts had to be reset, the database is empty.\<close>

theorem start_leaves_workspace_ready:
  assumes "start_up ev alive t fault failed legacy s = (Inr r, s')"
  shows "\<exists>im. live_image (dk_data s') = Inr im \<and> up_to_date im \<and> workspace_only (im_db im) \<and> active_ids (im_db im) = {} \<and>
    (r = Reset \<longrightarrow> users (im_db im) = []) \<and> dk_pending s' = Missing \<and>
    \<not> stale alive (dk_maintenance s') \<and> \<not> stale alive (dk_update s')"
proof -
  let ?s1 = "snd (clear_stale_maintenance_lock alive s)"
  let ?s2 = "snd (apply_pending_restore ev t fault failed ?s1)"
  obtain i s3 where i: "initialize_database t (dk_data ?s2) = Inr i"
    "normalize_desktop_workspace ev t legacy (set_data i ?s2) = (Inr r, s3)"
    "s' = set_data (change_db (recover_scans t) (dk_data s3)) s3"
    using assms by (auto simp: start_up_def open_workspace_data_def split: sum.splits prod.splits)
  obtain im where im: "i = write_db im (dk_data ?s2)" "up_to_date im" by (rule initialized [OF i(1)])
  have "live_image (dk_data (set_data i ?s2)) = Inr im" by (simp add: im(1))
  from normalized [OF i(2) this im(2)] obtain im' where n: "live_image (dk_data s3) = Inr im'" "up_to_date im'"
    "workspace_only (im_db im')" "r = Reset \<longrightarrow> im_db im' = empty_db"
    "dk_pending s3 = dk_pending ?s2" "dk_maintenance s3 = dk_maintenance ?s2" "dk_update s3 = dk_update ?s2"
    by auto
  have "dk_data s' = write_db (im'\<lparr>im_db := recover_scans t (im_db im')\<rparr>) (dk_data s3)"
    using i(3) n(1) by (simp add: change_db_live)
  then show ?thesis
    using n recovered_accounts recovered_inactive pending_consumed locks_kept cleared i(3)
    by (auto simp: workspace_only_def empty_db_def)
qed

text \<open>An installation of several accounts is never lost silently. However its normalisation ends, either nothing of the
installation changed or an archive that holds all of its data stands under the given name.\<close>

theorem legacy_accounts_are_archived:
  assumes "normalize_desktop_workspace ev t name s = (r, s')" "tidy (dk_data s)"
    and "live_image (dk_data s) = Inr im" "1 < length (users (im_db im))"
  shows "(\<exists>e. r = Inl e) \<and> s' = s \<or>
    (\<exists>archive. get_backup name s' = Zip archive \<and> archive_holds ev archive (data_of s))"
proof -
  have "fst (migrate_legacy_desktop_workspace (im_db im)) = Multiple"
    using assms(4) by (auto simp: migrate_legacy_desktop_workspace_def split: list.splits)
  then have "reset_workspace ev t name s = (r, s')"
    using assms(1,3) by (cases "migrate_legacy_desktop_workspace (im_db im)") (simp add: normalize_desktop_workspace_def)
  then show ?thesis
    using assms(2) by (rule resetE) auto
qed

text \<open>But the reset comes before the recovery of scans, and an archive refuses an open scan: an installation of
several accounts in which a scan was queued or running can never start.\<close>

lemma open_scan_blocks_reset:
  assumes "live_image (dk_data s) = Inr im" "1 < length (users (im_db im))" "\<not> nothing_open (im_db im)" "dk_maintenance s = No_File"
    and "[''backups'', name] \<noteq> be_database ev" "\<not> below_path (be_storage ev) [''backups'', name]"
  shows "normalize_desktop_workspace ev t name s = (Inl (Busy ''backup_blocked_by_active_scan''), s)"
proof -
  have "fst (migrate_legacy_desktop_workspace (im_db im)) = Multiple"
    using assms(2) by (auto simp: migrate_legacy_desktop_workspace_def split: list.splits)
  moreover have "current_db (data_of s) = Some (Sqlite im)" "in_db (data_of s) \<noteq> None" "\<not> in_lock (data_of s)"
    using assms(1,4) by (auto simp: live_image_Inr data_of_def current_db_def split: option.splits)
  moreover have "filter (\<lambda>r. unfinished_status (r_status r)) (scan_runs (im_db im)) \<noteq> []"
    using assms(3) by (auto simp: nothing_open_def list_all_iff unfinished_open filter_empty_conv)
  ultimately have "export_backup ev t [''backups'', name] (data_of s) = Inl (Busy ''backup_blocked_by_active_scan'')"
    using assms(5,6) by (simp add: export_backup_def active_scan_count_def)
  then show ?thesis
    using assms(1) \<open>fst (migrate_legacy_desktop_workspace (im_db im)) = Multiple\<close>
    by (cases "migrate_legacy_desktop_workspace (im_db im)") (simp add: normalize_desktop_workspace_def reset_workspace_def)
qed

text \<open>An installation of several accounts that was stopped with a queued or running scan cannot start: every start ends
with the refusal of the archive and leaves the same database, so the next one fails in the same way.\<close>

theorem open_scan_blocks_start:
  assumes "live_image (dk_data s) = Inr im" "up_to_date im" "1 < length (users (im_db im))" "\<not> nothing_open (im_db im)"
    and "dk_maintenance s = No_File" "dk_update s = No_File" "dk_pending s = Missing"
    and "[''backups'', legacy] \<noteq> be_database ev" "\<not> below_path (be_storage ev) [''backups'', legacy]"
  shows "\<exists>s'. start_up ev alive t fault failed legacy s = (Inl (Busy ''backup_blocked_by_active_scan''), s') \<and>
    live_image (dk_data s') = Inr im \<and> dk_maintenance s' = No_File \<and> dk_update s' = No_File \<and> dk_pending s' = Missing"
proof -
  have "snd (clear_stale_maintenance_lock alive s) = s"
    using assms(5,6) by (simp add: clear_stale_maintenance_lock_def stale_def)
  moreover have "snd (apply_pending_restore ev t fault failed s) = s"
    using assms(7) by (simp add: apply_pending_restore_def)
  moreover note initialize_current [OF assms(1,2), of t]
  moreover have "normalize_desktop_workspace ev t legacy (set_data (write_db im (dk_data s)) s) =
      (Inl (Busy ''backup_blocked_by_active_scan''), set_data (write_db im (dk_data s)) s)"
    by (rule open_scan_blocks_reset) (use assms in simp_all)
  ultimately show ?thesis
    using assms(5-7) by (simp add: start_up_def open_workspace_data_def)
qed

section \<open>The shell and the window\<close>

text \<open>\<^verbatim>\<open>desktop_scheduler_resumed\<close> after the computer slept: interrupted scans, then due timers, then one tick.\<close>

definition desktop_scheduler_resumed ::
  "bool \<Rightarrow> bool \<Rightarrow> time \<Rightarrow> db \<Rightarrow> (int list \<times> int list) \<times> db" where
  "desktop_scheduler_resumed maintenance entitled t d =
     (let ((requested, owners), d1) = request_sleep_interruption t d;
          (due, d2) = prepare_overdue_scheduler_catch_up t (set owners) d1
      in ((requested, due), enqueue_scheduled maintenance entitled t d2))"

text \<open>The two relays between the window and the updater.\<close>

definition UPDATE_STATES :: "string list" where
  "UPDATE_STATES = [''idle'', ''checking'', ''available'', ''preparing'', ''downloading'', ''retrying'', ''installing'', ''failed'']"

record update_relay =
  ur_requested :: bool
  ur_state :: string
  ur_progress :: "int option"

definition new_relay :: update_relay where
  "new_relay = \<lparr>ur_requested = False, ur_state = ''idle'', ur_progress = None\<rparr>"

definition set_update_state :: "string \<Rightarrow> int option \<Rightarrow> update_relay \<Rightarrow> string + update_relay" where
  "set_update_state state progress u =
     (if state \<notin> set UPDATE_STATES then Inl ''desktop_update_state_invalid''
      else if (case progress of Some p \<Rightarrow> \<not> (0 \<le> p \<and> p \<le> 100) | None \<Rightarrow> False) then Inl ''desktop_update_progress_invalid''
      else Inr (u\<lparr>ur_state := state, ur_progress := (if state = ''downloading'' then progress else None)\<rparr>))"

definition request_update_check :: "update_relay \<Rightarrow> string + update_relay" where
  "request_update_check u = map_sum id (\<lambda>u. u\<lparr>ur_requested := True\<rparr>) (set_update_state ''checking'' None u)"

definition consume_update_check :: "update_relay \<Rightarrow> bool \<times> update_relay" where
  "consume_update_check u = (ur_requested u, u\<lparr>ur_requested := False\<rparr>)"

definition valid_relay :: "update_relay \<Rightarrow> bool" where
  "valid_relay u \<longleftrightarrow> ur_state u \<in> set UPDATE_STATES \<and>
     (case ur_progress u of None \<Rightarrow> True | Some p \<Rightarrow> ur_state u = ''downloading'' \<and> 0 \<le> p \<and> p \<le> 100)"

lemma new_relay_valid: "valid_relay new_relay"
  by (simp add: valid_relay_def new_relay_def UPDATE_STATES_def)

lemma relay_stays_valid: "set_update_state state progress u = Inr u' \<Longrightarrow> valid_relay u' \<and> ur_requested u' = ur_requested u"
  by (cases "state \<in> set UPDATE_STATES") (auto simp: valid_relay_def set_update_state_def split: option.splits if_splits)

lemma consumed_relay_valid: "valid_relay u \<Longrightarrow> valid_relay (snd (consume_update_check u))"
  by (simp add: valid_relay_def consume_update_check_def split: option.splits)

text \<open>One request of the window reaches the updater exactly once.\<close>

lemma update_check_delivered_once:
  "\<exists>u'. request_update_check u = Inr u' \<and> fst (consume_update_check u') \<and>
     \<not> fst (consume_update_check (snd (consume_update_check u')))"
  by (simp add: request_update_check_def set_update_state_def UPDATE_STATES_def consume_update_check_def)

text \<open>\<^verbatim>\<open>GracefulShutdownController.request\<close>: \<open>None\<close> before the first request. The database is asked once; the worker and
the server are stopped elsewhere.\<close>

type_synonym shutdown_state = "(int list \<times> int list) option"

definition request_shutdown :: "time \<Rightarrow> shutdown_state \<times> db \<Rightarrow> (int list \<times> int list) \<times> (shutdown_state \<times> db)" where
  "request_shutdown t s =
     (case fst s of
        Some r \<Rightarrow> (r, s)
      | None \<Rightarrow> (let (r, d) = request_shutdown_cancellation t (snd s) in (r, (Some r, d))))"

lemma shutdown_requested_once:
  "request_shutdown t s = (r, s') \<Longrightarrow> request_shutdown t' s' = (r, s')"
  by (auto simp: request_shutdown_def split: option.splits prod.splits)

text \<open>The requests the shell may send without the cookie of the window.\<close>

definition OPEN_PATHS :: "string list" where
  "OPEN_PATHS = [''/api/health'', ''/desktop/bootstrap'', ''/desktop/shutdown'', ''/desktop/tray-status'',
     ''/desktop/scheduler/toggle'', ''/desktop/scheduler/resumed'', ''/desktop/update-check/consume'',
     ''/desktop/update/status'', ''/desktop/update/prepare'', ''/desktop/update/abort'']"

definition desktop_session_refused :: "string \<Rightarrow> string \<Rightarrow> string option \<Rightarrow> bool" where
  "desktop_session_refused session_secret path cookie \<longleftrightarrow> path \<notin> set OPEN_PATHS \<and>
     (case cookie of Some c \<Rightarrow> c | None \<Rightarrow> []) \<noteq> sha256_hex session_secret"

section \<open>Examples\<close>

definition signed_image :: "(int \<times> string \<times> string) list \<Rightarrow> auth_session list \<Rightarrow> audit_log list \<Rightarrow> image" where
  "signed_image rows ss al = \<lparr>im_db = \<lparr>users = [(sample_user 7 ADMIN ACTIVE)\<lparr>u_password_hash := ''old''\<rparr>], auth_sessions = ss,
     auth_attempts = [], audit_logs = al, projects = [], cars = [], project_cars = [], user_car_states = [], car_aliases = [],
     car_snapshots = [], price_history = [], car_events = [], car_images = [],
     scan_runs = [], project_scan_runs = [], scheduler_settings = [], scheduled_projects = []\<rparr>,
   im_applied = Some rows, im_integrity = ''ok'', im_violations = 0\<rparr>"

definition sample_desktop :: "image \<Rightarrow> backup_file \<Rightarrow> desktop" where
  "sample_desktop im pending = \<lparr>dk_data = sample_installation im, dk_maintenance = No_File, dk_update = No_File,
     dk_pending = pending, dk_backups = [], dk_result = None\<rparr>"

abbreviation sample_rows :: "(int \<times> string \<times> string) list" where
  "sample_rows \<equiv> map migration_row MIGRATIONS"

abbreviation sample_sessions :: "auth_session list" where
  "sample_sessions \<equiv> [sample_session 1 7 (secure_hash ''mine'')]"

lemma sample_desktop_simps [simp]:
  "dk_data (sample_desktop im f) = sample_installation im" "dk_pending (sample_desktop im f) = f"
  "dk_maintenance (sample_desktop im f) = No_File" "dk_update (sample_desktop im f) = No_File"
  "data_of (sample_desktop im f) = sample_installation im" "live_image (sample_installation im) = Inr im"
  "in_old_db (sample_installation im) = None" "in_old_cars (sample_installation im) = None"
  "tidy (sample_installation im)" "write_db im' (sample_installation im) = sample_installation im'"
  by (simp_all add: sample_desktop_def data_of_def sample_installation_def live_image_def current_db_def write_db_def
      sample_tidy [unfolded sample_installation_def])

lemma sample_exports:
  "map_sum id (\<lambda>_. ()) (export_backup backup_sample 20 [''backups'', ''b.searchcar-backup''] (sample_installation (signed_image rows ss []))) = Inr ()"
  "map_sum id (\<lambda>_. ()) (export_backup backup_sample 20 (be_rollback backup_sample) (sample_installation (signed_image rows ss [a]))) = Inr ()"
  by code_simp+

lemma map_sum_unit: "map_sum id (\<lambda>_. ()) x = Inr () \<longleftrightarrow> x \<in> range Inr"
  by (cases x) auto

lemma signed_image_current: "up_to_date (signed_image sample_rows ss al)"
  using current_image_up_to_date by (simp add: current_image_def signed_image_def up_to_date_def recorded_def)

lemma signed_image_idle: "nothing_open (im_db (signed_image rows ss al))"
  by (simp add: nothing_open_def signed_image_def)

lemma signed_image_in: "im_db (signed_image rows sample_sessions []) = signed_in ADMIN"
  by (simp add: signed_image_def signed_in_def empty_db_def)

lemma update_is_prepared_safely_witness:
  "\<exists>s'. prepare_desktop_update backup_sample 5 20 ''b.searchcar-backup'' id (sample_desktop (signed_image rows ss []) Missing) = (Inr (Ready ''b.searchcar-backup''), s') \<and>
     maintenance_active s' \<and> (\<exists>archive. get_backup ''b.searchcar-backup'' s' = Zip archive \<and> archive_holds backup_sample archive (data_of s'))"
proof -
  let ?s = "sample_desktop (signed_image rows ss []) Missing"
  have count: "unfinished_count ?s = Inr 0"
    using signed_image_idle by (simp add: unfinished_none live_db_def)
  obtain archive v where "export_backup backup_sample 20 [''backups'', ''b.searchcar-backup''] (data_of ?s) = Inr (archive, v)"
    using sample_exports(1) [of rows ss] by (auto simp: map_sum_unit)
  moreover obtain s1 where s1: "begin_update_install 5 20 ?s = Inr s1" by (simp add: begin_update_install_def)
  ultimately have "guarded_update backup_sample 20 ''b.searchcar-backup'' s1 = Inr (Ready ''b.searchcar-backup'', put_backup ''b.searchcar-backup'' (Zip archive) s1)"
    using begun [OF s1] count by (simp add: guarded_update_def unfinished_count_def)
  then have p: "prepare_desktop_update backup_sample 5 20 ''b.searchcar-backup'' id ?s = (Inr (Ready ''b.searchcar-backup''), put_backup ''b.searchcar-backup'' (Zip archive) s1)"
    using count s1 by (simp add: prepare_desktop_update_def)
  show ?thesis using update_is_prepared_safely [OF p] p by simp
qed

lemma staged_restore_applied_once_witness:
  "\<exists>r s'. apply_pending_restore backup_sample 20 (Some 4) ''f'' (sample_desktop (signed_image sample_rows ss []) (Zip sample_archive)) = (r, s') \<and>
     dk_pending s' = Missing \<and> apply_pending_restore backup_sample 21 None ''g'' s' = (None, s')"
proof -
  let ?s = "sample_desktop (signed_image sample_rows ss []) (Zip sample_archive)"
  obtain r s' where a: "apply_pending_restore backup_sample 20 (Some 4) ''f'' ?s = (r, s')"
    by (cases "apply_pending_restore backup_sample 20 (Some 4) ''f'' ?s")
  have i: "interrupted_data 20 (data_of ?s) =
      Inr (change_db (\<lambda>d. snd (interrupt_unfinished_jobs ''BACKUP_RESTORE_REQUESTED'' 20 d)) (sample_installation (signed_image sample_rows ss [])))"
    by (simp add: interrupted_data_def initialize_current signed_image_current)
  show ?thesis
    using a staged_restore_applied_once [OF a _ _ _ _ i, of 21 None "''g''"] by simp
qed

lemma set_live_db_same:
  assumes "live_image (dk_data s) = Inr im" "in_wal (dk_data s) = None"
  shows "set_live_db (im_db im) s = s"
proof -
  have "write_db im (dk_data s) = dk_data s"
    using assms by (auto simp: write_db_def live_image_Inr current_db_def split: option.splits)
  then show ?thesis using assms(1) by (simp add: set_live_db_def change_db_live set_data_def)
qed

lemma sample_csrf_user:
  "csrf_user sample_env 20 (sample_request ''mine'') (signed_in ADMIN) =
     (Inr ((sample_user 7 ADMIN ACTIVE)\<lparr>u_password_hash := ''old''\<rparr>), signed_in ADMIN)"
  by (simp add: csrf_user_def signed_in_csrf)

lemma backup_returns_after_restart_witness:
  "\<exists>s3. live_image (dk_data (snd (apply_pending_restore backup_sample 20 None ''f'' s3))) =
     Inr (prepare_backup_database_copy (be_below backup_sample) (signed_image sample_rows sample_sessions []))"
proof -
  let ?im = "signed_image sample_rows sample_sessions []"
  let ?s = "sample_desktop ?im Missing"
  let ?u = "(sample_user 7 ADMIN ACTIVE)\<lparr>u_password_hash := ''old''\<rparr>"
  have live: "live_db ?s = signed_in ADMIN" by (simp add: live_db_def signed_image_in)
  have uid: "u_id ?u = 7" by (simp add: sample_user_def)
  have wal: "in_wal (sample_installation ?im) = None" by (simp add: sample_installation_def)
  have set: "set_live_db (signed_in ADMIN) ?s = ?s"
    using set_live_db_same [of ?s ?im] wal by (simp add: signed_image_in)
  have ok: "require_desktop_data_access True ?u (signed_in ADMIN) = None"
    by (simp add: require_desktop_data_access_def sample_user_def)
  obtain archive v where ex: "export_backup backup_sample 20 [''backups'', ''b.searchcar-backup''] (sample_installation ?im) = Inr (archive, v)"
    using sample_exports(1) [of sample_rows sample_sessions] by (auto simp: map_sum_unit)
  obtain s1 where s1: "create_desktop_backup backup_sample sample_env 20 (sample_request ''mine'') ''b.searchcar-backup'' ?s = (Inr v, s1)"
    "get_backup ''b.searchcar-backup'' s1 = Zip archive"
    using ex by (simp add: create_desktop_backup_def data_request_def live sample_csrf_user ok set audit_live_def)
  let ?s2 = "?s\<lparr>dk_backups := dk_backups s1\<rparr>"
  have g: "get_backup ''b.searchcar-backup'' ?s2 = Zip archive" using s1(2) by (simp add: get_backup_def)
  have valid: "validate_backup backup_sample (Zip archive) = Inr v"
    using ex by (auto simp: export_backup_def export_archive_def Let_def split: if_splits option.splits content.splits prod.splits)
  have "backup_name_ok ''b.searchcar-backup''" by code_simp
  then have named: "named_backup backup_sample ''b.searchcar-backup'' ?s2 = Inr v" by (simp add: named_backup_def g valid)
  let ?a = "(audit_entry ''DESKTOP_RESTORE_STAGED'')\<lparr>al_actor_user_id := Some 7, al_entity_type := Some ''BACKUP'',
    al_entity_id := JStr ''b.searchcar-backup'', al_payload := None\<rparr>"
  let ?s3 = "set_data (sample_installation (signed_image sample_rows sample_sessions [?a]))
    (?s2\<lparr>dk_pending := Zip archive, dk_result := Some Restore_Pending\<rparr>)"
  have "live_db ?s2 = signed_in ADMIN" "set_live_db (signed_in ADMIN) ?s2 = ?s2"
    using live set_live_db_same [of ?s2 ?im] wal by (simp_all add: live_db_def signed_image_in)
  moreover have "change_db (audit ?a) (sample_installation ?im) = sample_installation (signed_image sample_rows sample_sessions [?a])"
    by (simp add: change_db_live) (simp add: signed_image_def audit_def)
  ultimately have stage: "stage_desktop_restore backup_sample sample_env 20 (sample_request ''mine'') ''b.searchcar-backup'' ?s2 = (Inr v, ?s3)"
    using named g
    by (simp add: stage_desktop_restore_def data_request_def sample_csrf_user ok audit_live_def uid set_data_def)
  have data: "data_of ?s3 = sample_installation (signed_image sample_rows sample_sessions [?a])"
    by (simp add: data_of_def) (simp add: sample_installation_def sample_desktop_def)
  have int: "interrupted_data 20 (data_of ?s3) = Inr (sample_installation (signed_image sample_rows sample_sessions [?a]))"
    unfolding data
    by (simp add: interrupted_data_def initialize_current signed_image_current change_db_live)
      (simp add: signed_image_def interrupt_nothing)
  have rb: "rollback_backup backup_sample 20 (sample_installation (signed_image sample_rows sample_sessions [?a])) \<in> range Inr"
    using sample_exports(2) [of sample_rows sample_sessions ?a] by (auto simp: map_sum_unit rollback_backup_def)
  have g': "get_backup ''b.searchcar-backup'' ?s2 = get_backup ''b.searchcar-backup'' s1" using g s1(2) by simp
  have td: "tidy (dk_data ?s)" and lv: "live_image (dk_data ?s) = Inr ?im" by simp_all
  obtain r s4 where r: "apply_pending_restore backup_sample 20 None ''f'' ?s3 = (r, s4)"
    by (cases "apply_pending_restore backup_sample 20 None ''f'' ?s3")
  note ret = backup_returns_after_restart [OF s1(1) td lv signed_image_current g' stage int rb, of "''f''", unfolded r prod.case]
  have im: "?im\<lparr>im_db := snd (csrf_user sample_env 20 (sample_request ''mine'') (im_db ?im))\<rparr> = ?im"
    unfolding signed_image_in sample_csrf_user snd_conv
    unfolding signed_image_in [of sample_rows, symmetric] by simp
  have "live_image (dk_data s4) = Inr (prepare_backup_database_copy (be_below backup_sample) ?im)"
    using ret unfolding im by blast
  then have "live_image (dk_data (snd (apply_pending_restore backup_sample 20 None ''f'' ?s3))) =
      Inr (prepare_backup_database_copy (be_below backup_sample) ?im)"
    unfolding r snd_conv .
  then show ?thesis by (rule exI [where x = ?s3])
qed

lemma start_leaves_workspace_ready_witness:
  "\<exists>s'. start_up backup_sample (\<lambda>_. False) 20 None ''f'' ''l''
      (sample_desktop idle_image Missing) = (Inr (Normal Empty), s') \<and> dk_pending s' = Missing"
proof -
  have "migrate_sqlite 20 idle_image = Inr current_image"
    using idle_migrated idle_migrated_image by (simp add: current_image_def)
  then have "initialize_database 20 (sample_installation idle_image) = Inr (sample_installation current_image)"
    by (simp add: initialize_database_def) (simp add: sample_installation_def current_db_def write_db_def)
  moreover have "migrate_legacy_desktop_workspace (im_db current_image) = (Empty, im_db current_image)"
    by (simp add: migrate_legacy_desktop_workspace_def current_image_def idle_image_def empty_db_def)
  ultimately obtain s' where r: "start_up backup_sample (\<lambda>_. False) 20 None ''f'' ''l'' (sample_desktop idle_image Missing) = (Inr (Normal Empty), s')"
    by (simp add: start_up_def clear_stale_maintenance_lock_def stale_def apply_pending_restore_def open_workspace_data_def
        normalize_desktop_workspace_def)
  show ?thesis using r start_leaves_workspace_ready [OF r] by blast
qed

definition crowded_image :: image where
  "crowded_image = current_image\<lparr>im_db := empty_db\<lparr>users := [sample_user 1 USER ACTIVE, sample_user 2 ADMIN ACTIVE],
     scan_runs := [sample_run 3 1 QUEUED 0 []]\<rparr>\<rparr>"

lemma legacy_accounts_are_archived_witness:
  "\<exists>r s'. normalize_desktop_workspace backup_sample 20 ''l'' (sample_desktop crowded_image Missing) = (r, s') \<and>
     ((\<exists>e. r = Inl e) \<and> s' = sample_desktop crowded_image Missing \<or>
      (\<exists>archive. get_backup ''l'' s' = Zip archive \<and> archive_holds backup_sample archive (sample_installation crowded_image)))"
proof -
  obtain r s' where r: "normalize_desktop_workspace backup_sample 20 ''l'' (sample_desktop crowded_image Missing) = (r, s')"
    by (cases "normalize_desktop_workspace backup_sample 20 ''l'' (sample_desktop crowded_image Missing)")
  have "live_image (dk_data (sample_desktop crowded_image Missing)) = Inr crowded_image" "1 < length (users (im_db crowded_image))"
    by (simp_all add: crowded_image_def)
  then show ?thesis using r legacy_accounts_are_archived [OF r] by simp
qed

lemma open_scan_blocks_start_witness:
  "\<exists>s'. start_up backup_sample (\<lambda>_. False) 20 None ''f'' ''l'' (sample_desktop crowded_image Missing) =
     (Inl (Busy ''backup_blocked_by_active_scan''), s')"
proof -
  have "\<not> nothing_open (im_db crowded_image)" "1 < length (users (im_db crowded_image))" "up_to_date crowded_image"
    using current_image_up_to_date by (simp_all add: crowded_image_def nothing_open_def sample_run_def open_status_def)
  moreover have "[''backups'', ''l''] \<noteq> be_database backup_sample" "\<not> below_path (be_storage backup_sample) [''backups'', ''l'']"
    by (simp_all add: backup_sample_def below_path_def)
  ultimately show ?thesis
    using open_scan_blocks_start [of "sample_desktop crowded_image Missing" crowded_image "''l''" backup_sample "\<lambda>_. False" 20 None "''f''"]
    by auto
qed

end
