(* ===== verification/Spec2Isabelle.thy ===== *)
theory Spec2Isabelle
  imports WorkerFacts WorkerProgress DetailWorkers LicenseClient LiveUpdates Desktop
begin

text \<open>
  A verification development of the backend of SearchCar Desktop (\<^verbatim>\<open>backend/app\<close>), a service that follows
  searches of a Korean car market: it reads result pages and listings, keeps a catalogue of cars with
  their prices and events, and reports what changed. All definitions are translated from the source;
  names are those of the code wherever Isabelle allows it, and every definition that can be run is
  executable.

  \<^bold>\<open>How the parts interact.\<close> Accounts own projects; a project is a search address with conditions. A request
  or a timer queues a scan run; one worker claims the oldest run, reads the pages of its projects and the
  listings in a pool of browser threads, writes each reading into the catalogue, compares it with what the
  project last observed, and leaves a report. The desktop shell interrupts, backs up, restores and updates the
  installation; a signed lease decides whether scans are allowed. All state is the database (\<open>db\<close>, one list
  of rows per table of \<^verbatim>\<open>models.py\<close>); a request is a function from the database to an answer or an HTTP
  error and the new database (\<open>handler\<close>), which on an error is what the session would commit.

  \<^bold>\<open>Theories and what they model.\<close>
  \<^item> Prelude: JSON values, Python dictionaries and truth, rows and their updates (\<open>update_where\<close>), the frames
    \<open>changes_rows\<close> (only the named rows change, and how) and \<open>appends\<close>. PyStd: SHA-256, \<^verbatim>\<open>json.dumps\<close>, ISO
    times, rounding of 53-bit floating point. Schema: the tables. Samples: rows for witnesses.
  \<^item> JobQueue (\<^verbatim>\<open>job_queue.py\<close>): claim, heartbeat, detaching a project, recovery, shutdown, sleep, as moves
    along the life cycle \<open>run_next\<close> of a run (locale \<open>run_operation\<close>). QueueWork: no work is queued twice.
  \<^item> Scheduler (\<^verbatim>\<open>desktop_scheduler.py\<close>, the tick of \<^verbatim>\<open>worker.py\<close>, the form of \<^verbatim>\<open>main.py\<close>): timers, resume, tray.
  \<^item> Reporting (\<^verbatim>\<open>reporting.py\<close>), ListingDiff (end of \<^verbatim>\<open>parser.py\<close>), StoragePaths (\<^verbatim>\<open>storage_paths.py\<close>),
    ExternalLinks (\<^verbatim>\<open>external_links.py\<close>), VehicleGroups (\<^verbatim>\<open>vehicle_groups.py\<close>).
  \<^item> Tracking (\<^verbatim>\<open>services.py\<close>): what a reading or a search miss writes. Observations: what a scan reports about a car.
  \<^item> SearchUrls and SearchPages (\<^verbatim>\<open>scanner.py\<close>): the price condition of an address, the loop over result pages.
    SearchPages also has the procedures (\<open>proc\<close>: a state, a result or an exception) the worker is written in.
  \<^item> Worker, WorkerFacts, WorkerProgress (\<^verbatim>\<open>worker.process_job\<close>): one run from claim to result; other sessions act
    after each commit. DetailWorkers (\<^verbatim>\<open>detail_workers.py\<close>): the pool of threads as a step relation.
  \<^item> Auth, Accounts, Projects, CarsApi, ScanApi, Onboarding (\<^verbatim>\<open>auth.py\<close>, \<^verbatim>\<open>main.py\<close>, \<^verbatim>\<open>schemas.py\<close>,
    \<^verbatim>\<open>desktop_onboarding.py\<close>): the requests.
  \<^item> License, LicenseClient (\<^verbatim>\<open>desktop_license.py\<close>, \<^verbatim>\<open>desktop_license_client.py\<close>); LiveUpdates (\<^verbatim>\<open>live_updates.py\<close>).
  \<^item> Migrations, Backup, Desktop (\<^verbatim>\<open>sqlite_migrations.py\<close>, \<^verbatim>\<open>desktop_backup.py\<close>, \<^verbatim>\<open>maintenance.py\<close>,
    \<^verbatim>\<open>desktop_runtime.py\<close>).

  \<^bold>\<open>What the lemmas show.\<close> The properties are numbered \<^verbatim>\<open>C1\<close> to \<^verbatim>\<open>C40\<close> where they stand. Those of the queue and of
  deletions state the whole database afterwards: which rows change, how, and that all others are equal. Those of the
  requests are invariants over any sequence of requests (\<open>account_step\<close>, \<open>project_step\<close>). The pool of threads is
  refined to a bag of tasks, with a measure for its termination. A scan that reports success has failed no project,
  whatever other sessions do. Locales state the contracts that several operations share (\<open>run_operation\<close>,
  \<open>account_operation\<close>, \<open>request_invariant\<close> and others) and are interpreted on the operations themselves.

  \<^bold>\<open>Conventions and limits.\<close>
  \<^item> Times are microseconds. Times that SQLite sets itself have whole seconds (\<open>whole_second\<close>). A request or a step
    of the worker happens at one moment.
  \<^item> A request is one atomic step. In the server requests run in threads; a login, whose count of failures, check of
    the password and record of the failure are apart in time, can interleave with others, so the bound on guesses is
    one for requests handled one after the other. The worker is interleaved with other sessions at its commits.
  \<^item> Queries without \<^verbatim>\<open>ORDER BY\<close> return rows in the order of their primary keys.
  \<^item> The database accepts the worker's writes. A project that another session deletes during its scan makes the commit
    of the worker's exception handlers fail, and the run stays open until the next recovery; this is reported as a
    finding and not modelled (the update changes no row), so that no property claims that every run ends.
  \<^item> Names of a project's key are unique, names themselves need not be: a change to the empty name keeps the old key.
  \<^item> Loops that have a bound in the code have it here (pages, attempts); the others are structural. The worker's scan
    needs no fuel: it runs over lists fixed when it begins.
  \<^item> Arguments of the definitions stand for what the source does not contain: the web site and the browser, password
    hashing, case folding, Unicode normalisation, signature verification, resolution of absolute paths, digests of files.

  \<^bold>\<open>Not modelled:\<close> the page parsers (regular expressions over Korean texts), browser reading, diagnostics, the import of
  an older program's data, the copy from PostgreSQL, sample data, the engine settings, the server's migrations, the event
  stream and the files served; the user interface, the shell and the licence service are in other languages.
\<close>

end
